(* ===== verification/Rgb_Prelude.thy ===== *)
theory Rgb_Prelude
  imports Main "HOL-Library.Word"
begin

text \<open>
  The vocabulary the component theories share.  Rust's \<open>Result\<close> is the sum type with the
  error on the left; \<open>?\<close> is \<open>and_then\<close>, and a loop whose body may return early is
  \<open>try_fold\<close> or \<open>try_all\<close>.  The machine integers are words.  Rust's \<open>BTreeMap\<close> (and
  the size-confined variants built on it) is an association list with strictly increasing
  keys: iteration order is list order, \<open>omap_insert\<close> replaces the value of a present key.
\<close>

named_theorems res_simps \<open>unfolding of the result combinators\<close>
named_theorems omap_simps \<open>lookups in ordered maps\<close>

type_synonym u8 = "8 word"
type_synonym u16 = "16 word"
type_synonym u32 = "32 word"
type_synonym u64 = "64 word"
type_synonym bytes = "8 word list"

section \<open>Results\<close>

type_synonym ('e, 'a) result = "'e + 'a"

abbreviation Ok :: "'a \<Rightarrow> ('e, 'a) result" where
  "Ok \<equiv> Inr"

abbreviation Err :: "'e \<Rightarrow> ('e, 'a) result" where
  "Err \<equiv> Inl"

fun is_ok :: "('e, 'a) result \<Rightarrow> bool" where
  "is_ok (Inr _) = True"
| "is_ok (Inl _) = False"

fun and_then :: "('e, 'a) result \<Rightarrow> ('a \<Rightarrow> ('e, 'b) result) \<Rightarrow> ('e, 'b) result" where
  "and_then (Inl e) f = Inl e"
| "and_then (Inr x) f = f x"

fun map_err :: "('e \<Rightarrow> 'f) \<Rightarrow> ('e, 'a) result \<Rightarrow> ('f, 'a) result" where
  "map_err g (Inl e) = Inl (g e)"
| "map_err g (Inr x) = Inr x"

fun ok_or :: "'e \<Rightarrow> 'a option \<Rightarrow> ('e, 'a) result" where
  "ok_or e None = Inl e"
| "ok_or e (Some x) = Inr x"

definition ensure :: "bool \<Rightarrow> 'e \<Rightarrow> ('e, unit) result" where
  "ensure b e = (if b then Inr () else Inl e)"

primrec try_fold :: "('s \<Rightarrow> 'a \<Rightarrow> ('e, 's) result) \<Rightarrow> 's \<Rightarrow> 'a list \<Rightarrow> ('e, 's) result" where
  "try_fold f s [] = Inr s"
| "try_fold f s (x # xs) = and_then (f s x) (\<lambda>s'. try_fold f s' xs)"

primrec try_all :: "('a \<Rightarrow> ('e, unit) result) \<Rightarrow> 'a list \<Rightarrow> ('e, unit) result" where
  "try_all f [] = Inr ()"
| "try_all f (x # xs) = and_then (f x) (\<lambda>_. try_all f xs)"

primrec try_map :: "('a \<Rightarrow> ('e, 'b) result) \<Rightarrow> 'a list \<Rightarrow> ('e, 'b list) result" where
  "try_map f [] = Inr []"
| "try_map f (x # xs) = and_then (f x) (\<lambda>y. and_then (try_map f xs) (\<lambda>ys. Inr (y # ys)))"

lemma and_then_Inr [res_simps]:
  "and_then r f = Inr y \<longleftrightarrow> (\<exists>x. r = Inr x \<and> f x = Inr y)"
  by (cases r) auto

lemma and_then_Inl [res_simps]:
  "and_then r f = Inl e \<longleftrightarrow> r = Inl e \<or> (\<exists>x. r = Inr x \<and> f x = Inl e)"
  by (cases r) auto

lemma map_err_Inr [res_simps]: "map_err g r = Inr x \<longleftrightarrow> r = Inr x"
  by (cases r) auto

lemma map_err_Inl [res_simps]: "map_err g r = Inl e \<longleftrightarrow> (\<exists>e'. r = Inl e' \<and> e = g e')"
  by (cases r) auto

lemma ok_or_Inr [res_simps]: "ok_or e x = Inr y \<longleftrightarrow> x = Some y"
  by (cases x) auto

lemma ok_or_Inl [res_simps]: "ok_or e x = Inl e' \<longleftrightarrow> x = None \<and> e' = e"
  by (cases x) auto

lemma ensure_Inr [res_simps]: "ensure b e = Inr u \<longleftrightarrow> b"
  by (simp add: ensure_def)

lemma ensure_Inl [res_simps]: "ensure b e = Inl e' \<longleftrightarrow> \<not> b \<and> e' = e"
  by (auto simp: ensure_def)

lemma is_ok_iff: "is_ok r \<longleftrightarrow> (\<exists>x. r = Inr x)"
  by (cases r) auto

lemma try_all_Inr [res_simps]: "try_all f xs = Inr u \<longleftrightarrow> (\<forall>x \<in> set xs. f x = Inr ())"
  by (induction xs) (auto simp: res_simps)

lemma try_all_Inl:
  "try_all f xs = Inl e \<Longrightarrow> \<exists>x \<in> set xs. f x = Inl e"
  by (induction xs) (auto simp: res_simps)

lemma try_map_Inr [res_simps]:
  "try_map f xs = Inr ys \<longleftrightarrow> list_all2 (\<lambda>x y. f x = Inr y) xs ys"
proof (induction xs arbitrary: ys)
  case Nil
  then show ?case by auto
next
  case (Cons x xs)
  then show ?case by (cases ys) (auto simp: res_simps)
qed

lemma try_fold_append:
  "try_fold f s (xs @ ys) = and_then (try_fold f s xs) (\<lambda>s'. try_fold f s' ys)"
proof (induction xs arbitrary: s)
  case (Cons x xs)
  then show ?case by (cases "f s x") auto
qed simp

text \<open>Invariant rule of a loop that may return early.\<close>

lemma try_fold_invariant:
  assumes "try_fold f s xs = Inr s'" and "P s"
    and "\<And>t x t'. x \<in> set xs \<Longrightarrow> P t \<Longrightarrow> f t x = Inr t' \<Longrightarrow> P t'"
  shows "P s'"
  using assms
proof (induction xs arbitrary: s)
  case (Cons x xs)
  then obtain t where t: "f s x = Inr t" "try_fold f t xs = Inr s'"
    by (auto simp: res_simps)
  then have "P t" using Cons.prems by auto
  then show ?case using Cons.IH [OF t(2)] Cons.prems(3) by (metis list.set_intros(2))
qed simp

section \<open>Results of code that may panic\<close>

text \<open>
  \<open>None\<close> is a panic.  The combinators are those of results; \<open>expect\<close> is \<open>Option::expect\<close>.
\<close>

type_synonym ('e, 'a) presult = "('e, 'a) result option"

abbreviation POk :: "'a \<Rightarrow> ('e, 'a) presult" where
  "POk x \<equiv> Some (Inr x)"

abbreviation PErr :: "'e \<Rightarrow> ('e, 'a) presult" where
  "PErr e \<equiv> Some (Inl e)"

fun p_then :: "('e, 'a) presult \<Rightarrow> ('a \<Rightarrow> ('e, 'b) presult) \<Rightarrow> ('e, 'b) presult" where
  "p_then None f = None"
| "p_then (Some (Inl e)) f = Some (Inl e)"
| "p_then (Some (Inr x)) f = f x"

fun expect :: "'a option \<Rightarrow> ('e, 'a) presult" where
  "expect None = None"
| "expect (Some x) = POk x"

primrec p_all :: "('a \<Rightarrow> ('e, unit) presult) \<Rightarrow> 'a list \<Rightarrow> ('e, unit) presult" where
  "p_all f [] = POk ()"
| "p_all f (x # xs) = p_then (f x) (\<lambda>_. p_all f xs)"

primrec p_fold :: "('s \<Rightarrow> 'a \<Rightarrow> ('e, 's) presult) \<Rightarrow> 's \<Rightarrow> 'a list \<Rightarrow> ('e, 's) presult" where
  "p_fold f s [] = POk s"
| "p_fold f s (x # xs) = p_then (f s x) (\<lambda>s'. p_fold f s' xs)"

lemma p_then_Ok [res_simps]: "p_then r f = Some (Inr y) \<longleftrightarrow> (\<exists>x. r = Some (Inr x) \<and> f x = Some (Inr y))"
  by (cases "(r, f)" rule: p_then.cases) auto

lemma p_then_Err [res_simps]:
  "p_then r f = Some (Inl e) \<longleftrightarrow> r = Some (Inl e) \<or> (\<exists>x. r = Some (Inr x) \<and> f x = Some (Inl e))"
  by (cases "(r, f)" rule: p_then.cases) auto

lemma p_then_None [res_simps]: "p_then r f = None \<longleftrightarrow> r = None \<or> (\<exists>x. r = Some (Inr x) \<and> f x = None)"
  by (cases "(r, f)" rule: p_then.cases) auto

lemma expect_Ok [res_simps]: "expect x = Some (Inr y) \<longleftrightarrow> x = Some y" "expect x \<noteq> Some (Inl e)"
  "expect x = None \<longleftrightarrow> x = None"
  by (cases x; simp)+

lemma p_all_Ok [res_simps]: "p_all f xs = Some (Inr u) \<longleftrightarrow> (\<forall>x \<in> set xs. f x = Some (Inr ()))"
  by (induction xs) (auto simp: res_simps)

lemma p_all_total: "(\<And>x. x \<in> set xs \<Longrightarrow> f x \<noteq> None) \<Longrightarrow> p_all f xs \<noteq> None"
  by (induction xs) (auto simp: res_simps)

lemma p_all_Err: "p_all f xs = Some (Inl e) \<Longrightarrow> \<exists>x \<in> set xs. f x = Some (Inl e)"
  by (induction xs) (auto simp: res_simps)

lemma p_fold_invariant:
  assumes "p_fold f s xs = Some (Inr s')" and "P s"
    and "\<And>t x t'. x \<in> set xs \<Longrightarrow> P t \<Longrightarrow> f t x = Some (Inr t') \<Longrightarrow> P t'"
  shows "P s'"
  using assms
proof (induction xs arbitrary: s)
  case (Cons x xs)
  then obtain t where t: "f s x = Some (Inr t)" "p_fold f t xs = Some (Inr s')"
    by (auto simp: res_simps)
  then have "P t" using Cons.prems by auto
  then show ?case using Cons.IH [OF t(2)] Cons.prems(3) by (metis list.set_intros(2))
qed simp

text \<open>The invariant may speak about the elements the loop has passed.\<close>

lemma p_fold_trace:
  assumes "p_fold f s xs = Some (Inr s')" and "I ys s"
    and "\<And>zs x t t'. x \<in> set xs \<Longrightarrow> I zs t \<Longrightarrow> f t x = Some (Inr t') \<Longrightarrow> I (zs @ g x) t'"
  shows "I (ys @ concat (map g xs)) s'"
  using assms
proof (induction xs arbitrary: ys s)
  case (Cons x xs)
  then obtain t where t: "f s x = Some (Inr t)" "p_fold f t xs = Some (Inr s')"
    by (auto simp: res_simps)
  then have "I (ys @ g x) t" using Cons.prems by auto
  then show ?case using Cons.IH [OF t(2)] Cons.prems(3) by (simp, metis append.assoc)
qed simp

lemma p_fold_append: "p_fold f s (xs @ ys) = p_then (p_fold f s xs) (\<lambda>s'. p_fold f s' ys)"
proof (induction xs arbitrary: s)
  case (Cons x xs)
  then show ?case by (cases "(f s x, \<lambda>s'. p_fold f s' xs)" rule: p_then.cases) auto
qed simp

section \<open>Vectors\<close>

text \<open>\<open>Vec::get\<close>, \<open>Vec::insert\<close> at a position in range, and \<open>Iterator::position\<close>.\<close>

definition vec_get :: "'a list \<Rightarrow> nat \<Rightarrow> 'a option" where
  "vec_get xs i = (if i < length xs then Some (xs ! i) else None)"

definition vec_insert :: "nat \<Rightarrow> 'a \<Rightarrow> 'a list \<Rightarrow> 'a list" where
  "vec_insert i x xs = take i xs @ x # drop i xs"

fun position :: "('a \<Rightarrow> bool) \<Rightarrow> 'a list \<Rightarrow> nat option" where
  "position p [] = None"
| "position p (x # xs) = (if p x then Some 0 else map_option Suc (position p xs))"

lemma vec_get_map [simp]: "vec_get (map f xs) i = map_option f (vec_get xs i)"
  by (simp add: vec_get_def)

lemma vec_get_Some: "vec_get xs i = Some x \<longleftrightarrow> i < length xs \<and> xs ! i = x"
  by (simp add: vec_get_def)

lemma set_vec_insert [simp]: "set (vec_insert i x xs) = insert x (set xs)"
proof -
  have "set (take i xs) \<union> set (drop i xs) = set xs"
    by (metis append_take_drop_id set_append)
  then show ?thesis by (auto simp: vec_insert_def)
qed

lemma length_vec_insert [simp]: "length (vec_insert i x xs) = Suc (length xs)"
  by (simp add: vec_insert_def)

lemma position_Some:
  "position p xs = Some i \<Longrightarrow> i < length xs \<and> p (xs ! i) \<and> (\<forall>j < i. \<not> p (xs ! j))"
proof (induction xs arbitrary: i)
  case (Cons x xs)
  then show ?case
    by (cases i) (auto simp: less_Suc_eq_0_disj split: if_splits)
qed simp

lemma position_None: "position p xs = None \<longleftrightarrow> (\<forall>x \<in> set xs. \<not> p x)"
  by (induction xs) auto

section \<open>Ordered maps\<close>

type_synonym ('k, 'v) omap = "('k \<times> 'v) list"

definition omap_ok :: "('k::linorder, 'v) omap \<Rightarrow> bool" where
  "omap_ok m \<longleftrightarrow> sorted_wrt (<) (map fst m)"

abbreviation omap_get :: "('k, 'v) omap \<Rightarrow> 'k \<Rightarrow> 'v option" where
  "omap_get m k \<equiv> map_of m k"

fun omap_insert :: "'k::linorder \<Rightarrow> 'v \<Rightarrow> ('k, 'v) omap \<Rightarrow> ('k, 'v) omap" where
  "omap_insert k v [] = [(k, v)]"
| "omap_insert k v ((k', v') # m) =
     (if k < k' then (k, v) # (k', v') # m
      else if k = k' then (k, v) # m
      else (k', v') # omap_insert k v m)"

definition omap_remove :: "'k \<Rightarrow> ('k, 'v) omap \<Rightarrow> ('k, 'v) omap" where
  "omap_remove k m = filter (\<lambda>(k', _). k' \<noteq> k) m"

definition omap_contains :: "('k, 'v) omap \<Rightarrow> 'k \<Rightarrow> bool" where
  "omap_contains m k = (map_of m k \<noteq> None)"

definition omap_keys :: "('k, 'v) omap \<Rightarrow> 'k list" where
  "omap_keys m = map fst m"

definition omap_values :: "('k, 'v) omap \<Rightarrow> 'v list" where
  "omap_values m = map snd m"

lemma omap_contains_iff [omap_simps]: "omap_contains m k \<longleftrightarrow> k \<in> fst ` set m"
  by (auto simp: omap_contains_def map_of_eq_None_iff)

lemma omap_ok_Nil [simp]: "omap_ok []"
  by (simp add: omap_ok_def)

lemma omap_ok_Cons [simp]:
  "omap_ok ((k, v) # m) \<longleftrightarrow> (\<forall>k' \<in> fst ` set m. k < k') \<and> omap_ok m"
  by (simp add: omap_ok_def)

lemma omap_ok_distinct: "omap_ok m \<Longrightarrow> distinct (map fst m)"
  by (simp add: omap_ok_def strict_sorted_iff)

lemma omap_get_iff: "omap_ok m \<Longrightarrow> omap_get m k = Some v \<longleftrightarrow> (k, v) \<in> set m"
  using map_of_eq_Some_iff [OF omap_ok_distinct, of m k v] by auto

lemma set_omap_insert_keys: "fst ` set (omap_insert k v m) = insert k (fst ` set m)"
  by (induction k v m rule: omap_insert.induct) (simp_all add: insert_commute)

lemma omap_ok_insert [intro, simp]: "omap_ok m \<Longrightarrow> omap_ok (omap_insert k v m)"
proof (induction m)
  case (Cons a m)
  obtain k' v' where a: "a = (k', v')" by (cases a)
  show ?case
    using Cons by (auto simp: a set_omap_insert_keys)
qed simp

lemma omap_get_insert [simp, omap_simps]:
  "omap_ok m \<Longrightarrow> omap_get (omap_insert k v m) = (omap_get m)(k \<mapsto> v)"
proof (induction m)
  case (Cons a m)
  obtain k' v' where a: "a = (k', v')" by (cases a)
  show ?case
    using Cons by (auto simp: a fun_eq_iff)
qed simp

lemma omap_ok_filter [intro, simp]: "omap_ok m \<Longrightarrow> omap_ok (filter P m)"
  by (induction m) auto

lemma omap_ok_remove [intro, simp]: "omap_ok m \<Longrightarrow> omap_ok (omap_remove k m)"
  by (simp add: omap_remove_def)

lemma omap_get_remove [simp, omap_simps]:
  "omap_get (omap_remove k m) = (omap_get m)(k := None)"
  by (induction m) (auto simp: omap_remove_def)

lemma length_omap_insert:
  "omap_ok m \<Longrightarrow> length (omap_insert k v m) = (if k \<in> fst ` set m then length m else Suc (length m))"
proof (induction m)
  case (Cons a m)
  obtain k' v' where a: "a = (k', v')" by (cases a)
  show ?case
    using Cons by (auto simp: a)
qed simp

text \<open>Two ordered maps with the same lookups are the same list.\<close>

lemma omap_ext:
  assumes "omap_ok m" "omap_ok n" "omap_get m = omap_get n"
  shows "m = n"
proof -
  have "set m = set n"
    using assms omap_get_iff [OF assms(1)] omap_get_iff [OF assms(2)] by auto
  moreover have "sorted (map fst m)" "sorted (map fst n)"
    using assms by (auto simp: omap_ok_def strict_sorted_iff)
  moreover have "inj_on fst (set m \<union> set n)"
    using \<open>set m = set n\<close> omap_ok_distinct [OF assms(1)] by (simp add: distinct_map)
  ultimately show ?thesis
    using assms(1,2) by (intro map_sorted_distinct_set_unique) (auto simp: omap_ok_distinct)
qed

end
