(* ===== verification/Schema.thy ===== *)
theory Schema
  imports Rgb_Prelude
begin

text \<open>
  Contract schemata (\<open>rgb-consensus/src/schema/\<close>): the \<open>Occurrences\<close> bounds with their
  checker, their construction from a range and their two-field encoding, the owned-state,
  global-state and operation schemata, and the lookups of \<open>impl Schema\<close>.  Type identifiers
  are the 16-bit numbers the wrappers hold; 32-byte identifiers are words of 256 bits, whose
  unsigned order is the order of the byte arrays.  A lookup that panics through \<open>expect\<close>
  has the value \<open>None\<close>.
\<close>

section \<open>Identifiers\<close>

type_synonym bytes32 = "256 word"
type_synonym MetaType = u16
type_synonym GlobalStateType = u16
type_synonym TransitionType = u16
type_synonym AssignmentType = u16
type_synonym SemId = bytes32
type_synonym SchemaId = bytes32
type_synonym LibId = bytes32
type_synonym FieldName = string

definition ASSET :: AssignmentType where
  "ASSET = 4000"

definition is_asset :: "AssignmentType \<Rightarrow> bool" where
  "is_asset t = (t = ASSET)"

section \<open>Occurrences\<close>

datatype Occurrences =
    Once
  | NoneOrOnce
  | NoneOrMore
  | OnceOrMore
  | NoneOrUpTo u16
  | OnceOrUpTo u16
  | Exactly u16
  | Range u16 u16

record OccurrencesMismatch =
  mm_min :: u16
  mm_max :: u16
  mm_found :: u16

datatype OccurrencesError = Zero | MinExceedsMax

definition u16_MAX :: u16 where
  "u16_MAX = 0xFFFF"

fun min_value :: "Occurrences \<Rightarrow> u16" where
  "min_value Once = 1"
| "min_value NoneOrOnce = 0"
| "min_value NoneOrMore = 0"
| "min_value OnceOrMore = 1"
| "min_value (NoneOrUpTo _) = 0"
| "min_value (OnceOrUpTo _) = 1"
| "min_value (Exactly val) = val"
| "min_value (Range lo hi) = lo"

fun max_value :: "Occurrences \<Rightarrow> u16" where
  "max_value Once = 1"
| "max_value NoneOrOnce = 1"
| "max_value NoneOrMore = u16_MAX"
| "max_value OnceOrMore = u16_MAX"
| "max_value (OnceOrUpTo mx) = mx"
| "max_value (NoneOrUpTo mx) = mx"
| "max_value (Exactly val) = val"
| "max_value (Range lo hi) = hi"

text \<open>The guarded arms of \<open>Occurrences::check\<close>; the wildcard arm is the error.\<close>

fun check_arm :: "Occurrences \<Rightarrow> u16 \<Rightarrow> bool" where
  "check_arm Once count = (count = 1)"
| "check_arm NoneOrOnce count = (count \<le> 1)"
| "check_arm OnceOrMore count = (count > 0)"
| "check_arm (OnceOrUpTo mx) count = (count > 0 \<and> count \<le> mx)"
| "check_arm NoneOrMore count = True"
| "check_arm (NoneOrUpTo mx) count = (count \<le> mx)"
| "check_arm (Exactly val) count = (count = val)"
| "check_arm (Range lo hi) count = (lo \<le> count \<and> count \<le> hi)"

definition check :: "Occurrences \<Rightarrow> u16 \<Rightarrow> (OccurrencesMismatch, unit) result" where
  "check occ count =
     (if check_arm occ count then Ok ()
      else Err \<lparr> mm_min = min_value occ, mm_max = max_value occ, mm_found = count \<rparr>)"

definition occurrences_try_from :: "u16 \<Rightarrow> u16 \<Rightarrow> (OccurrencesError, Occurrences) result" where
  "occurrences_try_from a b =
     (if a = 0 \<and> b = 0 then Err Zero
      else if a > b then Err MinExceedsMax
      else if a = 0 \<and> b = 1 then Ok NoneOrOnce
      else if a = 1 \<and> b = 1 then Ok Once
      else if a = 0 \<and> b = u16_MAX then Ok NoneOrMore
      else if a = 1 \<and> b = u16_MAX then Ok OnceOrMore
      else if a = 0 then Ok (NoneOrUpTo b)
      else if a = 1 then Ok (OnceOrUpTo b)
      else if a = b then Ok (Exactly a)
      else Ok (Range a b))"

text \<open>The strict encoding writes the fields \<open>min\<close> and \<open>max\<close>; decoding rebuilds the value.\<close>

definition occurrences_encode :: "Occurrences \<Rightarrow> u16 \<times> u16" where
  "occurrences_encode occ = (min_value occ, max_value occ)"

definition occurrences_decode :: "u16 \<times> u16 \<Rightarrow> (OccurrencesError, Occurrences) result" where
  "occurrences_decode = (\<lambda>(mn, mx). occurrences_try_from mn mx)"

subsection \<open>What a bound admits\<close>

lemma u16_one_le: "(1 :: u16) \<le> c \<longleftrightarrow> 0 < c"
  by (simp add: word_le_nat_alt word_less_nat_alt Suc_le_eq)

lemma u16_le_MAX [simp]: "c \<le> u16_MAX"
proof -
  have "unat c < 2 ^ 16" using unsigned_less [of c] by simp
  then show ?thesis by (simp add: u16_MAX_def word_le_nat_alt)
qed

lemma check_arm_iff: "check_arm occ c \<longleftrightarrow> min_value occ \<le> c \<and> c \<le> max_value occ"
  by (cases occ) (auto simp: u16_one_le word_gt_0_no intro: order_antisym)

lemma check_Ok_iff: "check occ c = Ok () \<longleftrightarrow> min_value occ \<le> c \<and> c \<le> max_value occ"
  by (simp add: check_def check_arm_iff)

lemma try_from_bounds:
  "occurrences_try_from a b = Ok occ \<Longrightarrow> min_value occ = a \<and> max_value occ = b"
  by (auto simp: occurrences_try_from_def split: if_splits)

lemma try_from_Ok_iff: "is_ok (occurrences_try_from a b) \<longleftrightarrow> a \<le> b \<and> b \<noteq> 0"
  by (auto simp: occurrences_try_from_def not_less u16_MAX_def)

lemma try_from_idem:
  "occurrences_try_from a b = Ok occ \<Longrightarrow> occurrences_decode (occurrences_encode occ) = Ok occ"
  using try_from_bounds [of a b occ] by (simp add: occurrences_decode_def occurrences_encode_def)

section \<open>State schemata\<close>

datatype StateType = Void | Fungible | Structured

datatype FungibleType = Unsigned64Bit

datatype OwnedStateSchema =
    DeclarativeSchema
  | FungibleSchema FungibleType
  | StructuredSchema SemId

fun oss_state_type :: "OwnedStateSchema \<Rightarrow> StateType" where
  "oss_state_type DeclarativeSchema = Void"
| "oss_state_type (FungibleSchema _) = Fungible"
| "oss_state_type (StructuredSchema _) = Structured"

fun oss_sem_id :: "OwnedStateSchema \<Rightarrow> SemId option" where
  "oss_sem_id (StructuredSchema sid) = Some sid"
| "oss_sem_id _ = None"

record GlobalStateSchema =
  gss_sem_id :: SemId
  max_items :: "24 word"

definition gss_once :: "SemId \<Rightarrow> GlobalStateSchema" where
  "gss_once sid = \<lparr> gss_sem_id = sid, max_items = 1 \<rparr>"

definition gss_many :: "SemId \<Rightarrow> GlobalStateSchema" where
  "gss_many sid = \<lparr> gss_sem_id = sid, max_items = 0xFFFFFF \<rparr>"

section \<open>Operation schemata\<close>

type_synonym MetaSchema = "MetaType list"
type_synonym GlobalSchema = "(GlobalStateType, Occurrences) omap"
type_synonym InputsSchema = "(AssignmentType, Occurrences) omap"
type_synonym AssignmentsSchema = "(AssignmentType, Occurrences) omap"

datatype OpFullType = GenesisOp | StateTransitionOp TransitionType

fun subtype :: "OpFullType \<Rightarrow> u16" where
  "subtype GenesisOp = 0"
| "subtype (StateTransitionOp ty) = ty"

fun is_transition :: "OpFullType \<Rightarrow> bool" where
  "is_transition (StateTransitionOp _) = True"
| "is_transition GenesisOp = False"

record LibSite =
  site_lib :: LibId
  site_pos :: u16

record GenesisSchema =
  gs_metadata :: MetaSchema
  gs_globals :: GlobalSchema
  gs_assignments :: AssignmentsSchema
  gs_validator :: "LibSite option"

record TransitionSchema =
  ts_metadata :: MetaSchema
  ts_globals :: GlobalSchema
  ts_inputs :: InputsSchema
  ts_assignments :: AssignmentsSchema
  ts_validator :: "LibSite option"

text \<open>The view the trait \<open>OpSchema\<close> gives of the two operation schemata.\<close>

record OpSchema =
  os_metadata :: MetaSchema
  os_globals :: GlobalSchema
  os_inputs :: "InputsSchema option"
  os_assignments :: AssignmentsSchema

definition genesis_op_schema :: "GenesisSchema \<Rightarrow> OpSchema" where
  "genesis_op_schema g =
     \<lparr> os_metadata = gs_metadata g, os_globals = gs_globals g,
       os_inputs = None, os_assignments = gs_assignments g \<rparr>"

definition transition_op_schema :: "TransitionSchema \<Rightarrow> OpSchema" where
  "transition_op_schema t =
     \<lparr> os_metadata = ts_metadata t, os_globals = ts_globals t,
       os_inputs = Some (ts_inputs t), os_assignments = ts_assignments t \<rparr>"

section \<open>Schema\<close>

record AssignmentDetails =
  owned_state_schema :: OwnedStateSchema
  ad_name :: FieldName
  default_transition :: TransitionType

record GlobalDetails =
  global_state_schema :: GlobalStateSchema
  gd_name :: FieldName

record MetaDetails =
  md_sem_id :: SemId
  md_name :: FieldName

record TransitionDetails =
  transition_schema :: TransitionSchema
  td_name :: FieldName

record Schema =
  ffv :: u16
  schema_name :: string
  meta_types :: "(MetaType, MetaDetails) omap"
  global_types :: "(GlobalStateType, GlobalDetails) omap"
  owned_types :: "(AssignmentType, AssignmentDetails) omap"
  schema_genesis :: GenesisSchema
  transitions :: "(TransitionType, TransitionDetails) omap"
  default_assignment :: "AssignmentType option"

definition schema_types :: "Schema \<Rightarrow> SemId list" where
  "schema_types s =
     map md_sem_id (omap_values (meta_types s))
     @ map (\<lambda>i. gss_sem_id (global_state_schema i)) (omap_values (global_types s))
     @ List.map_filter (\<lambda>ai. oss_sem_id (owned_state_schema ai)) (omap_values (owned_types s))"

definition schema_libs :: "Schema \<Rightarrow> LibId list" where
  "schema_libs s =
     map site_lib
       ((case gs_validator (schema_genesis s) of None \<Rightarrow> [] | Some site \<Rightarrow> [site])
        @ List.map_filter (\<lambda>i. ts_validator (transition_schema i)) (omap_values (transitions s)))"

definition default_transition_for_assignment :: "Schema \<Rightarrow> AssignmentType \<Rightarrow> TransitionType option" where
  "default_transition_for_assignment s t =
     map_option default_transition (omap_get (owned_types s) t)"

text \<open>Lookups by name and by identifier are linear searches in key order.\<close>

definition assignment :: "Schema \<Rightarrow> FieldName \<Rightarrow> (AssignmentType \<times> AssignmentDetails) option" where
  "assignment s name = List.find (\<lambda>(_, i). ad_name i = name) (owned_types s)"

definition assignment_type :: "Schema \<Rightarrow> FieldName \<Rightarrow> AssignmentType option" where
  "assignment_type s name = map_option fst (assignment s name)"

definition assignment_name :: "Schema \<Rightarrow> AssignmentType \<Rightarrow> FieldName option" where
  "assignment_name s t =
     map_option (\<lambda>p. ad_name (snd p)) (List.find (\<lambda>(tid, _). tid = t) (owned_types s))"

definition assignment_types_for_state :: "Schema \<Rightarrow> StateType \<Rightarrow> AssignmentType list" where
  "assignment_types_for_state s st =
     List.map_filter
       (\<lambda>(at, ai). if oss_state_type (owned_state_schema ai) = st then Some at else None)
       (owned_types s)"

definition global :: "Schema \<Rightarrow> FieldName \<Rightarrow> (GlobalStateType \<times> GlobalDetails) option" where
  "global s name = List.find (\<lambda>(_, i). gd_name i = name) (global_types s)"

definition global_type :: "Schema \<Rightarrow> FieldName \<Rightarrow> GlobalStateType option" where
  "global_type s name = map_option fst (global s name)"

definition meta :: "Schema \<Rightarrow> FieldName \<Rightarrow> (MetaType \<times> MetaDetails) option" where
  "meta s name = List.find (\<lambda>(_, i). md_name i = name) (meta_types s)"

definition meta_type :: "Schema \<Rightarrow> FieldName \<Rightarrow> MetaType option" where
  "meta_type s name = map_option fst (meta s name)"

definition meta_name :: "Schema \<Rightarrow> MetaType \<Rightarrow> FieldName option" where
  "meta_name s t =
     map_option (\<lambda>p. md_name (snd p)) (List.find (\<lambda>(tid, _). tid = t) (meta_types s))"

definition transition :: "Schema \<Rightarrow> FieldName \<Rightarrow> (TransitionType \<times> TransitionDetails) option" where
  "transition s name = List.find (\<lambda>(_, i). td_name i = name) (transitions s)"

definition transition_type :: "Schema \<Rightarrow> FieldName \<Rightarrow> TransitionType option" where
  "transition_type s name = map_option fst (transition s name)"

text \<open>The type invariant of the confined ordered maps a schema is built from.\<close>

definition op_schema_ok :: "OpSchema \<Rightarrow> bool" where
  "op_schema_ok os \<longleftrightarrow>
     sorted_wrt (<) (os_metadata os) \<and> omap_ok (os_globals os) \<and> omap_ok (os_assignments os)
     \<and> (case os_inputs os of None \<Rightarrow> True | Some m \<Rightarrow> omap_ok m)"

definition schema_ok :: "Schema \<Rightarrow> bool" where
  "schema_ok s \<longleftrightarrow>
     omap_ok (meta_types s) \<and> omap_ok (global_types s) \<and> omap_ok (owned_types s)
     \<and> omap_ok (transitions s) \<and> op_schema_ok (genesis_op_schema (schema_genesis s))
     \<and> (\<forall>td \<in> set (omap_values (transitions s)).
           op_schema_ok (transition_op_schema (transition_schema td)))"

subsection \<open>Lookups agree with the maps\<close>

lemma find_key_map_of: "List.find (\<lambda>(k', _). k' = k) m = map_option (Pair k) (map_of m k)"
  by (induction m) auto

lemma assignment_name_get:
  "assignment_name s t = map_option ad_name (omap_get (owned_types s) t)"
  by (simp add: assignment_name_def find_key_map_of option.map_comp comp_def)

lemma meta_name_get: "meta_name s t = map_option md_name (omap_get (meta_types s) t)"
  by (simp add: meta_name_def find_key_map_of option.map_comp comp_def)

lemma find_name_in_map:
  assumes "List.find (\<lambda>(_, i). nm i = name) m = Some (t, d)" "omap_ok m"
  shows "omap_get m t = Some d \<and> nm d = name"
  using assms by (auto simp: omap_get_iff find_Some_iff in_set_conv_nth)

lemma set_map_filter_iff: "y \<in> set (List.map_filter f xs) \<longleftrightarrow> (\<exists>x \<in> set xs. f x = Some y)"
  by (force simp: map_filter_def image_iff)

text \<open>The type of a name carries that name, and an unambiguous name finds its type.\<close>

lemma assignment_type_name:
  assumes "schema_ok s" "assignment_type s name = Some t"
  shows "assignment_name s t = Some name"
proof -
  obtain d where "assignment s name = Some (t, d)"
    using assms(2) by (auto simp: assignment_type_def)
  then show ?thesis
    using assms(1) find_name_in_map [of ad_name name "owned_types s" t d]
    by (auto simp: assignment_def schema_ok_def assignment_name_get)
qed

lemma assignment_types_for_state_iff:
  assumes "schema_ok s"
  shows "t \<in> set (assignment_types_for_state s st) \<longleftrightarrow>
    (\<exists>d. omap_get (owned_types s) t = Some d \<and> oss_state_type (owned_state_schema d) = st)"
  using assms
  by (force simp: assignment_types_for_state_def set_map_filter_iff omap_get_iff schema_ok_def
      split: if_splits)

end
