(* ===== verification/Text.thy ===== *)
theory Text
  imports Rgb_Prelude
begin

text \<open>
  The string operations of Rust's standard library the parsers and printers of the program
  use: \<open>str::split\<close> on a character predicate, \<open>starts_with\<close>, \<open>trim_start_matches\<close>, number
  parsing by \<open>from_str_radix\<close> (an optional plus sign, at least one digit, overflow refused)
  and number printing in a radix.  The law the parsers rest on is that printing a number in
  range and parsing it gives the number back.
\<close>

section \<open>Splitting and prefixes\<close>

fun split_on :: "(char \<Rightarrow> bool) \<Rightarrow> string \<Rightarrow> string list" where
  "split_on p [] = [[]]"
| "split_on p (c # cs) =
     (if p c then [] # split_on p cs
      else (case split_on p cs of [] \<Rightarrow> [[c]] | w # ws \<Rightarrow> (c # w) # ws))"

primrec starts_with :: "string \<Rightarrow> string \<Rightarrow> bool" where
  "starts_with s [] = True"
| "starts_with s (c # cs) = (case s of [] \<Rightarrow> False | d # ds \<Rightarrow> c = d \<and> starts_with ds cs)"

text \<open>\<open>trim_start_matches("0x")\<close> removes the prefix as often as it occurs.\<close>

fun trim_0x :: "string \<Rightarrow> string" where
  "trim_0x (a # b # s) = (if a = CHR ''0'' \<and> b = CHR ''x'' then trim_0x s else a # b # s)"
| "trim_0x s = s"

lemma split_on_not_Nil [simp]: "split_on p s \<noteq> []"
  by (cases s) (auto split: list.splits)

lemma split_on_none: "list_all (\<lambda>c. \<not> p c) s \<Longrightarrow> split_on p s = [s]"
  by (induction s) auto

lemma split_on_append:
  "list_all (\<lambda>c. \<not> p c) s \<Longrightarrow> p c \<Longrightarrow> split_on p (s @ c # t) = s # split_on p t"
  by (induction s) auto

lemma starts_with_iff: "starts_with s p \<longleftrightarrow> (\<exists>t. s = p @ t)"
  by (induction p arbitrary: s) (auto split: list.splits)

section \<open>Digits\<close>

definition char_digit :: "nat \<Rightarrow> char \<Rightarrow> nat option" where
  "char_digit radix c =
     (let n = of_char c;
          d = (if 48 \<le> n \<and> n \<le> 57 then Some (n - 48)
               else if 97 \<le> n \<and> n \<le> 122 then Some (n - 87)
               else if 65 \<le> n \<and> n \<le> 90 then Some (n - 55)
               else None)
      in case d of None \<Rightarrow> None | Some v \<Rightarrow> if v < radix then Some v else None)"

definition digit_char :: "nat \<Rightarrow> char" where
  "digit_char d = char_of (if d < 10 then 48 + d else 87 + d)"

fun parse_digits :: "nat \<Rightarrow> nat \<Rightarrow> nat \<Rightarrow> string \<Rightarrow> nat option" where
  "parse_digits lim radix acc [] = Some acc"
| "parse_digits lim radix acc (c # cs) =
     (case char_digit radix c of
        None \<Rightarrow> None
      | Some d \<Rightarrow> if acc * radix + d < lim then parse_digits lim radix (acc * radix + d) cs
                  else None)"

definition from_str_radix :: "nat \<Rightarrow> nat \<Rightarrow> string \<Rightarrow> nat option" where
  "from_str_radix lim radix s =
     (case s of
        [] \<Rightarrow> None
      | c # cs \<Rightarrow>
          if c = CHR ''+'' then (if cs = [] then None else parse_digits lim radix 0 cs)
          else parse_digits lim radix 0 s)"

fun print_radix :: "nat \<Rightarrow> nat \<Rightarrow> string" where
  "print_radix radix n =
     (if radix < 2 \<or> n < radix then [digit_char n]
      else print_radix radix (n div radix) @ [digit_char (n mod radix)])"

declare print_radix.simps [simp del]

text \<open>\<open>{:0w}\<close> pads with zeros on the left.\<close>

definition pad_zeros :: "nat \<Rightarrow> string \<Rightarrow> string" where
  "pad_zeros w s = replicate (w - length s) (CHR ''0'') @ s"

lemma of_char_digit_char: "d < 36 \<Longrightarrow> of_char (digit_char d) = (if d < 10 then 48 + d else 87 + d)"
  by (simp add: digit_char_def)

lemma char_digit_digit_char [simp]:
  "d < radix \<Longrightarrow> radix \<le> 36 \<Longrightarrow> char_digit radix (digit_char d) = Some d"
  by (auto simp: char_digit_def of_char_digit_char Let_def)

lemma parse_digits_append:
  "parse_digits lim radix acc (s @ t) =
     (case parse_digits lim radix acc s of None \<Rightarrow> None | Some a \<Rightarrow> parse_digits lim radix a t)"
  by (induction s arbitrary: acc) (auto split: option.splits)

lemma parse_print_radix:
  assumes "2 \<le> radix" "radix \<le> 36" "n < lim"
  shows "parse_digits lim radix 0 (print_radix radix n) = Some n"
  using assms
proof (induction radix n rule: print_radix.induct)
  case (1 radix n)
  show ?case
  proof (cases "n < radix")
    case True
    then show ?thesis using "1.prems" by (simp add: print_radix.simps)
  next
    case False
    then have "n div radix < lim" using "1.prems" by (simp add: div_less_dividend order_le_less_trans [of "n div radix" n])
    then have "parse_digits lim radix 0 (print_radix radix (n div radix)) = Some (n div radix)"
      using 1 False by auto
    then show ?thesis
      using False "1.prems" by (subst print_radix.simps) (simp add: parse_digits_append)
  qed
qed

lemma parse_pad_zeros:
  assumes "0 < lim" "0 < radix" "radix \<le> 36"
  shows "parse_digits lim radix 0 (pad_zeros w s) = parse_digits lim radix 0 s"
proof -
  have z: "char_digit radix (CHR ''0'') = Some 0"
    using assms by (simp add: char_digit_def)
  have "parse_digits lim radix 0 (replicate k (CHR ''0'')) = Some 0" for k
    by (induction k) (simp_all add: z assms)
  then show ?thesis by (simp add: pad_zeros_def parse_digits_append)
qed

definition is_digit_char :: "char \<Rightarrow> bool" where
  "is_digit_char c \<longleftrightarrow> (48 \<le> (of_char c :: nat) \<and> (of_char c :: nat) \<le> 57)
     \<or> (97 \<le> (of_char c :: nat) \<and> (of_char c :: nat) \<le> 102)"

lemma print_radix_chars: "radix \<le> 16 \<Longrightarrow> 2 \<le> radix \<Longrightarrow> list_all is_digit_char (print_radix radix n)"
proof (induction radix n rule: print_radix.induct)
  case (1 radix n)
  have d: "is_digit_char (digit_char k)" if "k < radix" for k
    using that "1.prems" by (auto simp: is_digit_char_def of_char_digit_char)
  show ?case
  proof (cases "n < radix")
    case True
    then show ?thesis using d by (simp add: print_radix.simps)
  next
    case False
    then show ?thesis using 1 d by (subst print_radix.simps) auto
  qed
qed

lemma print_radix_not_Nil [simp]: "print_radix radix n \<noteq> []"
  by (subst print_radix.simps) auto

lemma pad_zeros_chars: "list_all is_digit_char s \<Longrightarrow> list_all is_digit_char (pad_zeros w s)"
  by (auto simp: pad_zeros_def list_all_iff is_digit_char_def)

lemma from_str_radix_digits:
  assumes "list_all is_digit_char s" "s \<noteq> []"
  shows "from_str_radix lim radix s = parse_digits lim radix 0 s"
  using assms by (cases s) (auto simp: from_str_radix_def is_digit_char_def)

text \<open>Printing in a radix up to 16, with or without padding, is inverted by the parser.\<close>

lemma from_str_radix_print:
  assumes "2 \<le> radix" "radix \<le> 16" "n < lim"
  shows "from_str_radix lim radix (pad_zeros w (print_radix radix n)) = Some n"
proof -
  have "list_all is_digit_char (pad_zeros w (print_radix radix n))"
    using assms by (intro pad_zeros_chars print_radix_chars)
  moreover have "pad_zeros w (print_radix radix n) \<noteq> []"
    by (simp add: pad_zeros_def)
  ultimately show ?thesis
    using assms by (simp add: from_str_radix_digits parse_pad_zeros parse_print_radix)
qed

lemma from_str_radix_bound: "from_str_radix lim radix s = Some n \<Longrightarrow> 0 < lim \<Longrightarrow> n < lim"
proof -
  have "parse_digits lim radix acc s = Some n \<Longrightarrow> acc < lim \<Longrightarrow> n < lim" for acc s
    by (induction s arbitrary: acc) (auto split: option.splits if_splits)
  then show "from_str_radix lim radix s = Some n \<Longrightarrow> 0 < lim \<Longrightarrow> n < lim"
    by (auto simp: from_str_radix_def simp del: parse_digits.simps split: list.splits if_splits)
qed

end
