(* ===== verification/Seals.thy ===== *)
theory Seals
  imports Schema Text
begin

text \<open>
  Single-use seals over transaction outputs (\<open>rgb-consensus/src/seals/\<close> and
  \<open>operation/seal.rs\<close>).  A seal names an output by a transaction pointer and an output
  number.  The trait \<open>SealTxid\<close> is the locale \<open>seal_txid\<close>, interpreted on the two
  implementations: a known transaction id, and \<open>TxPtr\<close>, which may stand for the witness
  transaction.  The strings of blind and explicit seals are parsed and printed as in
  \<open>FromStr\<close> and \<open>Display\<close>; parsing and printing of a transaction id (crate \<open>bitcoin\<close>)
  are parameters.  \<open>verify_seal\<close> and \<open>verify_many_seals\<close> check a witness transaction;
  the commitment proof inside it is the parameter \<open>proof_verify\<close>.
\<close>

section \<open>Transactions\<close>

type_synonym Txid = bytes32
type_synonym Vout = u32
type_synonym SecretSeal = bytes32

record Outpoint =
  op_txid :: Txid
  op_vout :: Vout

text \<open>The parts of \<open>bitcoin::Transaction\<close> the consensus code reads and writes.\<close>

record TxIn =
  previous_output :: Outpoint

record TxOut =
  tx_value :: u64
  script_pubkey :: bytes

record Tx =
  tx_version :: u32
  lock_time :: u32
  tx_input :: "TxIn list"
  tx_output :: "TxOut list"

section \<open>Transaction pointers\<close>

datatype TxPtr = WitnessTx | PtrTxid Txid

definition outpoint_new :: "Txid \<Rightarrow> Vout \<Rightarrow> Outpoint" where
  "outpoint_new t v = \<lparr> op_txid = t, op_vout = v \<rparr>"

definition txid_txid :: "Txid \<Rightarrow> Txid option" where
  "txid_txid t = Some t"

definition txid_txid_or :: "Txid \<Rightarrow> Txid \<Rightarrow> Txid" where
  "txid_txid_or t d = t"

definition txid_map_to_outpoint :: "Txid \<Rightarrow> Vout \<Rightarrow> Outpoint option" where
  "txid_map_to_outpoint t v = Some (outpoint_new t v)"

fun ptr_txid :: "TxPtr \<Rightarrow> Txid option" where
  "ptr_txid WitnessTx = None"
| "ptr_txid (PtrTxid t) = Some t"

fun ptr_txid_or :: "TxPtr \<Rightarrow> Txid \<Rightarrow> Txid" where
  "ptr_txid_or WitnessTx d = d"
| "ptr_txid_or (PtrTxid t) d = t"

definition ptr_map_to_outpoint :: "TxPtr \<Rightarrow> Vout \<Rightarrow> Outpoint option" where
  "ptr_map_to_outpoint p v = map_option (\<lambda>t. outpoint_new t v) (ptr_txid p)"

section \<open>Blind and explicit seals\<close>

record 'id BlindSeal =
  bs_txid :: 'id
  bs_vout :: Vout
  blinding :: u64

type_synonym GraphSeal = "TxPtr BlindSeal"
type_synonym GenesisSeal = "Txid BlindSeal"

record 'id ExplicitSeal =
  es_txid :: 'id
  es_vout :: Vout

type_synonym OutputSeal = "Txid ExplicitSeal"

definition with_blinding :: "'id \<Rightarrow> Vout \<Rightarrow> u64 \<Rightarrow> 'id BlindSeal" where
  "with_blinding t v b = \<lparr> bs_txid = t, bs_vout = v, blinding = b \<rparr>"

definition with_blinded_vout :: "Vout \<Rightarrow> u64 \<Rightarrow> GraphSeal" where
  "with_blinded_vout v b = with_blinding WitnessTx v b"

definition transmutate :: "GenesisSeal \<Rightarrow> GraphSeal" where
  "transmutate s = with_blinding (PtrTxid (bs_txid s)) (bs_vout s) (blinding s)"

definition to_outpoint :: "GenesisSeal \<Rightarrow> Outpoint" where
  "to_outpoint s = outpoint_new (bs_txid s) (bs_vout s)"

definition resolve :: "GraphSeal \<Rightarrow> Txid \<Rightarrow> GenesisSeal" where
  "resolve s t =
     with_blinding (case ptr_txid (bs_txid s) of None \<Rightarrow> t | Some t' \<Rightarrow> t') (bs_vout s) (blinding s)"

text \<open>\<open>TxoSeal\<close> for blind seals, over the \<open>SealTxid\<close> operations of the id type.\<close>

definition bs_outpoint :: "('id \<Rightarrow> Vout \<Rightarrow> Outpoint option) \<Rightarrow> 'id BlindSeal \<Rightarrow> Outpoint option" where
  "bs_outpoint map_to s = map_to (bs_txid s) (bs_vout s)"

definition bs_outpoint_or :: "('id \<Rightarrow> Txid \<Rightarrow> Txid) \<Rightarrow> 'id BlindSeal \<Rightarrow> Txid \<Rightarrow> Outpoint" where
  "bs_outpoint_or tor s d = outpoint_new (tor (bs_txid s) d) (bs_vout s)"

definition explicit_new :: "(Txid \<Rightarrow> 'id) \<Rightarrow> Outpoint \<Rightarrow> 'id ExplicitSeal" where
  "explicit_new from_id o' = \<lparr> es_txid = from_id (op_txid o'), es_vout = op_vout o' \<rparr>"

definition explicit_to_outpoint :: "OutputSeal \<Rightarrow> Outpoint" where
  "explicit_to_outpoint s = outpoint_new (es_txid s) (es_vout s)"

text \<open>\<open>ExposedSeal::to_output_seal\<close>, \<open>to_output_seal_or_default\<close> and \<open>with_witness_id\<close>.\<close>

definition to_output_seal ::
  "('id \<Rightarrow> Vout \<Rightarrow> Outpoint option) \<Rightarrow> 'id BlindSeal \<Rightarrow> OutputSeal option" where
  "to_output_seal map_to s = map_option (explicit_new id) (bs_outpoint map_to s)"

definition to_output_seal_or_default ::
  "('id \<Rightarrow> Vout \<Rightarrow> Outpoint option) \<Rightarrow> ('id \<Rightarrow> Txid \<Rightarrow> Txid) \<Rightarrow> 'id BlindSeal \<Rightarrow> Txid \<Rightarrow> OutputSeal"
where
  "to_output_seal_or_default map_to tor s w =
     (case to_output_seal map_to s of
        Some o' \<Rightarrow> o'
      | None \<Rightarrow> explicit_new id (bs_outpoint_or tor s w))"

definition graph_with_witness_id :: "GraphSeal \<Rightarrow> Txid option \<Rightarrow> GenesisSeal option" where
  "graph_with_witness_id s w =
     (case (case ptr_txid (bs_txid s) of Some t \<Rightarrow> Some t | None \<Rightarrow> w) of
        None \<Rightarrow> None
      | Some t \<Rightarrow> Some (with_blinding t (bs_vout s) (blinding s)))"

definition genesis_with_witness_id :: "GenesisSeal \<Rightarrow> Txid option \<Rightarrow> GenesisSeal option" where
  "genesis_with_witness_id s w = Some s"

subsection \<open>The contract of \<open>SealTxid\<close>\<close>

locale seal_txid =
  fixes known :: "'id \<Rightarrow> Txid option"
    and known_or :: "'id \<Rightarrow> Txid \<Rightarrow> Txid"
    and map_to :: "'id \<Rightarrow> Vout \<Rightarrow> Outpoint option"
    and from_id :: "Txid \<Rightarrow> 'id"
  assumes known_or_law: "known_or i d = (case known i of None \<Rightarrow> d | Some t \<Rightarrow> t)"
    and map_to_law: "map_to i v = map_option (\<lambda>t. outpoint_new t v) (known i)"
    and known_from: "known (from_id t) = Some t"
begin

lemma outpoint_or_eq:
  "bs_outpoint_or known_or s d =
     (case bs_outpoint map_to s of None \<Rightarrow> outpoint_new d (bs_vout s) | Some p \<Rightarrow> p)"
  by (simp add: bs_outpoint_or_def bs_outpoint_def known_or_law map_to_law split: option.splits)

lemma output_seal_or_default_outpoint:
  "explicit_to_outpoint (to_output_seal_or_default map_to known_or s w)
     = bs_outpoint_or known_or s w"
  by (auto simp: to_output_seal_or_default_def to_output_seal_def explicit_new_def
      explicit_to_outpoint_def outpoint_new_def outpoint_or_eq split: option.splits)

lemma output_seal_vout:
  "es_vout (to_output_seal_or_default map_to known_or s w) = bs_vout s"
  using output_seal_or_default_outpoint [of s w]
  by (simp add: explicit_to_outpoint_def bs_outpoint_or_def outpoint_new_def)

end

interpretation txid_seal: seal_txid txid_txid txid_txid_or txid_map_to_outpoint id
  by unfold_locales (simp_all add: txid_txid_def txid_txid_or_def txid_map_to_outpoint_def)

lemma ptr_txid_or_law: "ptr_txid_or p d = (case ptr_txid p of None \<Rightarrow> d | Some t \<Rightarrow> t)"
  by (cases p) auto

interpretation ptr_seal: seal_txid ptr_txid ptr_txid_or ptr_map_to_outpoint PtrTxid
  by unfold_locales (simp_all add: ptr_txid_or_law ptr_map_to_outpoint_def)

abbreviation graph_outpoint :: "GraphSeal \<Rightarrow> Outpoint option" where
  "graph_outpoint \<equiv> bs_outpoint ptr_map_to_outpoint"

abbreviation graph_to_output_seal_or_default :: "GraphSeal \<Rightarrow> Txid \<Rightarrow> OutputSeal" where
  "graph_to_output_seal_or_default \<equiv> to_output_seal_or_default ptr_map_to_outpoint ptr_txid_or"

lemma resolve_outpoint: "to_outpoint (resolve s t) = bs_outpoint_or ptr_txid_or s t"
  by (simp add: resolve_def to_outpoint_def bs_outpoint_or_def with_blinding_def ptr_txid_or_law)

lemma resolve_transmutate [simp]: "resolve (transmutate s) t = s"
  by (simp add: resolve_def transmutate_def with_blinding_def)

lemma graph_with_witness_id_resolve:
  "graph_with_witness_id s (Some t) = Some (resolve s t)"
  by (simp add: graph_with_witness_id_def resolve_def split: option.splits)

section \<open>Strings\<close>

text \<open>
  A seal is printed as \<open>txoseal:<txid>:<vout>#0x<blinding>\<close>, the blinding in hexadecimal
  padded to eight digits.  The functions \<open>id_parse\<close> and \<open>id_print\<close> are the \<open>FromStr\<close> and
  \<open>Display\<close> of the transaction id; those of \<open>TxPtr\<close> wrap them.
\<close>

datatype 'h BlindParseError =
    TxidRequired
  | BlindingRequired
  | WrongBlinding
  | WrongTxid 'h
  | WrongVout
  | WrongStructure
  | NonHexBlinding

datatype 'h ExplicitParseError =
    ETxidRequired
  | EWrongTxid 'h
  | EWrongVout
  | EWrongStructure

definition ptr_parse :: "(string \<Rightarrow> ('h, Txid) result) \<Rightarrow> string \<Rightarrow> ('h, TxPtr) result" where
  "ptr_parse txid_parse s =
     (if s = ''~'' then Ok WitnessTx else and_then (txid_parse s) (\<lambda>t. Ok (PtrTxid t)))"

fun ptr_print :: "(Txid \<Rightarrow> string) \<Rightarrow> TxPtr \<Rightarrow> string" where
  "ptr_print txid_print WitnessTx = ''~''"
| "ptr_print txid_print (PtrTxid t) = txid_print t"

definition seal_sep :: "char \<Rightarrow> bool" where
  "seal_sep c \<longleftrightarrow> c = CHR '':'' \<or> c = CHR ''#''"

definition vout_parse :: "string \<Rightarrow> Vout option" where
  "vout_parse s = map_option word_of_nat (from_str_radix (2 ^ 32) 10 s)"

definition vout_print :: "Vout \<Rightarrow> string" where
  "vout_print v = print_radix 10 (unat v)"

definition blinding_print :: "u64 \<Rightarrow> string" where
  "blinding_print b = ''0x'' @ pad_zeros 8 (print_radix 16 (unat b))"

definition blinding_parse :: "string \<Rightarrow> u64 option" where
  "blinding_parse s = map_option word_of_nat (from_str_radix (2 ^ 64) 16 (trim_0x s))"

definition blind_seal_from_str ::
  "(string \<Rightarrow> ('h, 'id) result) \<Rightarrow> string \<Rightarrow> ('h BlindParseError, 'id BlindSeal) result" where
  "blind_seal_from_str id_parse s =
     (case split_on seal_sep s of
        [] \<Rightarrow> Err WrongStructure
      | w0 # ws \<Rightarrow>
          if w0 \<noteq> ''txoseal'' then Err WrongStructure
          else (case ws of
              [] \<Rightarrow> Err WrongStructure
            | t # ws1 \<Rightarrow>
                if t = [] then Err TxidRequired
                else (case ws1 of
                    [] \<Rightarrow> if CHR ''#'' \<notin> set s then Err BlindingRequired else Err WrongStructure
                  | [v, b] \<Rightarrow>
                      if \<not> starts_with b ''0x'' then Err NonHexBlinding
                      else and_then (ok_or WrongBlinding (blinding_parse b)) (\<lambda>bl.
                           and_then (map_err WrongTxid (id_parse t)) (\<lambda>i.
                           and_then (ok_or WrongVout (vout_parse v)) (\<lambda>vo.
                             Ok (with_blinding i vo bl))))
                  | _ \<Rightarrow> Err WrongStructure)))"

definition blind_seal_to_str :: "('id \<Rightarrow> string) \<Rightarrow> 'id BlindSeal \<Rightarrow> string" where
  "blind_seal_to_str id_print s =
     ''txoseal'' @ CHR '':'' # id_print (bs_txid s) @ CHR '':'' # vout_print (bs_vout s)
       @ CHR ''#'' # blinding_print (blinding s)"

definition explicit_seal_from_str ::
  "(string \<Rightarrow> ('h, 'id) result) \<Rightarrow> string \<Rightarrow> ('h ExplicitParseError, 'id ExplicitSeal) result" where
  "explicit_seal_from_str id_parse s =
     (case split_on seal_sep s of
        [] \<Rightarrow> Err EWrongStructure
      | t # ws \<Rightarrow>
          if t = [] then Err ETxidRequired
          else (case ws of
              [v] \<Rightarrow>
                and_then (map_err EWrongTxid (id_parse t)) (\<lambda>i.
                and_then (ok_or EWrongVout (vout_parse v)) (\<lambda>vo.
                  Ok \<lparr> es_txid = i, es_vout = vo \<rparr>))
            | _ \<Rightarrow> Err EWrongStructure))"

definition explicit_seal_to_str :: "('id \<Rightarrow> string) \<Rightarrow> 'id ExplicitSeal \<Rightarrow> string" where
  "explicit_seal_to_str id_print s = id_print (es_txid s) @ CHR '':'' # vout_print (es_vout s)"

lemma digit_not_sep: "is_digit_char c \<Longrightarrow> \<not> seal_sep c"
  by (auto simp: is_digit_char_def seal_sep_def)

lemma seal_sep_chars [simp]: "seal_sep (CHR '':'')" "seal_sep (CHR ''#'')"
  by (simp_all add: seal_sep_def)

lemma txoseal_no_sep: "list_all (\<lambda>c. \<not> seal_sep c) ''txoseal''"
  by (simp add: seal_sep_def)

lemma vout_parse_print [simp]: "vout_parse (vout_print v) = Some v"
proof -
  have "unat v < 2 ^ 32" using unsigned_less [of v] by simp
  then show ?thesis
    using from_str_radix_print [of 10 "unat v" "2 ^ 32" 0]
    by (simp add: vout_parse_def vout_print_def pad_zeros_def)
qed

lemma vout_print_no_sep: "list_all (\<lambda>c. \<not> seal_sep c) (vout_print v)"
  using print_radix_chars [of 10 "unat v"]
  by (auto simp: vout_print_def list_all_iff digit_not_sep)

lemma blinding_digits: "list_all is_digit_char (pad_zeros 8 (print_radix 16 (unat (b :: u64))))"
  by (intro pad_zeros_chars print_radix_chars) auto

lemma trim_0x_digits: "list_all is_digit_char s \<Longrightarrow> trim_0x s = s"
  by (cases s rule: trim_0x.cases) (auto simp: is_digit_char_def)

lemma blinding_parse_print [simp]: "blinding_parse (blinding_print b) = Some b"
proof -
  have "unat b < 2 ^ 64" using unsigned_less [of b] by simp
  then show ?thesis
    using from_str_radix_print [of 16 "unat b" "2 ^ 64" 8]
    by (simp add: blinding_parse_def blinding_print_def trim_0x_digits [OF blinding_digits])
qed

lemma blinding_print_no_sep: "list_all (\<lambda>c. \<not> seal_sep c) (blinding_print b)"
  using blinding_digits [of b]
  by (auto simp: blinding_print_def list_all_iff digit_not_sep seal_sep_def [of "CHR ''0''"]
      seal_sep_def [of "CHR ''x''"])

text \<open>What the strings of a transaction id have to satisfy for a seal to be read back.\<close>

definition id_text_ok :: "('id \<Rightarrow> string) \<Rightarrow> (string \<Rightarrow> ('h, 'id) result) \<Rightarrow> 'id \<Rightarrow> bool" where
  "id_text_ok id_print id_parse i \<longleftrightarrow>
     id_parse (id_print i) = Ok i \<and> id_print i \<noteq> [] \<and> list_all (\<lambda>c. \<not> seal_sep c) (id_print i)"

lemma ptr_text_ok:
  assumes "\<And>t. p = PtrTxid t \<Longrightarrow> id_text_ok tprint tparse t \<and> tprint t \<noteq> ''~''"
  shows "id_text_ok (ptr_print tprint) (ptr_parse tparse) p"
  using assms by (cases p) (auto simp: id_text_ok_def ptr_parse_def seal_sep_def)

lemma blind_seal_str_roundtrip:
  assumes "id_text_ok id_print id_parse (bs_txid s)"
  shows "blind_seal_from_str id_parse (blind_seal_to_str id_print s) = Ok s"
proof -
  have sp: "split_on seal_sep (blind_seal_to_str id_print s) =
      [''txoseal'', id_print (bs_txid s), vout_print (bs_vout s), blinding_print (blinding s)]"
    using assms
    unfolding blind_seal_to_str_def split_on_append [OF txoseal_no_sep seal_sep_chars(1)]
    by (simp add: split_on_append split_on_none vout_print_no_sep blinding_print_no_sep id_text_ok_def)
  have "starts_with (blinding_print (blinding s)) ''0x''"
    by (simp add: starts_with_iff blinding_print_def)
  then show ?thesis
    using assms by (simp add: blind_seal_from_str_def sp id_text_ok_def with_blinding_def)
qed

lemma explicit_seal_str_roundtrip:
  assumes "id_text_ok id_print id_parse (es_txid s)"
  shows "explicit_seal_from_str id_parse (explicit_seal_to_str id_print s) = Ok s"
proof -
  have "split_on seal_sep (explicit_seal_to_str id_print s) =
      [id_print (es_txid s), vout_print (es_vout s)]"
    using assms
    by (simp add: explicit_seal_to_str_def split_on_append split_on_none vout_print_no_sep
        id_text_ok_def)
  then show ?thesis
    using assms by (simp add: explicit_seal_from_str_def id_text_ok_def)
qed

section \<open>Witness of a closed seal\<close>

datatype 'e VerifyError =
    WitnessNotClosingSeal Outpoint
  | NoWitnessTxid
  | Dbc 'e

record 'p SealWitness =
  sw_tx :: Tx
  sw_txid :: Txid
  sw_proof :: 'p

definition witness_with :: "(Tx \<Rightarrow> Txid) \<Rightarrow> Tx \<Rightarrow> 'p \<Rightarrow> 'p SealWitness" where
  "witness_with compute_txid tx dbc =
     \<lparr> sw_tx = tx, sw_txid = compute_txid tx, sw_proof = dbc \<rparr>"

definition seal_in_inputs :: "Tx \<Rightarrow> Outpoint option \<Rightarrow> ('e VerifyError, unit) result" where
  "seal_in_inputs tx seal_outpoint =
     and_then (ok_or NoWitnessTxid seal_outpoint) (\<lambda>o'.
       if \<not> list_ex (\<lambda>txin. previous_output txin = o') (tx_input tx)
       then Err (WitnessNotClosingSeal o') else Ok ())"

definition verify_seal ::
  "('p \<Rightarrow> 'm \<Rightarrow> Tx \<Rightarrow> ('e, unit) result) \<Rightarrow> 'p SealWitness \<Rightarrow> Outpoint option \<Rightarrow> 'm
     \<Rightarrow> ('e VerifyError, unit) result" where
  "verify_seal proof_verify w seal msg =
     and_then (seal_in_inputs (sw_tx w) seal) (\<lambda>_.
       map_err Dbc (proof_verify (sw_proof w) msg (sw_tx w)))"

definition verify_many_seals ::
  "('p \<Rightarrow> 'm \<Rightarrow> Tx \<Rightarrow> ('e, unit) result) \<Rightarrow> 'p SealWitness \<Rightarrow> Outpoint option list \<Rightarrow> 'm
     \<Rightarrow> ('e VerifyError, unit) result" where
  "verify_many_seals proof_verify w seals msg =
     and_then (try_all (seal_in_inputs (sw_tx w)) seals) (\<lambda>_.
       map_err Dbc (proof_verify (sw_proof w) msg (sw_tx w)))"

lemma seal_in_inputs_Ok:
  "seal_in_inputs tx seal = Ok () \<longleftrightarrow> (\<exists>o'. seal = Some o' \<and> o' \<in> previous_output ` set (tx_input tx))"
  by (auto simp: seal_in_inputs_def list_ex_iff res_simps split: if_splits)

lemma verify_many_seals_Ok:
  "verify_many_seals pv w seals msg = Ok () \<longleftrightarrow>
     (\<forall>seal \<in> set seals. \<exists>o'. seal = Some o' \<and> o' \<in> previous_output ` set (tx_input (sw_tx w)))
     \<and> pv (sw_proof w) msg (sw_tx w) = Ok ()"
  by (auto simp: verify_many_seals_def seal_in_inputs_Ok res_simps)

lemma verify_many_seals_all:
  "seals \<noteq> [] \<Longrightarrow> verify_many_seals pv w seals msg = Ok () \<longleftrightarrow>
     (\<forall>seal \<in> set seals. verify_seal pv w seal msg = Ok ())"
  by (cases seals) (auto simp: verify_many_seals_Ok verify_seal_def seal_in_inputs_Ok res_simps)

end
