(* ===== verification/Assignments.thy ===== *)
theory Assignments
  imports Seals
begin

text \<open>
  Owned state (\<open>rgb-consensus/src/operation/\<close>: \<open>state.rs\<close>, \<open>fungible.rs\<close>, \<open>data.rs\<close>,
  \<open>assignments.rs\<close>).  An assignment binds a state to a seal that is either revealed or known
  only by its hash.  The hash of a seal (\<open>BlindSeal::conceal\<close>, a tagged SHA-256 of the strict
  encoding) is the parameter \<open>cs\<close> of every operation that conceals or compares seals; the
  operations are generic in the seal type as in the source.
\<close>

section \<open>State\<close>

datatype FungibleState = Bits64 u64

type_synonym RevealedValue = FungibleState
type_synonym RevealedData = bytes

datatype RevealedState =
    RVoid
  | RFungible RevealedValue
  | RStructured RevealedData

fun as_u64 :: "FungibleState \<Rightarrow> u64" where
  "as_u64 (Bits64 val) = val"

fun fungible_type :: "FungibleState \<Rightarrow> FungibleType" where
  "fungible_type (Bits64 _) = Unsigned64Bit"

fun revealed_state_type :: "RevealedState \<Rightarrow> StateType" where
  "revealed_state_type RVoid = Void"
| "revealed_state_type (RFungible _) = Fungible"
| "revealed_state_type (RStructured _) = Structured"

section \<open>Assignments\<close>

datatype ('state, 'seal) Assign =
    Revealed 'seal 'state
  | ConfidentialSeal SecretSeal 'state

fun with_seal_replaced :: "('st, 's) Assign \<Rightarrow> 's \<Rightarrow> ('st, 's) Assign" where
  "with_seal_replaced (ConfidentialSeal _ st) seal = Revealed seal st"
| "with_seal_replaced (Revealed _ st) seal = Revealed seal st"

fun to_confidential_seal :: "('s \<Rightarrow> SecretSeal) \<Rightarrow> ('st, 's) Assign \<Rightarrow> SecretSeal" where
  "to_confidential_seal cs (Revealed seal _) = cs seal"
| "to_confidential_seal cs (ConfidentialSeal seal _) = seal"

fun revealed_seal :: "('st, 's) Assign \<Rightarrow> 's option" where
  "revealed_seal (Revealed seal _) = Some seal"
| "revealed_seal (ConfidentialSeal _ _) = None"

fun as_revealed_state :: "('st, 's) Assign \<Rightarrow> 'st" where
  "as_revealed_state (Revealed _ st) = st"
| "as_revealed_state (ConfidentialSeal _ st) = st"

fun as_revealed :: "('st, 's) Assign \<Rightarrow> ('s \<times> 'st) option" where
  "as_revealed (Revealed seal st) = Some (seal, st)"
| "as_revealed (ConfidentialSeal _ _) = None"

fun assign_conceal :: "('s \<Rightarrow> SecretSeal) \<Rightarrow> ('st, 's) Assign \<Rightarrow> ('st, 's) Assign" where
  "assign_conceal cs (Revealed seal st) = ConfidentialSeal (cs seal) st"
| "assign_conceal cs (ConfidentialSeal seal st) = ConfidentialSeal seal st"

text \<open>Assignments are ordered by the hash of the concealed seal alone.\<close>

definition assign_le :: "('s \<Rightarrow> SecretSeal) \<Rightarrow> ('st, 's) Assign \<Rightarrow> ('st, 's) Assign \<Rightarrow> bool" where
  "assign_le cs a b \<longleftrightarrow> to_confidential_seal cs a \<le> to_confidential_seal cs b"

fun assign_transmutate_seals :: "('st, GenesisSeal) Assign \<Rightarrow> ('st, GraphSeal) Assign" where
  "assign_transmutate_seals (ConfidentialSeal seal st) = ConfidentialSeal seal st"
| "assign_transmutate_seals (Revealed seal st) = Revealed (transmutate seal) st"

fun reveal_assign :: "('s \<Rightarrow> SecretSeal) \<Rightarrow> 's \<Rightarrow> ('st, 's) Assign \<Rightarrow> ('st, 's) Assign" where
  "reveal_assign cs revealed (ConfidentialSeal seal st) =
     (if seal = cs revealed then Revealed revealed st else ConfidentialSeal seal st)"
| "reveal_assign cs revealed (Revealed seal st) = Revealed seal st"

section \<open>Typed assignments\<close>

datatype UnknownDataError = UnknownDataError

datatype 'seal TypedAssigns =
    Declarative "(unit, 'seal) Assign list"
  | FungibleAssigns "(RevealedValue, 'seal) Assign list"
  | StructuredAssigns "(RevealedData, 'seal) Assign list"

fun ta_conceal :: "('s \<Rightarrow> SecretSeal) \<Rightarrow> 's TypedAssigns \<Rightarrow> 's TypedAssigns" where
  "ta_conceal cs (Declarative s) = Declarative (map (assign_conceal cs) s)"
| "ta_conceal cs (FungibleAssigns s) = FungibleAssigns (map (assign_conceal cs) s)"
| "ta_conceal cs (StructuredAssigns s) = StructuredAssigns (map (assign_conceal cs) s)"

fun ta_len :: "'s TypedAssigns \<Rightarrow> nat" where
  "ta_len (Declarative s) = length s"
| "ta_len (FungibleAssigns s) = length s"
| "ta_len (StructuredAssigns s) = length s"

definition ta_len_u16 :: "'s TypedAssigns \<Rightarrow> u16" where
  "ta_len_u16 ta = word_of_nat (ta_len ta)"

definition ta_is_empty :: "'s TypedAssigns \<Rightarrow> bool" where
  "ta_is_empty ta \<longleftrightarrow> ta_len ta = 0"

fun ta_state_type :: "'s TypedAssigns \<Rightarrow> StateType" where
  "ta_state_type (Declarative _) = Void"
| "ta_state_type (FungibleAssigns _) = Fungible"
| "ta_state_type (StructuredAssigns _) = Structured"

fun as_declarative :: "'s TypedAssigns \<Rightarrow> (unit, 's) Assign list" where
  "as_declarative (Declarative s) = s"
| "as_declarative _ = []"

fun as_fungible :: "'s TypedAssigns \<Rightarrow> (RevealedValue, 's) Assign list" where
  "as_fungible (FungibleAssigns s) = s"
| "as_fungible _ = []"

fun as_structured :: "'s TypedAssigns \<Rightarrow> (RevealedData, 's) Assign list" where
  "as_structured (StructuredAssigns s) = s"
| "as_structured _ = []"

fun revealed_seal_at :: "'s TypedAssigns \<Rightarrow> u16 \<Rightarrow> (UnknownDataError, 's option) result" where
  "revealed_seal_at (Declarative vec) i =
     and_then (ok_or UnknownDataError (vec_get vec (unat i))) (\<lambda>a. Ok (revealed_seal a))"
| "revealed_seal_at (FungibleAssigns vec) i =
     and_then (ok_or UnknownDataError (vec_get vec (unat i))) (\<lambda>a. Ok (revealed_seal a))"
| "revealed_seal_at (StructuredAssigns vec) i =
     and_then (ok_or UnknownDataError (vec_get vec (unat i))) (\<lambda>a. Ok (revealed_seal a))"

fun confidential_seal_at ::
  "('s \<Rightarrow> SecretSeal) \<Rightarrow> 's TypedAssigns \<Rightarrow> u16 \<Rightarrow> (UnknownDataError, SecretSeal) result" where
  "confidential_seal_at cs (Declarative vec) i =
     and_then (ok_or UnknownDataError (vec_get vec (unat i))) (\<lambda>a. Ok (to_confidential_seal cs a))"
| "confidential_seal_at cs (FungibleAssigns vec) i =
     and_then (ok_or UnknownDataError (vec_get vec (unat i))) (\<lambda>a. Ok (to_confidential_seal cs a))"
| "confidential_seal_at cs (StructuredAssigns vec) i =
     and_then (ok_or UnknownDataError (vec_get vec (unat i))) (\<lambda>a. Ok (to_confidential_seal cs a))"

fun reveal_seal :: "('s \<Rightarrow> SecretSeal) \<Rightarrow> 's \<Rightarrow> 's TypedAssigns \<Rightarrow> 's TypedAssigns" where
  "reveal_seal cs seal (Declarative v) = Declarative (map (reveal_assign cs seal) v)"
| "reveal_seal cs seal (FungibleAssigns v) = FungibleAssigns (map (reveal_assign cs seal) v)"
| "reveal_seal cs seal (StructuredAssigns v) = StructuredAssigns (map (reveal_assign cs seal) v)"

fun to_confidential_seals :: "('s \<Rightarrow> SecretSeal) \<Rightarrow> 's TypedAssigns \<Rightarrow> SecretSeal list" where
  "to_confidential_seals cs (Declarative s) = map (to_confidential_seal cs) s"
| "to_confidential_seals cs (FungibleAssigns s) = map (to_confidential_seal cs) s"
| "to_confidential_seals cs (StructuredAssigns s) = map (to_confidential_seal cs) s"

fun as_structured_state_at :: "'s TypedAssigns \<Rightarrow> u16 \<Rightarrow> (UnknownDataError, RevealedData) result" where
  "as_structured_state_at (StructuredAssigns vec) i =
     and_then (ok_or UnknownDataError (vec_get vec (unat i))) (\<lambda>a. Ok (as_revealed_state a))"
| "as_structured_state_at _ i = Err UnknownDataError"

fun as_fungible_state_at :: "'s TypedAssigns \<Rightarrow> u16 \<Rightarrow> (UnknownDataError, RevealedValue) result" where
  "as_fungible_state_at (FungibleAssigns vec) i =
     and_then (ok_or UnknownDataError (vec_get vec (unat i))) (\<lambda>a. Ok (as_revealed_state a))"
| "as_fungible_state_at _ i = Err UnknownDataError"

text \<open>The consuming variants test the index themselves and remove the element.\<close>

fun into_structured_state_at :: "'s TypedAssigns \<Rightarrow> u16 \<Rightarrow> (UnknownDataError, RevealedData) result" where
  "into_structured_state_at (StructuredAssigns vec) i =
     (if unat i \<ge> length vec then Err UnknownDataError else Ok (as_revealed_state (vec ! unat i)))"
| "into_structured_state_at _ i = Err UnknownDataError"

fun into_fungible_state_at :: "'s TypedAssigns \<Rightarrow> u16 \<Rightarrow> (UnknownDataError, RevealedValue) result" where
  "into_fungible_state_at (FungibleAssigns vec) i =
     (if unat i \<ge> length vec then Err UnknownDataError else Ok (as_revealed_state (vec ! unat i)))"
| "into_fungible_state_at _ i = Err UnknownDataError"

definition revealed_at ::
  "('st \<Rightarrow> RevealedState) \<Rightarrow> ('st, 's) Assign list \<Rightarrow> u16 \<Rightarrow> (UnknownDataError, 's \<times> RevealedState) result"
where
  "revealed_at f vec i =
     and_then (ok_or UnknownDataError (Option.bind (vec_get vec (unat i)) as_revealed))
       (\<lambda>(seal, st). Ok (seal, f st))"

definition to_revealed_assign_at ::
  "('s \<Rightarrow> Txid option \<Rightarrow> GenesisSeal option) \<Rightarrow> 's TypedAssigns \<Rightarrow> u16 \<Rightarrow> Txid option
     \<Rightarrow> (UnknownDataError, (RevealedState, GenesisSeal) Assign) result" where
  "to_revealed_assign_at with_witness ta i w =
     and_then
       (case ta of
          Declarative vec \<Rightarrow> revealed_at (\<lambda>_. RVoid) vec i
        | FungibleAssigns vec \<Rightarrow> revealed_at RFungible vec i
        | StructuredAssigns vec \<Rightarrow> revealed_at RStructured vec i)
       (\<lambda>(seal, st). and_then (ok_or UnknownDataError (with_witness seal w))
          (\<lambda>seal'. Ok (Revealed seal' st)))"

fun ta_transmutate_seals :: "GenesisSeal TypedAssigns \<Rightarrow> GraphSeal TypedAssigns" where
  "ta_transmutate_seals (Declarative a) = Declarative (map assign_transmutate_seals a)"
| "ta_transmutate_seals (FungibleAssigns a) = FungibleAssigns (map assign_transmutate_seals a)"
| "ta_transmutate_seals (StructuredAssigns a) = StructuredAssigns (map assign_transmutate_seals a)"

section \<open>Assignment maps\<close>

type_synonym 's Assignments = "(AssignmentType, 's TypedAssigns) omap"

definition transmutate_seals :: "GenesisSeal Assignments \<Rightarrow> GraphSeal Assignments" where
  "transmutate_seals m = map (\<lambda>(t, a). (t, ta_transmutate_seals a)) m"

datatype AssignmentsRef =
    GenesisRef "GenesisSeal Assignments"
  | GraphRef "GraphSeal Assignments"

fun aref_len :: "AssignmentsRef \<Rightarrow> nat" where
  "aref_len (GenesisRef a) = length a"
| "aref_len (GraphRef a) = length a"

fun aref_flat :: "AssignmentsRef \<Rightarrow> GraphSeal Assignments" where
  "aref_flat (GenesisRef a) = transmutate_seals a"
| "aref_flat (GraphRef a) = a"

fun aref_types :: "AssignmentsRef \<Rightarrow> AssignmentType list" where
  "aref_types (GenesisRef a) = omap_keys a"
| "aref_types (GraphRef a) = omap_keys a"

fun aref_has_type :: "AssignmentsRef \<Rightarrow> AssignmentType \<Rightarrow> bool" where
  "aref_has_type (GenesisRef a) t = omap_contains a t"
| "aref_has_type (GraphRef a) t = omap_contains a t"

fun aref_get :: "AssignmentsRef \<Rightarrow> AssignmentType \<Rightarrow> GraphSeal TypedAssigns option" where
  "aref_get (GenesisRef a) t = map_option ta_transmutate_seals (omap_get a t)"
| "aref_get (GraphRef a) t = omap_get a t"

section \<open>Concealing and revealing keep what is committed\<close>

lemma conceal_keeps [simp]:
  "to_confidential_seal cs (assign_conceal cs a) = to_confidential_seal cs a"
  "as_revealed_state (assign_conceal cs a) = as_revealed_state a"
  "assign_conceal cs (assign_conceal cs a) = assign_conceal cs a"
  by (cases a; simp)+

lemma reveal_keeps [simp]:
  "to_confidential_seal cs (reveal_assign cs s a) = to_confidential_seal cs a"
  "as_revealed_state (reveal_assign cs s a) = as_revealed_state a"
  "assign_conceal cs (reveal_assign cs s a) = assign_conceal cs a"
  by (cases a; simp)+

lemma transmutate_keeps [simp]:
  "as_revealed_state (assign_transmutate_seals a) = as_revealed_state a"
  by (cases a) simp_all

lemma ta_conceal_keeps [simp]:
  "to_confidential_seals cs (ta_conceal cs ta) = to_confidential_seals cs ta"
  "ta_len (ta_conceal cs ta) = ta_len ta"
  "ta_state_type (ta_conceal cs ta) = ta_state_type ta"
  by (cases ta; simp)+

lemma reveal_seal_keeps [simp]:
  "to_confidential_seals cs (reveal_seal cs s ta) = to_confidential_seals cs ta"
  "ta_len (reveal_seal cs s ta) = ta_len ta"
  "ta_state_type (reveal_seal cs s ta) = ta_state_type ta"
  "ta_conceal cs (reveal_seal cs s ta) = ta_conceal cs ta"
  by (cases ta; simp)+

lemma length_to_confidential_seals [simp]: "length (to_confidential_seals cs ta) = ta_len ta"
  by (cases ta) simp_all

text \<open>Revealing never hides a seal and reveals exactly the matching confidential ones.\<close>

lemma revealed_seal_reveal:
  "revealed_seal (reveal_assign cs s a) =
     (if revealed_seal a = None \<and> to_confidential_seal cs a = cs s then Some s else revealed_seal a)"
  by (cases a) auto

lemma revealed_seal_at_reveal:
  assumes "revealed_seal_at ta i = Ok None"
  shows "revealed_seal_at (reveal_seal cs s ta) i =
     Ok (if confidential_seal_at cs ta i = Ok (cs s) then Some s else None)"
  using assms by (cases ta) (auto simp: revealed_seal_reveal res_simps)

lemma reveal_conceal_inverse:
  assumes "inj cs"
  shows "reveal_assign cs s (assign_conceal cs (Revealed s st)) = Revealed s st"
    and "s \<noteq> s' \<Longrightarrow> revealed_seal (reveal_assign cs s' (assign_conceal cs (Revealed s st))) = None"
  using assms by (auto dest: injD)

lemma into_eq_as_state_at:
  "into_structured_state_at ta i = as_structured_state_at ta i"
  "into_fungible_state_at ta i = as_fungible_state_at ta i"
  by (cases ta; simp add: vec_get_def not_less)+

lemma to_revealed_assign_at_Ok:
  assumes "to_revealed_assign_at ww ta i w = Ok a"
  obtains seal st seal' where "revealed_seal_at ta i = Ok (Some seal)" "ww seal w = Some seal'"
    "a = Revealed seal' st" "revealed_state_type st = ta_state_type ta"
  using assms
  by (cases ta)
     (fastforce simp: to_revealed_assign_at_def revealed_at_def res_simps bind_eq_Some_conv
      elim!: as_revealed.elims)+

lemma map_of_map_values: "map_of (map (\<lambda>(t, a). (t, f a)) m) k = map_option f (map_of m k)"
  by (induction m) auto

text \<open>The borrowed views agree with the flattened map.\<close>

lemma aref_get_flat: "aref_get r t = omap_get (aref_flat r) t"
  by (cases r) (simp_all add: transmutate_seals_def map_of_map_values)

lemma aref_has_type_flat: "aref_has_type r t \<longleftrightarrow> omap_contains (aref_flat r) t"
  by (cases r) (simp_all add: omap_contains_def transmutate_seals_def map_of_map_values)

lemma aref_types_flat: "aref_types r = omap_keys (aref_flat r)"
  by (cases r) (simp_all add: omap_keys_def transmutate_seals_def comp_def case_prod_unfold)

end
