(* ===== verification/Operations.thy ===== *)
theory Operations
  imports Assignments
begin

text \<open>
  Contract operations (\<open>rgb-consensus/src/operation/\<close>: \<open>global.rs\<close>, \<open>meta.rs\<close>,
  \<open>layer1.rs\<close>, \<open>operations.rs\<close>).  Global state and metadata are ordered maps with the
  sizes the confined collections allow (255 keys, 65535 values per key); an operation that
  would exceed them is an error.  Operation outputs are ordered as the derived \<open>Ord\<close> of the
  struct, lexicographically by operation, type and number.
\<close>

section \<open>Confined collections\<close>

datatype ConfinementError = Undersize | Oversize

abbreviation (input) max_u8 :: nat where "max_u8 \<equiv> 255"
abbreviation (input) max_u16 :: nat where "max_u16 \<equiv> 65535"

section \<open>Global state\<close>

type_synonym GlobalValues = "RevealedData list"
type_synonym GlobalState = "(GlobalStateType, GlobalValues) omap"

definition global_values_ok :: "GlobalValues \<Rightarrow> bool" where
  "global_values_ok vs \<longleftrightarrow> vs \<noteq> [] \<and> length vs \<le> max_u16"

definition global_state_ok :: "GlobalState \<Rightarrow> bool" where
  "global_state_ok gs \<longleftrightarrow>
     omap_ok gs \<and> length gs \<le> max_u8 \<and> (\<forall>vs \<in> snd ` set gs. global_values_ok vs)"

definition add_state ::
  "GlobalState \<Rightarrow> GlobalStateType \<Rightarrow> RevealedData \<Rightarrow> (ConfinementError, GlobalState) result" where
  "add_state gs ty st =
     (case omap_get gs ty of
        Some vec \<Rightarrow>
          if length vec \<ge> max_u16 then Err Oversize else Ok (omap_insert ty (vec @ [st]) gs)
      | None \<Rightarrow>
          if length gs \<ge> max_u8 then Err Oversize else Ok (omap_insert ty [st] gs))"

definition extend_state ::
  "GlobalState \<Rightarrow> GlobalStateType \<Rightarrow> RevealedData list \<Rightarrow> (ConfinementError, GlobalState) result" where
  "extend_state gs ty sts =
     (case omap_get gs ty of
        Some vec \<Rightarrow>
          if length vec + length sts > max_u16 then Err Oversize
          else Ok (omap_insert ty (vec @ sts) gs)
      | None \<Rightarrow>
          if sts = [] then Err Undersize
          else if length sts > max_u16 then Err Oversize
          else if length gs \<ge> max_u8 then Err Oversize
          else Ok (omap_insert ty sts gs))"

lemma set_omap_insert: "set (omap_insert k v m) \<subseteq> insert (k, v) (set m)"
  by (induction k v m rule: omap_insert.induct) auto

lemma omap_insert_values:
  "(\<forall>x \<in> snd ` set m. P x) \<Longrightarrow> P v \<Longrightarrow> (\<forall>x \<in> snd ` set (omap_insert k v m). P x)"
  using set_omap_insert [of k v m] by fastforce

lemma omap_get_value: "omap_get m k = Some v \<Longrightarrow> v \<in> snd ` set m"
  using map_of_SomeD by force

lemma add_state_ok:
  assumes "global_state_ok gs" "add_state gs ty st = Ok gs'"
  shows "global_state_ok gs'"
proof (cases "omap_get gs ty")
  case None
  then have gs': "gs' = omap_insert ty [st] gs" "length gs < max_u8"
    using assms(2) by (auto simp: add_state_def split: if_splits)
  moreover have "ty \<notin> fst ` set gs" using None by (simp add: map_of_eq_None_iff)
  ultimately show ?thesis
    using assms(1) omap_insert_values [of gs global_values_ok "[st]" ty]
    by (simp add: global_state_ok_def length_omap_insert global_values_ok_def)
next
  case (Some vec)
  then have gs': "gs' = omap_insert ty (vec @ [st]) gs" "length vec < max_u16"
    using assms(2) by (auto simp: add_state_def split: if_splits)
  moreover have "ty \<in> fst ` set gs" using Some map_of_SomeD by force
  ultimately show ?thesis
    using assms(1) omap_insert_values [of gs global_values_ok "vec @ [st]" ty]
    by (simp add: global_state_ok_def length_omap_insert global_values_ok_def)
qed

lemma add_state_get:
  assumes "omap_ok gs" "add_state gs ty st = Ok gs'"
  shows "omap_get gs' = (omap_get gs)(ty \<mapsto> (case omap_get gs ty of None \<Rightarrow> [] | Some v \<Rightarrow> v) @ [st])"
  using assms by (auto simp: add_state_def split: option.splits if_splits)

text \<open>Extending by a non-empty list is adding its elements one after another.\<close>

lemma add_state_fold:
  assumes "omap_ok gs" "extend_state gs ty sts = Ok gs'" "sts \<noteq> []"
  shows "try_fold (\<lambda>g. add_state g ty) gs sts = Ok gs'"
proof -
  have present: "try_fold (\<lambda>g. add_state g ty) g xs = Ok (omap_insert ty (vec @ xs) g)"
    if "omap_ok g" "omap_get g ty = Some vec" "length vec + length xs \<le> max_u16" for g vec xs
    using that
  proof (induction xs arbitrary: g vec)
    case Nil
    then have "omap_get (omap_insert ty vec g) = omap_get g" by auto
    then show ?case using Nil omap_ext [of "omap_insert ty vec g" g] by simp
  next
    case (Cons x xs)
    let ?g = "omap_insert ty (vec @ [x]) g"
    have "try_fold (\<lambda>g. add_state g ty) ?g xs = Ok (omap_insert ty ((vec @ [x]) @ xs) ?g)"
      using Cons.prems by (intro Cons.IH) auto
    moreover have "omap_insert ty ((vec @ [x]) @ xs) ?g = omap_insert ty (vec @ x # xs) g"
      using Cons.prems(1) by (intro omap_ext) auto
    moreover have "add_state g ty x = Ok ?g"
      using Cons.prems by (simp add: add_state_def)
    ultimately show ?case by simp
  qed
  show ?thesis
  proof (cases "omap_get gs ty")
    case None
    obtain x xs where sts: "sts = x # xs" using assms(3) by (cases sts) auto
    have "try_fold (\<lambda>g. add_state g ty) (omap_insert ty [x] gs) xs
        = Ok (omap_insert ty ([x] @ xs) (omap_insert ty [x] gs))"
      using assms None sts by (intro present) (auto simp: extend_state_def split: if_splits)
    moreover have "omap_insert ty ([x] @ xs) (omap_insert ty [x] gs) = omap_insert ty sts gs"
      using assms(1) sts by (intro omap_ext) auto
    moreover have "add_state gs ty x = Ok (omap_insert ty [x] gs)" "gs' = omap_insert ty sts gs"
      using assms None sts by (auto simp: extend_state_def add_state_def split: if_splits)
    ultimately show ?thesis using sts by simp
  next
    case (Some vec)
    then show ?thesis
      using present [OF assms(1) Some, of sts] assms(2) by (auto simp: extend_state_def split: if_splits)
  qed
qed

section \<open>Metadata\<close>

type_synonym MetaValue = bytes
type_synonym Metadata = "(MetaType, MetaValue) omap"

datatype MetadataError = AlreadyExists MetaType | TooManyValues

definition add_value :: "Metadata \<Rightarrow> MetaType \<Rightarrow> MetaValue \<Rightarrow> (MetadataError, Metadata) result" where
  "add_value m ty v =
     (if omap_contains m ty then Err (AlreadyExists ty)
      else if length m \<ge> max_u8 then Err TooManyValues
      else Ok (omap_insert ty v m))"

lemma add_value_get:
  assumes "omap_ok m" "add_value m ty v = Ok m'"
  shows "omap_get m ty = None \<and> omap_get m' = (omap_get m)(ty \<mapsto> v) \<and> omap_ok m'"
  using assms by (auto simp: add_value_def omap_contains_def split: if_splits)

section \<open>Networks\<close>

datatype Layer1 = Bitcoin | Liquid

datatype ChainNet =
    BitcoinMainnet
  | BitcoinTestnet3
  | BitcoinTestnet4
  | BitcoinSignet
  | BitcoinRegtest
  | LiquidMainnet
  | LiquidTestnet
  | BitcoinSignetCustom bytes32

datatype ChainNetParseError = InvalidChainNet string

fun chain_prefix :: "(bytes32 \<Rightarrow> string) \<Rightarrow> ChainNet \<Rightarrow> string" where
  "chain_prefix hash_print BitcoinMainnet = ''bc''"
| "chain_prefix hash_print BitcoinTestnet3 = ''tb3''"
| "chain_prefix hash_print BitcoinTestnet4 = ''tb4''"
| "chain_prefix hash_print BitcoinRegtest = ''bcrt''"
| "chain_prefix hash_print BitcoinSignet = ''sb''"
| "chain_prefix hash_print (BitcoinSignetCustom gh) = ''sbc'' @ hash_print gh"
| "chain_prefix hash_print LiquidMainnet = ''lq''"
| "chain_prefix hash_print LiquidTestnet = ''tl''"

fun layer1 :: "ChainNet \<Rightarrow> Layer1" where
  "layer1 LiquidMainnet = Liquid"
| "layer1 LiquidTestnet = Liquid"
| "layer1 _ = Bitcoin"

definition to_lower_char :: "char \<Rightarrow> char" where
  "to_lower_char c =
     (let n = of_char c :: nat in if 65 \<le> n \<and> n \<le> 90 then char_of (n + 32) else c)"

definition chain_net_from_str ::
  "(bytes32 \<Rightarrow> string) \<Rightarrow> (string \<Rightarrow> bytes32 option) \<Rightarrow> string \<Rightarrow> (ChainNetParseError, ChainNet) result"
where
  "chain_net_from_str hash_print hash_parse s0 =
     (let s = map to_lower_char s0 in
      if starts_with s ''sbc'' then
        (case hash_parse (drop 3 s) of
           Some gh \<Rightarrow> Ok (BitcoinSignetCustom gh)
         | None \<Rightarrow> Err (InvalidChainNet s))
      else if s = chain_prefix hash_print BitcoinMainnet then Ok BitcoinMainnet
      else if s = chain_prefix hash_print BitcoinRegtest then Ok BitcoinRegtest
      else if s = chain_prefix hash_print BitcoinSignet then Ok BitcoinSignet
      else if s = chain_prefix hash_print BitcoinTestnet3 then Ok BitcoinTestnet3
      else if s = chain_prefix hash_print BitcoinTestnet4 then Ok BitcoinTestnet4
      else if s = chain_prefix hash_print LiquidMainnet then Ok LiquidMainnet
      else if s = chain_prefix hash_print LiquidTestnet then Ok LiquidTestnet
      else Err (InvalidChainNet s))"

text \<open>A printed network reads back, provided the hash text does (in lower case).\<close>

lemma chain_net_roundtrip:
  assumes "\<And>gh. cn = BitcoinSignetCustom gh \<Longrightarrow>
      hash_parse (hash_print gh) = Some gh \<and> map to_lower_char (hash_print gh) = hash_print gh"
  shows "chain_net_from_str hash_print hash_parse (chain_prefix hash_print cn) = Ok cn"
  using assms
  by (cases cn) (simp_all add: chain_net_from_str_def to_lower_char_def Let_def)

section \<open>Operation outputs\<close>

type_synonym OpId = bytes32
type_synonym ContractId = bytes32
type_synonym BundleId = bytes32

datatype Opout = Opout (opout_op: OpId) (opout_ty: AssignmentType) (opout_no: u16)

instantiation Opout :: linorder
begin

definition less_eq_Opout :: "Opout \<Rightarrow> Opout \<Rightarrow> bool" where
  "less_eq_Opout a b \<longleftrightarrow>
     opout_op a < opout_op b \<or> opout_op a = opout_op b \<and> (opout_ty a < opout_ty b \<or> opout_ty a = opout_ty b \<and> opout_no a \<le> opout_no b)"

definition less_Opout :: "Opout \<Rightarrow> Opout \<Rightarrow> bool" where
  "less_Opout a b \<longleftrightarrow>
     opout_op a < opout_op b \<or> opout_op a = opout_op b \<and> (opout_ty a < opout_ty b \<or> opout_ty a = opout_ty b \<and> opout_no a < opout_no b)"

instance
proof
  fix a b c :: Opout
  show "(a < b) = (a \<le> b \<and> \<not> b \<le> a)" "a \<le> a" "a \<le> b \<or> b \<le> a"
    by (auto simp: less_eq_Opout_def less_Opout_def)
  show "a \<le> b \<Longrightarrow> b \<le> c \<Longrightarrow> a \<le> c"
    by (auto simp: less_eq_Opout_def)
  show "a \<le> b \<Longrightarrow> b \<le> a \<Longrightarrow> a = b"
    by (cases a; cases b) (auto simp: less_eq_Opout_def)
qed

end

datatype 'h OpoutParseError =
    InvalidOpid 'h
  | InvalidType string
  | InvalidOutputNo string
  | WrongFormat string

definition u16_parse :: "string \<Rightarrow> u16 option" where
  "u16_parse s = map_option word_of_nat (from_str_radix (2 ^ 16) 10 s)"

definition u16_print :: "u16 \<Rightarrow> string" where
  "u16_print v = print_radix 10 (unat v)"

definition opout_to_str :: "(OpId \<Rightarrow> string) \<Rightarrow> Opout \<Rightarrow> string" where
  "opout_to_str opid_print o' =
     opid_print (opout_op o') @ CHR ''/'' # u16_print (opout_ty o') @ CHR ''/'' # u16_print (opout_no o')"

definition opout_from_str ::
  "(string \<Rightarrow> ('h, OpId) result) \<Rightarrow> string \<Rightarrow> ('h OpoutParseError, Opout) result" where
  "opout_from_str opid_parse s =
     (case split_on (\<lambda>c. c = CHR ''/'') s of
        [p0, p1, p2] \<Rightarrow>
          and_then (map_err InvalidOpid (opid_parse p0)) (\<lambda>op'.
          and_then (ok_or (InvalidType p1) (u16_parse p1)) (\<lambda>ty'.
          and_then (ok_or (InvalidOutputNo p2) (u16_parse p2)) (\<lambda>no'.
            Ok (Opout op' ty' no'))))
      | _ \<Rightarrow> Err (WrongFormat s))"

lemma u16_parse_print [simp]: "u16_parse (u16_print v) = Some v"
proof -
  have "unat v < 2 ^ 16" using unsigned_less [of v] by simp
  then show ?thesis
    using from_str_radix_print [of 10 "unat v" "2 ^ 16" 0]
    by (simp add: u16_parse_def u16_print_def pad_zeros_def)
qed

lemma u16_print_no_slash: "list_all (\<lambda>c. c \<noteq> CHR ''/'') (u16_print v)"
  using print_radix_chars [of 10 "unat v"]
  by (auto simp: u16_print_def list_all_iff is_digit_char_def)

lemma opout_str_roundtrip:
  assumes "opid_parse (opid_print (opout_op o')) = Ok (opout_op o')"
    and "CHR ''/'' \<notin> set (opid_print (opout_op o'))"
  shows "opout_from_str opid_parse (opout_to_str opid_print o') = Ok o'"
proof -
  have "list_all (\<lambda>c. c \<noteq> CHR ''/'') (opid_print (opout_op o'))"
    using assms(2) by (auto simp: list_all_iff)
  then have "split_on (\<lambda>c. c = CHR ''/'') (opout_to_str opid_print o') =
      [opid_print (opout_op o'), u16_print (opout_ty o'), u16_print (opout_no o')]"
    by (simp add: opout_to_str_def split_on_append split_on_none u16_print_no_slash)
  then show ?thesis
    using assms(1) by (simp add: opout_from_str_def)
qed

section \<open>Genesis and transitions\<close>

type_synonym Inputs = "Opout list"
type_synonym Signature = bytes

datatype SealClosingStrategy = FirstOpretOrTapret

record Genesis =
  g_ffv :: u16
  g_schema_id :: SchemaId
  g_timestamp :: int
  g_issuer :: string
  g_chain_net :: ChainNet
  g_seal_closing_strategy :: SealClosingStrategy
  g_metadata :: Metadata
  g_globals :: GlobalState
  g_assignments :: "GenesisSeal Assignments"

record Transition =
  t_ffv :: u16
  t_contract_id :: ContractId
  t_nonce :: u64
  t_transition_type :: TransitionType
  t_metadata :: Metadata
  t_globals :: GlobalState
  t_inputs :: Inputs
  t_assignments :: "GraphSeal Assignments"
  t_signature :: "Signature option"

definition u64_MAX :: u64 where
  "u64_MAX = - 1"

text \<open>The trait \<open>Operation\<close> over its two implementors.\<close>

datatype Operation = OpGenesis Genesis | OpTransition Transition

fun full_type :: "Operation \<Rightarrow> OpFullType" where
  "full_type (OpGenesis g) = GenesisOp"
| "full_type (OpTransition t) = StateTransitionOp (t_transition_type t)"

fun op_nonce :: "Operation \<Rightarrow> u64" where
  "op_nonce (OpGenesis g) = u64_MAX"
| "op_nonce (OpTransition t) = t_nonce t"

fun op_metadata :: "Operation \<Rightarrow> Metadata" where
  "op_metadata (OpGenesis g) = g_metadata g"
| "op_metadata (OpTransition t) = t_metadata t"

fun op_globals :: "Operation \<Rightarrow> GlobalState" where
  "op_globals (OpGenesis g) = g_globals g"
| "op_globals (OpTransition t) = t_globals t"

fun op_assignments :: "Operation \<Rightarrow> AssignmentsRef" where
  "op_assignments (OpGenesis g) = GenesisRef (g_assignments g)"
| "op_assignments (OpTransition t) = GraphRef (t_assignments t)"

fun assignments_by_type :: "Operation \<Rightarrow> AssignmentType \<Rightarrow> GraphSeal TypedAssigns option" where
  "assignments_by_type (OpGenesis g) t = map_option ta_transmutate_seals (omap_get (g_assignments g) t)"
| "assignments_by_type (OpTransition tr) t = omap_get (t_assignments tr) t"

lemma assignments_by_type_get: "assignments_by_type p t = aref_get (op_assignments p) t"
  by (cases p) simp_all

end
