(* ===== verification/Merkle.thy ===== *)
theory Merkle
  imports Schema
begin

text \<open>
  Merklization (\<open>rgb-consensus/src/commit_verify/merkle.rs\<close>).  A node commits to its
  branching, depth, the width of the whole tree and two child hashes; the tagged SHA-256 of
  its strict encoding is the parameter \<open>h\<close>.  The five-bit depth of \<open>_merklize\<close> is a natural
  number and a step beyond 31 is the panic of the \<open>u5\<close> addition, the value \<open>None\<close>.

  Hash functions are not injective, so no lemma assumes it: where the code relies on collision
  resistance, the conclusion offers as the alternative a collision among the values the two
  computations hash, which are listed explicitly.
\<close>

section \<open>Collisions\<close>

definition collision_in :: "('a \<Rightarrow> 'b) \<Rightarrow> 'a list \<Rightarrow> bool" where
  "collision_in h xs \<longleftrightarrow> (\<exists>x \<in> set xs. \<exists>y \<in> set xs. x \<noteq> y \<and> h x = h y)"

lemma collision_in_inj: "\<not> collision_in h xs \<longleftrightarrow> inj_on h (set xs)"
  by (auto simp: collision_in_def inj_on_def)

lemma collision_in_mono: "collision_in h xs \<Longrightarrow> set xs \<subseteq> set ys \<Longrightarrow> collision_in h ys"
  by (auto simp: collision_in_def)

lemma collision_inD:
  "\<not> collision_in h xs \<Longrightarrow> h x = h y \<Longrightarrow> x \<in> set xs \<Longrightarrow> y \<in> set xs \<Longrightarrow> x = y"
  by (auto simp: collision_in_def)

section \<open>Nodes\<close>

type_synonym MerkleHash = bytes32

datatype NodeBranching = VoidNode | SingleNode | BranchNode

record MerkleNode =
  branching :: NodeBranching
  node_depth :: u8
  node_width :: "256 word"
  node1 :: MerkleHash
  node2 :: MerkleHash

definition VIRTUAL_LEAF :: MerkleHash where
  "VIRTUAL_LEAF = - 1"

definition node_with ::
  "NodeBranching \<Rightarrow> nat \<Rightarrow> nat \<Rightarrow> MerkleHash \<Rightarrow> MerkleHash \<Rightarrow> MerkleNode" where
  "node_with br d w n1 n2 =
     \<lparr> branching = br, node_depth = word_of_nat d, node_width = word_of_nat w,
       node1 = n1, node2 = n2 \<rparr>"

definition mh_void :: "(MerkleNode \<Rightarrow> MerkleHash) \<Rightarrow> nat \<Rightarrow> nat \<Rightarrow> MerkleHash" where
  "mh_void h d w = h (node_with VoidNode d w VIRTUAL_LEAF VIRTUAL_LEAF)"

definition mh_single :: "(MerkleNode \<Rightarrow> MerkleHash) \<Rightarrow> nat \<Rightarrow> nat \<Rightarrow> MerkleHash \<Rightarrow> MerkleHash" where
  "mh_single h d w n = h (node_with SingleNode d w n VIRTUAL_LEAF)"

definition mh_branches ::
  "(MerkleNode \<Rightarrow> MerkleHash) \<Rightarrow> nat \<Rightarrow> nat \<Rightarrow> MerkleHash \<Rightarrow> MerkleHash \<Rightarrow> MerkleHash" where
  "mh_branches h d w n1 n2 = h (node_with BranchNode d w n1 n2)"

section \<open>Merklization\<close>

definition u5_succ :: "nat \<Rightarrow> nat option" where
  "u5_succ d = (if d < 31 then Some (Suc d) else None)"

function merklize_aux ::
  "(MerkleNode \<Rightarrow> MerkleHash) \<Rightarrow> MerkleHash list \<Rightarrow> nat \<Rightarrow> nat \<Rightarrow> nat \<Rightarrow> MerkleHash option" where
  "merklize_aux h nodes depth branch_width base_width =
     (if branch_width \<le> 2 then
        (case nodes of
           [] \<Rightarrow> Some (mh_void h depth base_width)
         | [b] \<Rightarrow> Some (mh_single h depth base_width b)
         | b1 # b2 # _ \<Rightarrow> Some (mh_branches h depth base_width b1 b2))
      else
        (let div_w = branch_width div 2 + branch_width mod 2 in
         case u5_succ depth of
           None \<Rightarrow> None
         | Some d \<Rightarrow>
             (case merklize_aux h (take div_w nodes) d div_w base_width of
                None \<Rightarrow> None
              | Some b1 \<Rightarrow>
                  (case merklize_aux h (drop div_w nodes) d (branch_width - div_w) base_width of
                     None \<Rightarrow> None
                   | Some b2 \<Rightarrow> Some (mh_branches h depth base_width b1 b2)))))"
  by pat_completeness auto
termination
  by (relation "measure (\<lambda>(_, _, _, w, _). w)") auto

declare merklize_aux.simps [simp del]

text \<open>The argument is the list of leaf commitments; more than \<open>2\<^sup>32 - 1\<close> leaves panic.\<close>

definition merklize :: "(MerkleNode \<Rightarrow> MerkleHash) \<Rightarrow> MerkleHash list \<Rightarrow> MerkleHash option" where
  "merklize h nodes =
     (if length nodes \<ge> 2 ^ 32 then None
      else if length nodes = 1 then Some (hd nodes)
      else merklize_aux h nodes 0 (length nodes) (length nodes))"

text \<open>The nodes whose hashes \<open>merklize\<close> computes.\<close>

function merklize_aux_nodes ::
  "(MerkleNode \<Rightarrow> MerkleHash) \<Rightarrow> MerkleHash list \<Rightarrow> nat \<Rightarrow> nat \<Rightarrow> nat \<Rightarrow> MerkleNode list" where
  "merklize_aux_nodes h nodes depth branch_width base_width =
     (if branch_width \<le> 2 then
        (case nodes of
           [] \<Rightarrow> [node_with VoidNode depth base_width VIRTUAL_LEAF VIRTUAL_LEAF]
         | [b] \<Rightarrow> [node_with SingleNode depth base_width b VIRTUAL_LEAF]
         | b1 # b2 # _ \<Rightarrow> [node_with BranchNode depth base_width b1 b2])
      else
        (let div_w = branch_width div 2 + branch_width mod 2;
             xs = take div_w nodes; ys = drop div_w nodes in
         merklize_aux_nodes h xs (Suc depth) div_w base_width
         @ merklize_aux_nodes h ys (Suc depth) (branch_width - div_w) base_width
         @ (case (merklize_aux h xs (Suc depth) div_w base_width,
                  merklize_aux h ys (Suc depth) (branch_width - div_w) base_width) of
              (Some b1, Some b2) \<Rightarrow> [node_with BranchNode depth base_width b1 b2]
            | _ \<Rightarrow> [])))"
  by pat_completeness auto
termination
  by (relation "measure (\<lambda>(_, _, _, w, _). w)") auto

declare merklize_aux_nodes.simps [simp del]

definition merklize_nodes :: "(MerkleNode \<Rightarrow> MerkleHash) \<Rightarrow> MerkleHash list \<Rightarrow> MerkleNode list" where
  "merklize_nodes h nodes =
     (if length nodes = 1 then [] else merklize_aux_nodes h nodes 0 (length nodes) (length nodes))"

subsection \<open>The recursion stays within the depth counter\<close>

lemma half_le:
  fixes w n :: nat
  assumes "w \<le> 2 * n"
  shows "w div 2 + w mod 2 \<le> n" "w - (w div 2 + w mod 2) \<le> n"
  using assms by presburger+

lemma merklize_aux_total:
  assumes "branch_width \<le> 2 ^ (k + 1)" "depth + k \<le> 31"
  shows "\<exists>r. merklize_aux h nodes depth branch_width base_width = Some r"
  using assms
proof (induction k arbitrary: nodes depth branch_width)
  case 0
  then show ?case by (subst merklize_aux.simps) (auto split: list.splits)
next
  case (Suc k)
  show ?case
  proof (cases "branch_width \<le> 2")
    case True
    then show ?thesis by (subst merklize_aux.simps) (auto split: list.splits)
  next
    case False
    define div_w where "div_w = branch_width div 2 + branch_width mod 2"
    have le: "div_w \<le> 2 ^ (k + 1)" "branch_width - div_w \<le> 2 ^ (k + 1)"
      using Suc.prems(1) half_le [of branch_width "2 ^ (k + 1)"] by (simp_all add: div_w_def)
    have d: "u5_succ depth = Some (Suc depth)" "Suc depth + k \<le> 31"
      using Suc.prems(2) by (simp_all add: u5_succ_def)
    obtain r1 where "merklize_aux h (take div_w nodes) (Suc depth) div_w base_width = Some r1"
      using Suc.IH [OF le(1) d(2)] by blast
    moreover obtain r2 where
      "merklize_aux h (drop div_w nodes) (Suc depth) (branch_width - div_w) base_width = Some r2"
      using Suc.IH [OF le(2) d(2)] by blast
    ultimately show ?thesis
      using False d by (subst merklize_aux.simps) (simp add: Let_def div_w_def)
  qed
qed

lemma merklize_total:
  assumes "length nodes < 2 ^ 32"
  shows "\<exists>r. merklize h nodes = Some r"
  using assms merklize_aux_total [of "length nodes" 31 0 h nodes "length nodes"]
  by (auto simp: merklize_def)

subsection \<open>The root binds the leaves\<close>

lemma node_with_eq:
  assumes "node_with br d w n1 n2 = node_with br' d' w' n1' n2'"
  shows "br = br' \<and> n1 = n1' \<and> n2 = n2' \<and> (word_of_nat w :: 256 word) = word_of_nat w'"
  using assms by (simp add: node_with_def)

lemma merklize_aux_binding:
  assumes "merklize_aux h xs d w b = Some r" "merklize_aux h ys d w b = Some r"
    and "length xs = w" "length ys = w"
    and "\<not> collision_in h (merklize_aux_nodes h xs d w b @ merklize_aux_nodes h ys d w b)"
  shows "xs = ys"
  using assms
proof (induction h xs d w b arbitrary: ys r rule: merklize_aux.induct)
  case (1 h xs d w b)
  show ?case
  proof (cases "w \<le> 2")
    case True
    then consider "xs = []" "ys = []" | x y where "xs = [x]" "ys = [y]"
      | x1 x2 y1 y2 where "xs = [x1, x2]" "ys = [y1, y2]"
      using "1.prems"(3,4) by (cases xs rule: remdups_adj.cases; cases ys rule: remdups_adj.cases) auto
    then show ?thesis
      using "1.prems"(1,2,5) True
      by cases (auto simp: merklize_aux.simps merklize_aux_nodes.simps collision_in_def
          mh_single_def mh_branches_def dest!: node_with_eq)
  next
    case False
    define dw where "dw = w div 2 + w mod 2"
    have d': "u5_succ d = Some (Suc d)"
      using "1.prems"(1) False
      by (subst (asm) merklize_aux.simps) (auto simp: Let_def u5_succ_def split: if_splits)
    obtain x1 x2 where x: "merklize_aux h (take dw xs) (Suc d) dw b = Some x1"
      "merklize_aux h (drop dw xs) (Suc d) (w - dw) b = Some x2" "r = mh_branches h d b x1 x2"
      using "1.prems"(1) False d'
      by (subst (asm) merklize_aux.simps) (auto simp: Let_def dw_def split: option.splits)
    obtain y1 y2 where y: "merklize_aux h (take dw ys) (Suc d) dw b = Some y1"
      "merklize_aux h (drop dw ys) (Suc d) (w - dw) b = Some y2" "r = mh_branches h d b y1 y2"
      using "1.prems"(2) False d'
      by (subst (asm) merklize_aux.simps) (auto simp: Let_def dw_def split: option.splits)
    have "dw \<le> w" unfolding dw_def by presburger
    have nx: "merklize_aux_nodes h xs d w b = merklize_aux_nodes h (take dw xs) (Suc d) dw b
        @ merklize_aux_nodes h (drop dw xs) (Suc d) (w - dw) b @ [node_with BranchNode d b x1 x2]"
      using False x by (subst merklize_aux_nodes.simps) (simp add: Let_def dw_def)
    have ny: "merklize_aux_nodes h ys d w b = merklize_aux_nodes h (take dw ys) (Suc d) dw b
        @ merklize_aux_nodes h (drop dw ys) (Suc d) (w - dw) b @ [node_with BranchNode d b y1 y2]"
      using False y by (subst merklize_aux_nodes.simps) (simp add: Let_def dw_def)
    have "node_with BranchNode d b x1 x2 = node_with BranchNode d b y1 y2"
      using x(3) y(3) by (intro collision_inD [OF "1.prems"(5)]) (simp_all add: mh_branches_def nx ny)
    then have eq: "y1 = x1" "y2 = x2" using node_with_eq by metis+
    have nc: "\<not> collision_in h (merklize_aux_nodes h (take dw xs) (Suc d) dw b
          @ merklize_aux_nodes h (take dw ys) (Suc d) dw b)"
      "\<not> collision_in h (merklize_aux_nodes h (drop dw xs) (Suc d) (w - dw) b
          @ merklize_aux_nodes h (drop dw ys) (Suc d) (w - dw) b)"
      using "1.prems"(5) by (auto simp: nx ny collision_in_def)
    have "take dw xs = take dw ys"
      using "1.IH"(1) [OF False dw_def d' x(1) y(1) [unfolded eq]] nc(1) "1.prems"(3,4) \<open>dw \<le> w\<close>
      by simp
    moreover have "drop dw xs = drop dw ys"
      using "1.IH"(2) [OF False dw_def d' x(1) x(2) y(2) [unfolded eq]] nc(2) "1.prems"(3,4) by simp
    ultimately show ?thesis by (metis append_take_drop_id)
  qed
qed

text \<open>The root of a tree of more than one leaf is a node that carries the number of leaves.\<close>

lemma merklize_aux_of:
  "merklize h nodes = Some r \<Longrightarrow> length nodes \<noteq> 1 \<Longrightarrow>
     merklize_aux h nodes 0 (length nodes) (length nodes) = Some r"
  by (simp add: merklize_def split: if_splits)

lemma merklize_root_node:
  assumes "merklize h nodes = Some r" "length nodes \<noteq> 1"
  obtains br n1 n2 where "r = h (node_with br 0 (length nodes) n1 n2)"
    "node_with br 0 (length nodes) n1 n2 \<in> set (merklize_nodes h nodes)"
proof -
  show ?thesis
    using that merklize_aux_of [OF assms] assms(2)
    unfolding merklize_nodes_def
    by (subst (asm) merklize_aux.simps, subst (asm) merklize_aux_nodes.simps)
       (auto simp: Let_def mh_void_def mh_single_def mh_branches_def u5_succ_def
         split: if_splits list.splits option.splits)
qed

lemma word256_of_nat_inj:
  assumes "(word_of_nat a :: 256 word) = word_of_nat b" "a < 2 ^ 32" "b < 2 ^ 32"
  shows "a = b"
proof -
  have "unat (word_of_nat a :: 256 word) = a" "unat (word_of_nat b :: 256 word) = b"
    using assms(2,3) by (simp_all add: unsigned_of_nat take_bit_nat_eq_self)
  then show ?thesis using assms(1) by metis
qed

lemma merklize_binding:
  assumes "merklize h xs = Some r" "merklize h ys = Some r"
    and "length xs \<noteq> 1" "length ys \<noteq> 1"
  shows "xs = ys \<or> collision_in h (merklize_nodes h xs @ merklize_nodes h ys)"
proof (cases "collision_in h (merklize_nodes h xs @ merklize_nodes h ys)")
  case False
  obtain br n1 n2 where x: "r = h (node_with br 0 (length xs) n1 n2)"
    "node_with br 0 (length xs) n1 n2 \<in> set (merklize_nodes h xs)"
    by (rule merklize_root_node [OF assms(1,3)])
  obtain br' n1' n2' where y: "r = h (node_with br' 0 (length ys) n1' n2')"
    "node_with br' 0 (length ys) n1' n2' \<in> set (merklize_nodes h ys)"
    by (rule merklize_root_node [OF assms(2,4)])
  have "node_with br 0 (length xs) n1 n2 = node_with br' 0 (length ys) n1' n2'"
    using x y by (intro collision_inD [OF False]) simp_all
  then have "(word_of_nat (length xs) :: 256 word) = word_of_nat (length ys)"
    using node_with_eq by blast
  moreover have "length xs < 2 ^ 32" "length ys < 2 ^ 32"
    using assms by (auto simp: merklize_def split: if_splits)
  ultimately have len: "length xs = length ys" by (rule word256_of_nat_inj)
  have "xs = ys"
    using False assms(3)
    by (intro merklize_aux_binding [OF merklize_aux_of [OF assms(1,3)] _ refl])
       (simp_all add: len merklize_aux_of [OF assms(2,4)] merklize_nodes_def)
  then show ?thesis ..
qed simp

section \<open>Depth tracking\<close>

text \<open>
  \<open>MerkleBuoy\<close> tracks the depth of consecutive subtrees: a pushed depth that meets an equal
  one is joined with it to a subtree one level up.
\<close>

datatype MerkleBuoy = Buoy (buoy: nat) (stack: "MerkleBuoy option")

definition buoy_new :: "nat \<Rightarrow> MerkleBuoy" where
  "buoy_new t = Buoy t None"

fun buoy_level :: "MerkleBuoy \<Rightarrow> nat" where
  "buoy_level (Buoy b None) = b"
| "buoy_level (Buoy b (Some s)) = buoy_level s"

text \<open>\<open>push\<close> on a buoy with an empty stack.\<close>

definition buoy_push_flat :: "nat \<Rightarrow> nat \<Rightarrow> MerkleBuoy \<times> bool" where
  "buoy_push_flat b depth =
     (if depth = 0 then (Buoy b None, False)
      else if depth = b then (Buoy (b - 1) None, True)
      else (Buoy b (Some (buoy_new depth)), False))"

fun buoy_push :: "MerkleBuoy \<Rightarrow> nat \<Rightarrow> MerkleBuoy \<times> bool" where
  "buoy_push (Buoy b None) depth = buoy_push_flat b depth"
| "buoy_push (Buoy b (Some s)) depth =
     (if depth = 0 then (Buoy b (Some s), False)
      else (case buoy_push s depth of
              (s', True) \<Rightarrow> buoy_push_flat b (buoy_level s')
            | (s', False) \<Rightarrow> (Buoy b (Some s'), False)))"

text \<open>Surfacing leaves the whole buoy flat.\<close>

lemma buoy_push_surface:
  "buoy_push bu d = (bu', True) \<Longrightarrow> stack bu' = None"
  by (induction bu d arbitrary: bu' rule: buoy_push.induct)
     (auto simp: buoy_push_flat_def split: if_splits prod.splits bool.splits)

end
