(* ===== verification/Commit.thy ===== *)
theory Commit
  imports Operations Merkle
begin

text \<open>
  Commitments to operations (\<open>rgb-consensus/src/commit_verify/id.rs\<close>, \<open>digest.rs\<close> and
  \<open>operation/commit.rs\<close>).  The commitment engine collects the bytes fed to a tagged SHA-256
  and the layout of what was fed.  SHA-256 and the strict encodings of the leaf types come from
  other crates; they are the fields of the parameter \<open>Enc\<close>.  Everything between them is
  modelled: which parts of an operation are concealed, merklized and hashed into its
  identifier.  A panic (more than \<open>2\<^sup>32 - 1\<close> Merkle leaves) is \<open>None\<close>; the lemmas show that
  no operation within the bounds of its confined collections reaches it.
\<close>

section \<open>Commitment data\<close>

type_synonym StrictHash = bytes32
type_synonym DiscloseHash = bytes32

record BaseCommitment =
  bc_schema_id :: SchemaId
  bc_timestamp :: int
  bc_issuer :: StrictHash
  bc_chain_net :: ChainNet
  bc_seal_closing_strategy :: SealClosingStrategy

datatype TypeCommitment =
    GenesisCommitment BaseCommitment
  | TransitionCommitment ContractId TransitionType

record OpCommitment =
  oc_ffv :: u16
  oc_nonce :: u64
  oc_op_type :: TypeCommitment
  oc_metadata :: StrictHash
  oc_globals :: MerkleHash
  oc_inputs :: MerkleHash
  oc_assignments :: MerkleHash

record AssignmentCommitment =
  ac_ty :: AssignmentType
  ac_state :: RevealedState
  ac_seal :: SecretSeal

record GlobalCommitment =
  gc_ty :: GlobalStateType
  gc_state :: RevealedData

type_synonym AssignmentIndex = "AssignmentType \<times> u16"

record OpDisclose =
  od_id :: OpId
  od_seals :: "(AssignmentIndex \<times> SecretSeal) list"
  od_fungible :: "(AssignmentIndex \<times> RevealedValue) list"
  od_data :: "(AssignmentIndex \<times> RevealedData) list"

text \<open>
  The hash function, the strict encodings the commitments are made of, and the library and
  type name the derive macros give a Rust type.
\<close>

type_synonym TypeFqn = "string \<times> string"

record Enc =
  sha256 :: "bytes \<Rightarrow> bytes32"
  enc_type :: "u16 \<Rightarrow> bytes"
  enc_value :: "RevealedValue \<Rightarrow> bytes"
  enc_data :: "RevealedData \<Rightarrow> bytes"
  enc_hash :: "bytes32 \<Rightarrow> bytes"
  enc_node :: "MerkleNode \<Rightarrow> bytes"
  enc_opout :: "Opout \<Rightarrow> bytes"
  enc_metadata :: "Metadata \<Rightarrow> bytes"
  enc_identity :: "string \<Rightarrow> bytes"
  enc_op_commitment :: "OpCommitment \<Rightarrow> bytes"
  enc_input_map :: "(Opout \<times> OpId) list \<Rightarrow> bytes"
  enc_graph_seal :: "GraphSeal \<Rightarrow> bytes"
  enc_genesis_seal :: "GenesisSeal \<Rightarrow> bytes"
  enc_op_disclose :: "OpDisclose \<Rightarrow> bytes"
  type_fqn :: "string \<Rightarrow> TypeFqn"

section \<open>Commitment engine\<close>

datatype CommitColType = ColList | ColSet | ColMap TypeFqn

datatype CommitStep =
    Serialized TypeFqn
  | Collection CommitColType "nat \<times> nat" TypeFqn
  | Hashed TypeFqn
  | Merklized TypeFqn
  | Concealed TypeFqn

text \<open>
  The hasher is the list of bytes written to it.  The layout vector is confined to 255 steps;
  no encoder pushes more than eight.  The \<open>finished\<close> flag only feeds debug assertions.
\<close>

record CommitEngine =
  finished :: bool
  hasher :: bytes
  layout :: "CommitStep list"

definition string_bytes :: "string \<Rightarrow> bytes" where
  "string_bytes s = map (\<lambda>c. word_of_nat (of_char c)) s"

text \<open>The 32 bytes of a hash, the most significant first.\<close>

definition hash_bytes :: "bytes32 \<Rightarrow> bytes" where
  "hash_bytes w = map (\<lambda>i. ucast (drop_bit (8 * (31 - i)) w)) [0..<32]"

definition from_tag :: "Enc \<Rightarrow> string \<Rightarrow> bytes" where
  "from_tag c tag =
     (let t = hash_bytes (sha256 c (string_bytes tag)) in t @ t)"

definition engine_new :: "Enc \<Rightarrow> string \<Rightarrow> CommitEngine" where
  "engine_new c tag = \<lparr> finished = False, hasher = from_tag c tag, layout = [] \<rparr>"

definition engine_push :: "CommitStep \<Rightarrow> bytes \<Rightarrow> CommitEngine \<Rightarrow> CommitEngine" where
  "engine_push st bs e = e\<lparr> hasher := hasher e @ bs, layout := layout e @ [st] \<rparr>"

definition commit_to_serialized :: "TypeFqn \<Rightarrow> bytes \<Rightarrow> CommitEngine \<Rightarrow> CommitEngine" where
  "commit_to_serialized fqn bs = engine_push (Serialized fqn) bs"

definition commit_to_option :: "TypeFqn \<Rightarrow> bytes \<Rightarrow> CommitEngine \<Rightarrow> CommitEngine" where
  "commit_to_option fqn bs = engine_push (Serialized fqn) bs"

definition commit_to_hash :: "TypeFqn \<Rightarrow> StrictHash \<Rightarrow> Enc \<Rightarrow> CommitEngine \<Rightarrow> CommitEngine" where
  "commit_to_hash fqn hsh c = engine_push (Hashed fqn) (enc_hash c hsh)"

definition commit_to_merkle :: "TypeFqn \<Rightarrow> MerkleHash \<Rightarrow> Enc \<Rightarrow> CommitEngine \<Rightarrow> CommitEngine" where
  "commit_to_merkle fqn root c = engine_push (Merklized fqn) (enc_hash c root)"

definition commit_to_concealed :: "TypeFqn \<Rightarrow> bytes \<Rightarrow> CommitEngine \<Rightarrow> CommitEngine" where
  "commit_to_concealed fqn bs = engine_push (Concealed fqn) bs"

definition commit_to_list :: "nat \<Rightarrow> nat \<Rightarrow> TypeFqn \<Rightarrow> bytes \<Rightarrow> CommitEngine \<Rightarrow> CommitEngine" where
  "commit_to_list mn mx fqn bs = engine_push (Collection ColList (mn, mx) fqn) bs"

definition commit_to_set :: "nat \<Rightarrow> nat \<Rightarrow> TypeFqn \<Rightarrow> bytes \<Rightarrow> CommitEngine \<Rightarrow> CommitEngine" where
  "commit_to_set mn mx fqn bs = engine_push (Collection ColSet (mn, mx) fqn) bs"

definition commit_to_map ::
  "nat \<Rightarrow> nat \<Rightarrow> TypeFqn \<Rightarrow> TypeFqn \<Rightarrow> bytes \<Rightarrow> CommitEngine \<Rightarrow> CommitEngine" where
  "commit_to_map mn mx key fqn bs = engine_push (Collection (ColMap key) (mn, mx) fqn) bs"

definition set_finished :: "CommitEngine \<Rightarrow> CommitEngine" where
  "set_finished e = e\<lparr> finished := True \<rparr>"

definition commit_id :: "Enc \<Rightarrow> string \<Rightarrow> (CommitEngine \<Rightarrow> CommitEngine) \<Rightarrow> bytes32" where
  "commit_id c tag encode = sha256 c (hasher (set_finished (encode (engine_new c tag))))"

lemma hasher_push [simp]: "hasher (engine_push st bs e) = hasher e @ bs"
  by (simp add: engine_push_def)

lemma hasher_set_finished [simp]: "hasher (set_finished e) = hasher e"
  by (simp add: set_finished_def)

lemma hasher_new [simp]: "hasher (engine_new c tag) = from_tag c tag"
  by (simp add: engine_new_def)

lemmas engine_defs = commit_to_serialized_def commit_to_option_def commit_to_hash_def
  commit_to_merkle_def commit_to_concealed_def commit_to_list_def commit_to_set_def
  commit_to_map_def

lemma commit_id_serialized: "commit_id c tag (commit_to_serialized fqn bs) = sha256 c (from_tag c tag @ bs)"
  by (simp add: commit_id_def engine_defs)

section \<open>Tags\<close>

definition TAG_op :: string where
  "TAG_op = ''urn:lnp-bp:rgb:operation#2024-02-03''"

definition TAG_bundle :: string where
  "TAG_bundle = ''urn:lnp-bp:rgb:bundle#2024-02-03''"

definition TAG_disclose :: string where
  "TAG_disclose = ''urn:lnp-bp:rgb:disclose#2024-02-16''"

definition TAG_merkle :: string where
  "TAG_merkle = ''urn:ubideco:merkle:node#2024-01-31''"

definition TAG_strict :: string where
  "TAG_strict = ''urn:ubideco:strict-types:value-hash#2024-02-10''"

definition TAG_secret_seal :: string where
  "TAG_secret_seal = ''urn:lnp-bp:seals:secret#2024-02-03''"

section \<open>Hashes of the leaf types\<close>

definition merkle_node_hash :: "Enc \<Rightarrow> MerkleNode \<Rightarrow> MerkleHash" where
  "merkle_node_hash c n =
     commit_id c TAG_merkle (commit_to_serialized (type_fqn c ''MerkleNode'') (enc_node c n))"

definition graph_secret :: "Enc \<Rightarrow> GraphSeal \<Rightarrow> SecretSeal" where
  "graph_secret c s =
     commit_id c TAG_secret_seal (commit_to_serialized (type_fqn c ''BlindSeal<TxPtr>'') (enc_graph_seal c s))"

definition genesis_secret :: "Enc \<Rightarrow> GenesisSeal \<Rightarrow> SecretSeal" where
  "genesis_secret c s =
     commit_id c TAG_secret_seal (commit_to_serialized (type_fqn c ''BlindSeal<Txid>'') (enc_genesis_seal c s))"

definition metadata_hash :: "Enc \<Rightarrow> Metadata \<Rightarrow> StrictHash" where
  "metadata_hash c m =
     commit_id c TAG_strict (commit_to_serialized (type_fqn c ''Metadata'') (enc_metadata c m))"

definition identity_hash :: "Enc \<Rightarrow> string \<Rightarrow> StrictHash" where
  "identity_hash c s =
     commit_id c TAG_strict (commit_to_serialized (type_fqn c ''Identity'') (enc_identity c s))"

definition opout_hash :: "Enc \<Rightarrow> Opout \<Rightarrow> MerkleHash" where
  "opout_hash c o' =
     commit_id c TAG_merkle (commit_to_serialized (type_fqn c ''Opout'') (enc_opout c o'))"

definition op_hash :: "Enc \<Rightarrow> OpCommitment \<Rightarrow> OpId" where
  "op_hash c oc =
     commit_id c TAG_op (commit_to_serialized (type_fqn c ''OpCommitment'') (enc_op_commitment c oc))"

definition op_disclose_hash :: "Enc \<Rightarrow> OpDisclose \<Rightarrow> DiscloseHash" where
  "op_disclose_hash c d =
     commit_id c TAG_disclose (commit_to_serialized (type_fqn c ''OpDisclose'') (enc_op_disclose c d))"

text \<open>The void state writes nothing; the other states write their serialization.\<close>

fun revealed_state_commit_encode :: "Enc \<Rightarrow> RevealedState \<Rightarrow> CommitEngine \<Rightarrow> CommitEngine" where
  "revealed_state_commit_encode c RVoid e = e"
| "revealed_state_commit_encode c (RFungible val) e =
     commit_to_serialized (type_fqn c ''RevealedValue'') (enc_value c val) e"
| "revealed_state_commit_encode c (RStructured dat) e =
     commit_to_serialized (type_fqn c ''RevealedData'') (enc_data c dat) e"

definition assignment_commit_encode :: "Enc \<Rightarrow> AssignmentCommitment \<Rightarrow> CommitEngine \<Rightarrow> CommitEngine" where
  "assignment_commit_encode c a e =
     set_finished
       (commit_to_serialized (type_fqn c ''SecretSeal'') (enc_hash c (ac_seal a))
         (revealed_state_commit_encode c (ac_state a)
           (commit_to_serialized (type_fqn c ''AssignmentType'') (enc_type c (ac_ty a)) e)))"

definition global_commit_encode :: "Enc \<Rightarrow> GlobalCommitment \<Rightarrow> CommitEngine \<Rightarrow> CommitEngine" where
  "global_commit_encode c g e =
     set_finished
       (commit_to_serialized (type_fqn c ''RevealedData'') (enc_data c (gc_state g))
         (commit_to_serialized (type_fqn c ''GlobalStateType'') (enc_type c (gc_ty g)) e))"

definition assignment_hash :: "Enc \<Rightarrow> AssignmentCommitment \<Rightarrow> MerkleHash" where
  "assignment_hash c a = commit_id c TAG_merkle (assignment_commit_encode c a)"

definition global_hash :: "Enc \<Rightarrow> GlobalCommitment \<Rightarrow> MerkleHash" where
  "global_hash c g = commit_id c TAG_merkle (global_commit_encode c g)"

section \<open>Merkle leaves of an operation\<close>

definition assign_commitment ::
  "('st \<Rightarrow> RevealedState) \<Rightarrow> ('s \<Rightarrow> SecretSeal) \<Rightarrow> AssignmentType \<Rightarrow> ('st, 's) Assign
     \<Rightarrow> AssignmentCommitment" where
  "assign_commitment state_data cs t a =
     (let concealed = assign_conceal cs a in
      \<lparr> ac_ty = t, ac_state = state_data (as_revealed_state concealed),
        ac_seal = to_confidential_seal cs concealed \<rparr>)"

fun typed_assigns_leaves ::
  "('s \<Rightarrow> SecretSeal) \<Rightarrow> AssignmentType \<times> 's TypedAssigns \<Rightarrow> AssignmentCommitment list" where
  "typed_assigns_leaves cs (t, Declarative l) = map (assign_commitment (\<lambda>_. RVoid) cs t) l"
| "typed_assigns_leaves cs (t, FungibleAssigns l) = map (assign_commitment RFungible cs t) l"
| "typed_assigns_leaves cs (t, StructuredAssigns l) = map (assign_commitment RStructured cs t) l"

definition assignments_leaves :: "('s \<Rightarrow> SecretSeal) \<Rightarrow> 's Assignments \<Rightarrow> AssignmentCommitment list" where
  "assignments_leaves cs m = concat (map (typed_assigns_leaves cs) m)"

definition global_leaves :: "GlobalState \<Rightarrow> GlobalCommitment list" where
  "global_leaves gs =
     concat (map (\<lambda>(t, vals). map (\<lambda>v. \<lparr> gc_ty = t, gc_state = v \<rparr>) vals) gs)"

section \<open>Operation identifiers\<close>

abbreviation c_merklize :: "Enc \<Rightarrow> MerkleHash list \<Rightarrow> MerkleHash option" where
  "c_merklize c \<equiv> merklize (merkle_node_hash c)"

definition genesis_commit :: "Enc \<Rightarrow> Genesis \<Rightarrow> OpCommitment option" where
  "genesis_commit c g =
     Option.bind (c_merklize c (map (global_hash c) (global_leaves (g_globals g)))) (\<lambda>gl.
     Option.bind
       (c_merklize c (map (assignment_hash c) (assignments_leaves (genesis_secret c) (g_assignments g))))
       (\<lambda>al. Some
         \<lparr> oc_ffv = g_ffv g, oc_nonce = u64_MAX,
           oc_op_type = GenesisCommitment
             \<lparr> bc_schema_id = g_schema_id g, bc_timestamp = g_timestamp g,
               bc_issuer = identity_hash c (g_issuer g), bc_chain_net = g_chain_net g,
               bc_seal_closing_strategy = g_seal_closing_strategy g \<rparr>,
           oc_metadata = metadata_hash c (g_metadata g), oc_globals = gl,
           oc_inputs = mh_void (merkle_node_hash c) 0 0, oc_assignments = al \<rparr>))"

definition transition_commit :: "Enc \<Rightarrow> Transition \<Rightarrow> OpCommitment option" where
  "transition_commit c t =
     Option.bind (c_merklize c (map (global_hash c) (global_leaves (t_globals t)))) (\<lambda>gl.
     Option.bind (c_merklize c (map (opout_hash c) (t_inputs t))) (\<lambda>il.
     Option.bind
       (c_merklize c (map (assignment_hash c) (assignments_leaves (graph_secret c) (t_assignments t))))
       (\<lambda>al. Some
         \<lparr> oc_ffv = t_ffv t, oc_nonce = t_nonce t,
           oc_op_type = TransitionCommitment (t_contract_id t) (t_transition_type t),
           oc_metadata = metadata_hash c (t_metadata t), oc_globals = gl,
           oc_inputs = il, oc_assignments = al \<rparr>)))"

definition genesis_id :: "Enc \<Rightarrow> Genesis \<Rightarrow> OpId option" where
  "genesis_id c g = map_option (op_hash c) (genesis_commit c g)"

definition transition_id :: "Enc \<Rightarrow> Transition \<Rightarrow> OpId option" where
  "transition_id c t = map_option (op_hash c) (transition_commit c t)"

fun operation_id :: "Enc \<Rightarrow> Operation \<Rightarrow> OpId option" where
  "operation_id c (OpGenesis g) = genesis_id c g"
| "operation_id c (OpTransition t) = transition_id c t"

text \<open>The identifier of a contract is the identifier of its genesis.\<close>

fun operation_contract_id :: "Enc \<Rightarrow> Operation \<Rightarrow> ContractId option" where
  "operation_contract_id c (OpGenesis g) = genesis_id c g"
| "operation_contract_id c (OpTransition t) = Some (t_contract_id t)"

section \<open>Disclosure\<close>

definition indexed :: "AssignmentType \<Rightarrow> 'a list \<Rightarrow> (AssignmentIndex \<times> 'a) list" where
  "indexed t xs = map (\<lambda>i. ((t, word_of_nat i), xs ! i)) [0..<length xs]"

definition proc_seals ::
  "(GraphSeal \<Rightarrow> SecretSeal) \<Rightarrow> AssignmentType \<Rightarrow> ('st, GraphSeal) Assign list
     \<Rightarrow> (AssignmentIndex \<times> SecretSeal) list" where
  "proc_seals cs t a =
     List.map_filter (\<lambda>(i, x). map_option (\<lambda>seal. (i, cs seal)) (revealed_seal x)) (indexed t a)"

definition proc_state ::
  "AssignmentType \<Rightarrow> ('st, GraphSeal) Assign list \<Rightarrow> (AssignmentIndex \<times> 'st) list" where
  "proc_state t a = map (\<lambda>(i, x). (i, as_revealed_state x)) (indexed t a)"

fun disclose_step :: "Enc \<Rightarrow> OpDisclose \<Rightarrow> AssignmentType \<times> GraphSeal TypedAssigns \<Rightarrow> OpDisclose" where
  "disclose_step c d (t, Declarative a) =
     d\<lparr> od_seals := od_seals d @ proc_seals (graph_secret c) t a \<rparr>"
| "disclose_step c d (t, FungibleAssigns a) =
     d\<lparr> od_seals := od_seals d @ proc_seals (graph_secret c) t a,
        od_fungible := od_fungible d @ proc_state t a \<rparr>"
| "disclose_step c d (t, StructuredAssigns a) =
     d\<lparr> od_seals := od_seals d @ proc_seals (graph_secret c) t a,
        od_data := od_data d @ proc_state t a \<rparr>"

definition op_disclose :: "Enc \<Rightarrow> Operation \<Rightarrow> OpDisclose option" where
  "op_disclose c p =
     map_option
       (\<lambda>i. foldl (disclose_step c)
          \<lparr> od_id = i, od_seals = [], od_fungible = [], od_data = [] \<rparr>
          (aref_flat (op_assignments p)))
       (operation_id c p)"

definition disclose_hash :: "Enc \<Rightarrow> Operation \<Rightarrow> DiscloseHash option" where
  "disclose_hash c p = map_option (op_disclose_hash c) (op_disclose c p)"

section \<open>Sizes\<close>

definition assignments_ok :: "'s Assignments \<Rightarrow> bool" where
  "assignments_ok m \<longleftrightarrow>
     omap_ok m \<and> length m \<le> max_u16
     \<and> (\<forall>ta \<in> snd ` set m. 0 < ta_len ta \<and> ta_len ta \<le> max_u16)"

definition inputs_ok :: "Inputs \<Rightarrow> bool" where
  "inputs_ok is' \<longleftrightarrow> sorted_wrt (<) is' \<and> is' \<noteq> [] \<and> length is' \<le> max_u16"

definition genesis_ok :: "Genesis \<Rightarrow> bool" where
  "genesis_ok g \<longleftrightarrow>
     omap_ok (g_metadata g) \<and> global_state_ok (g_globals g) \<and> assignments_ok (g_assignments g)"

definition transition_ok :: "Transition \<Rightarrow> bool" where
  "transition_ok t \<longleftrightarrow>
     omap_ok (t_metadata t) \<and> global_state_ok (t_globals t) \<and> inputs_ok (t_inputs t)
     \<and> assignments_ok (t_assignments t)"

lemma length_typed_assigns_leaves [simp]: "length (typed_assigns_leaves cs (t, ta)) = ta_len ta"
  by (cases ta) simp_all

lemma length_concat_le:
  assumes "\<And>x. x \<in> set xs \<Longrightarrow> length (f x) \<le> n"
  shows "length (concat (map f xs)) \<le> length xs * n"
  using assms by (induction xs) (auto intro: add_mono)

lemma assignments_leaves_bound:
  assumes "assignments_ok m"
  shows "length (assignments_leaves cs m) < 2 ^ 32"
proof -
  have "length (assignments_leaves cs m) \<le> length m * max_u16"
    unfolding assignments_leaves_def
    using assms by (intro length_concat_le) (force simp: assignments_ok_def)
  also have "\<dots> \<le> max_u16 * max_u16"
    using assms by (simp add: assignments_ok_def)
  finally show ?thesis by simp
qed

lemma global_leaves_bound:
  assumes "global_state_ok gs"
  shows "length (global_leaves gs) < 2 ^ 32"
proof -
  have "length (global_leaves gs) \<le> length gs * max_u16"
    unfolding global_leaves_def
    using assms by (intro length_concat_le) (force simp: global_state_ok_def global_values_ok_def)
  also have "\<dots> \<le> max_u8 * max_u16"
    using assms by (simp add: global_state_ok_def)
  finally show ?thesis by simp
qed

lemma c_merklize_total:
  "length xs < 2 ^ 32 \<Longrightarrow> \<exists>r. c_merklize c (map f xs) = Some r"
  by (rule merklize_total) simp

text \<open>Every operation within its bounds has an identifier.\<close>

lemma transition_id_total:
  assumes "transition_ok t"
  shows "\<exists>i. transition_id c t = Some i"
proof -
  have "length (t_inputs t) < 2 ^ 32"
    using assms by (auto simp: transition_ok_def inputs_ok_def)
  then show ?thesis
    using assms c_merklize_total [OF global_leaves_bound, of "t_globals t" c "global_hash c"]
      c_merklize_total [OF assignments_leaves_bound, of "t_assignments t" c "assignment_hash c"
        "graph_secret c"]
      c_merklize_total [of "t_inputs t" c "opout_hash c"]
    by (auto simp: transition_id_def transition_commit_def transition_ok_def)
qed

lemma genesis_id_total:
  assumes "genesis_ok g"
  shows "\<exists>i. genesis_id c g = Some i"
  using assms c_merklize_total [OF global_leaves_bound, of "g_globals g" c "global_hash c"]
    c_merklize_total [OF assignments_leaves_bound, of "g_assignments g" c "assignment_hash c"
      "genesis_secret c"]
  by (auto simp: genesis_id_def genesis_commit_def genesis_ok_def)

section \<open>What an identifier depends on\<close>

lemma assign_commitment_conceal [simp]:
  "assign_commitment sd cs t (assign_conceal cs a) = assign_commitment sd cs t a"
  by (simp add: assign_commitment_def)

lemma assign_commitment_reveal [simp]:
  "assign_commitment sd cs t (reveal_assign cs s a) = assign_commitment sd cs t a"
  by (simp add: assign_commitment_def)

lemma typed_assigns_leaves_keep [simp]:
  "typed_assigns_leaves cs (t, ta_conceal cs ta) = typed_assigns_leaves cs (t, ta)"
  "typed_assigns_leaves cs (t, reveal_seal cs s ta) = typed_assigns_leaves cs (t, ta)"
  by (cases ta; simp)+

lemma assignments_leaves_map:
  assumes "\<And>t ta. typed_assigns_leaves cs (t, f ta) = typed_assigns_leaves cs (t, ta)"
  shows "assignments_leaves cs (map (\<lambda>(t, ta). (t, f ta)) m) = assignments_leaves cs m"
  using assms by (induction m) (auto simp: assignments_leaves_def)

lemma transition_id_assignments:
  assumes "assignments_leaves (graph_secret c) (t_assignments t') =
      assignments_leaves (graph_secret c) (t_assignments t)"
    and "t' = t\<lparr> t_assignments := t_assignments t', t_signature := t_signature t' \<rparr>"
  shows "transition_id c t' = transition_id c t"
proof -
  have "transition_commit c t' = transition_commit c t"
    by (subst assms(2)) (simp add: transition_commit_def assms(1))
  then show ?thesis by (simp add: transition_id_def)
qed

section \<open>Identifiers bind what they commit to\<close>

text \<open>
  A collision while two lists of leaves are merklized: of the leaf hash, of the node hash, or
  of a leaf with a node, both being hashed under the same tag.
\<close>

definition tree_collision ::
  "Enc \<Rightarrow> ('a \<Rightarrow> MerkleHash) \<Rightarrow> 'a list \<Rightarrow> 'a list \<Rightarrow> bool" where
  "tree_collision c f xs ys \<longleftrightarrow>
     (let h = merkle_node_hash c;
          ns = merklize_nodes h (map f xs) @ merklize_nodes h (map f ys) in
      collision_in f (xs @ ys) \<or> collision_in h ns
      \<or> (\<exists>x \<in> set (xs @ ys). \<exists>n \<in> set ns. f x = h n))"

lemma leaf_node_collision:
  assumes "c_merklize c (map f [x]) = Some r" "c_merklize c (map f ys) = Some r" "length ys \<noteq> 1"
  shows "tree_collision c f [x] ys \<and> tree_collision c f ys [x]"
proof -
  obtain br n1 n2 where n: "r = merkle_node_hash c (node_with br 0 (length ys) n1 n2)"
    "node_with br 0 (length ys) n1 n2 \<in> set (merklize_nodes (merkle_node_hash c) (map f ys))"
    using merklize_root_node [OF assms(2)] assms(3) by auto
  have "f x = r" using assms(1) by (simp add: merklize_def)
  then show ?thesis using n unfolding tree_collision_def Let_def by fastforce
qed

lemma leaves_binding:
  assumes "c_merklize c (map f xs) = Some r" "c_merklize c (map f ys) = Some r"
  shows "xs = ys \<or> tree_collision c f xs ys"
proof -
  consider (both) "length xs \<noteq> 1" "length ys \<noteq> 1" | (left) x where "xs = [x]" "length ys \<noteq> 1"
    | (right) y where "ys = [y]" "length xs \<noteq> 1" | (one) x y where "xs = [x]" "ys = [y]"
    by (cases "length xs = 1"; cases "length ys = 1") (auto simp: length_Suc_conv)
  then show ?thesis
  proof cases
    case both
    then have "map f xs = map f ys
        \<or> collision_in (merkle_node_hash c)
            (merklize_nodes (merkle_node_hash c) (map f xs) @ merklize_nodes (merkle_node_hash c) (map f ys))"
      using merklize_binding [OF assms] by simp
    moreover have "xs = ys" if "map f xs = map f ys" "\<not> collision_in f (xs @ ys)"
      using that by (simp add: collision_in_inj inj_on_map_eq_map)
    ultimately show ?thesis unfolding tree_collision_def Let_def by blast
  next
    case left
    then show ?thesis using leaf_node_collision [of c f x r ys] assms by simp
  next
    case right
    then show ?thesis using leaf_node_collision [of c f y r xs] assms by simp
  next
    case one
    then show ?thesis
      using assms by (auto simp: merklize_def tree_collision_def Let_def collision_in_def)
  qed
qed

text \<open>A collision while two transitions are hashed.\<close>

definition id_collision :: "Enc \<Rightarrow> Transition \<Rightarrow> Transition \<Rightarrow> bool" where
  "id_collision c t t' \<longleftrightarrow>
     collision_in (map_option (op_hash c)) [transition_commit c t, transition_commit c t']
     \<or> collision_in (metadata_hash c) [t_metadata t, t_metadata t']
     \<or> tree_collision c (global_hash c) (global_leaves (t_globals t)) (global_leaves (t_globals t'))
     \<or> tree_collision c (opout_hash c) (t_inputs t) (t_inputs t')
     \<or> tree_collision c (assignment_hash c) (assignments_leaves (graph_secret c) (t_assignments t))
         (assignments_leaves (graph_secret c) (t_assignments t'))"

lemma transition_id_binding:
  assumes "transition_id c t = Some i" "transition_id c t' = Some i" "\<not> id_collision c t t'"
  shows "t_ffv t = t_ffv t' \<and> t_nonce t = t_nonce t' \<and> t_contract_id t = t_contract_id t'
    \<and> t_transition_type t = t_transition_type t' \<and> t_metadata t = t_metadata t'
    \<and> global_leaves (t_globals t) = global_leaves (t_globals t') \<and> t_inputs t = t_inputs t'
    \<and> assignments_leaves (graph_secret c) (t_assignments t)
       = assignments_leaves (graph_secret c) (t_assignments t')"
proof -
  have eq: "transition_commit c t = transition_commit c t'"
    using assms by (auto simp: id_collision_def collision_in_def transition_id_def)
  obtain oc where oc: "transition_commit c t = Some oc"
    using assms(1) by (auto simp: transition_id_def)
  have f: "c_merklize c (map (global_hash c) (global_leaves (t_globals u))) = Some (oc_globals oc)"
    "c_merklize c (map (opout_hash c) (t_inputs u)) = Some (oc_inputs oc)"
    "c_merklize c (map (assignment_hash c) (assignments_leaves (graph_secret c) (t_assignments u)))
      = Some (oc_assignments oc)"
    "oc_ffv oc = t_ffv u" "oc_nonce oc = t_nonce u" "oc_metadata oc = metadata_hash c (t_metadata u)"
    "oc_op_type oc = TransitionCommitment (t_contract_id u) (t_transition_type u)"
    if "transition_commit c u = Some oc" for u
    using that by (auto simp: transition_commit_def split: Option.bind_splits)
  note f1 = f [OF oc] and f2 = f [OF oc [unfolded eq]]
  show ?thesis
    using leaves_binding [OF f1(1) f2(1)] leaves_binding [OF f1(2) f2(2)]
      leaves_binding [OF f1(3) f2(3)] f1(4-7) f2(4-7) assms(3)
    by (auto simp: id_collision_def collision_in_def)
qed

end
