(* ===== verification/Bundle.thy ===== *)
theory Bundle
  imports Commit
begin

text \<open>
  Transition bundles (\<open>rgb-consensus/src/operation/bundle.rs\<close> and the disclosure of
  \<open>commit.rs\<close>).  A bundle maps the operation outputs a witness transaction spends to the
  transitions that spend them and carries the transitions that are known.  Its identifier
  commits to the input map only.  The identifier of a transition is the parameter \<open>tid\<close> of
  the operations that compute it; the code passes \<open>transition_id\<close>.
\<close>

section \<open>Bundles\<close>

record KnownTransition =
  kt_opid :: OpId
  kt_transition :: Transition

record TransitionBundle =
  input_map :: "(Opout, OpId) omap"
  known_transitions :: "KnownTransition list"

datatype UnrelatedTransition = UnrelatedTransition OpId
datatype UnrelatedTransitions = UnrelatedTransitions

definition bundle_id :: "Enc \<Rightarrow> TransitionBundle \<Rightarrow> BundleId" where
  "bundle_id c b =
     commit_id c TAG_bundle
       (commit_to_map 1 65535 (type_fqn c ''Opout'') (type_fqn c ''OpId'') (enc_input_map c (input_map b)))"

definition input_map_opids :: "TransitionBundle \<Rightarrow> OpId set" where
  "input_map_opids b = set (omap_values (input_map b))"

definition known_transitions_opids :: "TransitionBundle \<Rightarrow> OpId set" where
  "known_transitions_opids b = set (map kt_opid (known_transitions b))"

definition check_opid_commitments :: "TransitionBundle \<Rightarrow> (UnrelatedTransitions, unit) result" where
  "check_opid_commitments b =
     (if \<not> known_transitions_opids b \<subseteq> input_map_opids b then Err UnrelatedTransitions else Ok ())"

definition known_transitions_contain_opid :: "TransitionBundle \<Rightarrow> OpId \<Rightarrow> bool" where
  "known_transitions_contain_opid b opid = list_ex (\<lambda>kt. kt_opid kt = opid) (known_transitions b)"

definition get_transition :: "TransitionBundle \<Rightarrow> OpId \<Rightarrow> Transition option" where
  "get_transition b opid =
     map_option kt_transition (List.find (\<lambda>kt. kt_opid kt = opid) (known_transitions b))"

definition transition_reveal_seal :: "Enc \<Rightarrow> GraphSeal \<Rightarrow> Transition \<Rightarrow> Transition" where
  "transition_reveal_seal c seal t =
     t\<lparr> t_assignments := map (\<lambda>(k, ta). (k, reveal_seal (graph_secret c) seal ta)) (t_assignments t) \<rparr>"

definition bundle_reveal_seal ::
  "Enc \<Rightarrow> TransitionBundle \<Rightarrow> BundleId \<Rightarrow> GraphSeal \<Rightarrow> TransitionBundle \<times> bool" where
  "bundle_reveal_seal c b bid seal =
     (if bundle_id c b \<noteq> bid then (b, False)
      else (b\<lparr> known_transitions :=
                 map (\<lambda>kt. kt\<lparr> kt_transition := transition_reveal_seal c seal (kt_transition kt) \<rparr>)
                   (known_transitions b) \<rparr>, True))"

text \<open>
  \<open>reveal_transition\<close> puts a transition before the child it finds, else at the end.  A vector
  of 65535 transitions cannot grow: the \<open>expect\<close> there is the result \<open>None\<close>.
\<close>

definition child_position :: "TransitionBundle \<Rightarrow> OpId \<Rightarrow> nat option" where
  "child_position b opid =
     Option.bind (List.find (\<lambda>(o', _). opout_op o' = opid) (input_map b))
       (\<lambda>(_, child). position (\<lambda>k. kt_opid k = child) (known_transitions b))"

definition reveal_transition ::
  "(Transition \<Rightarrow> OpId) \<Rightarrow> TransitionBundle \<Rightarrow> Transition
     \<Rightarrow> (UnrelatedTransition, TransitionBundle \<times> bool) result option" where
  "reveal_transition tid b t =
     (let opid = tid t;
          kt = \<lparr> kt_opid = opid, kt_transition = t \<rparr>;
          grow = (\<lambda>ks. if length ks > max_u16 then None
                       else Some (Ok (b\<lparr> known_transitions := ks \<rparr>, True)))
      in
      if opid \<notin> input_map_opids b then Some (Err (UnrelatedTransition opid))
      else if known_transitions_contain_opid b opid then Some (Ok (b, False))
      else
        (case child_position b opid of
           Some i \<Rightarrow> grow (vec_insert i kt (known_transitions b))
         | None \<Rightarrow> grow (known_transitions b @ [kt])))"

definition to_concealed_except ::
  "TransitionBundle \<Rightarrow> OpId \<Rightarrow> (UnrelatedTransition, TransitionBundle) result" where
  "to_concealed_except b opid =
     (let ks = filter (\<lambda>kt. opid = kt_opid kt) (known_transitions b) in
      if ks = [] then Err (UnrelatedTransition opid)
      else Ok \<lparr> input_map = input_map b, known_transitions = ks \<rparr>)"

record BundleDisclosure =
  bd_id :: BundleId
  bd_known_transitions :: "DiscloseHash set"

definition bundle_disclose :: "Enc \<Rightarrow> TransitionBundle \<Rightarrow> BundleDisclosure option" where
  "bundle_disclose c b =
     (let hs = map (\<lambda>kt. disclose_hash c (OpTransition (kt_transition kt))) (known_transitions b) in
      if list_all (\<lambda>x. x \<noteq> None) hs
      then Some \<lparr> bd_id = bundle_id c b, bd_known_transitions = set (map the hs) \<rparr> else None)"

section \<open>Invariant\<close>

definition bundle_ok :: "TransitionBundle \<Rightarrow> bool" where
  "bundle_ok b \<longleftrightarrow>
     omap_ok (input_map b) \<and> input_map b \<noteq> [] \<and> length (input_map b) \<le> max_u16
     \<and> known_transitions b \<noteq> [] \<and> distinct (map kt_opid (known_transitions b))
     \<and> known_transitions_opids b \<subseteq> input_map_opids b"

lemma check_opid_commitments_Ok:
  "check_opid_commitments b = Ok () \<longleftrightarrow> known_transitions_opids b \<subseteq> input_map_opids b"
  by (simp add: check_opid_commitments_def)

lemma contain_opid_iff: "known_transitions_contain_opid b opid \<longleftrightarrow> opid \<in> known_transitions_opids b"
  by (auto simp: known_transitions_contain_opid_def known_transitions_opids_def list_ex_iff)

lemma get_transition_Some:
  "get_transition b opid = Some t \<Longrightarrow> \<lparr> kt_opid = opid, kt_transition = t \<rparr> \<in> set (known_transitions b)"
  by (auto simp: get_transition_def find_Some_iff in_set_conv_nth)

lemma get_transition_None: "get_transition b opid = None \<longleftrightarrow> opid \<notin> known_transitions_opids b"
  by (auto simp: get_transition_def known_transitions_opids_def find_None_iff)

text \<open>There are never more known transitions than inputs, so a vector of inputs bounds them.\<close>

lemma known_le_inputs:
  assumes "distinct xs" "set xs \<subseteq> input_map_opids b"
  shows "length xs \<le> length (input_map b)"
proof -
  have "length xs = card (set xs)" using assms(1) by (simp add: distinct_card)
  also have "\<dots> \<le> card (input_map_opids b)"
    using assms(2) by (intro card_mono) (simp_all add: input_map_opids_def)
  also have "\<dots> \<le> length (input_map b)"
    unfolding input_map_opids_def omap_values_def by (rule order_trans [OF card_length]) simp
  finally show ?thesis .
qed

section \<open>Revealing a transition\<close>

definition reveal_position :: "TransitionBundle \<Rightarrow> OpId \<Rightarrow> nat" where
  "reveal_position b opid =
     (case child_position b opid of Some j \<Rightarrow> j | None \<Rightarrow> length (known_transitions b))"

lemma child_position_Some:
  assumes "child_position b opid = Some i"
  obtains o' child where "List.find (\<lambda>(o', _). opout_op o' = opid) (input_map b) = Some (o', child)"
    "i < length (known_transitions b)" "kt_opid (known_transitions b ! i) = child"
  using assms position_Some by (fastforce simp: child_position_def bind_eq_Some_conv)

lemma reveal_position_le: "reveal_position b opid \<le> length (known_transitions b)"
  by (auto simp: reveal_position_def split: option.splits elim: child_position_Some)

lemma vec_insert_append: "xs @ [x] = vec_insert (length xs) x xs"
  by (simp add: vec_insert_def)

lemma distinct_vec_insert: "distinct (vec_insert i x xs) \<longleftrightarrow> distinct xs \<and> x \<notin> set xs"
proof -
  have "distinct (ys @ x # zs) \<longleftrightarrow> distinct (ys @ zs) \<and> x \<notin> set (ys @ zs)" for ys zs by auto
  from this [of "take i xs" "drop i xs"] show ?thesis
    unfolding vec_insert_def append_take_drop_id .
qed

lemma map_vec_insert: "map f (vec_insert i x xs) = vec_insert i (f x) (map f xs)"
  by (simp add: vec_insert_def take_map drop_map)

text \<open>The three outcomes; the invariant makes the capacity panic impossible.\<close>

lemma reveal_transition_cases:
  assumes "bundle_ok b"
  obtains (unrelated) "tid t \<notin> input_map_opids b"
      "reveal_transition tid b t = Some (Err (UnrelatedTransition (tid t)))"
  | (known) "tid t \<in> known_transitions_opids b" "reveal_transition tid b t = Some (Ok (b, False))"
  | (added) "tid t \<in> input_map_opids b" "tid t \<notin> known_transitions_opids b"
      "reveal_transition tid b t = Some (Ok (b\<lparr> known_transitions :=
          vec_insert (reveal_position b (tid t)) \<lparr> kt_opid = tid t, kt_transition = t \<rparr>
            (known_transitions b) \<rparr>, True))"
proof -
  consider "tid t \<notin> input_map_opids b"
    | "tid t \<in> input_map_opids b" "tid t \<in> known_transitions_opids b"
    | "tid t \<in> input_map_opids b" "tid t \<notin> known_transitions_opids b" by blast
  then show ?thesis
  proof cases
    case 1
    then show ?thesis by (intro unrelated) (simp_all add: reveal_transition_def Let_def)
  next
    case 2
    then show ?thesis
      by (intro known) (simp_all add: reveal_transition_def Let_def contain_opid_iff)
  next
    case 3
    let ?ids = "tid t # map kt_opid (known_transitions b)"
    have "distinct ?ids" "set ?ids \<subseteq> input_map_opids b"
      using assms 3 by (auto simp: bundle_ok_def known_transitions_opids_def)
    then have "Suc (length (known_transitions b)) \<le> max_u16"
      using known_le_inputs [of ?ids b] assms by (simp add: bundle_ok_def)
    then show ?thesis
      using 3
      by (intro added)
         (simp_all add: reveal_transition_def Let_def contain_opid_iff reveal_position_def
           vec_insert_append split: option.splits)
  qed
qed

lemma reveal_transition_bundle_ok:
  assumes "bundle_ok b" "reveal_transition tid b t = Some (Ok (b', r))"
  shows "bundle_ok b' \<and> input_map b' = input_map b"
  using assms(1)
proof (cases rule: reveal_transition_cases [where tid = tid and t = t])
  case added
  let ?ks = "vec_insert (reveal_position b (tid t)) \<lparr> kt_opid = tid t, kt_transition = t \<rparr>
    (known_transitions b)"
  have b': "b' = b\<lparr> known_transitions := ?ks \<rparr>" using added(3) assms(2) by simp
  have "distinct (map kt_opid ?ks)" "set (map kt_opid ?ks) \<subseteq> input_map_opids b" "?ks \<noteq> []"
    using added(1,2) assms(1)
    by (auto simp: bundle_ok_def known_transitions_opids_def map_vec_insert distinct_vec_insert
        simp flip: length_greater_0_conv)
  then show ?thesis
    using assms(1)
    by (simp add: b' bundle_ok_def known_transitions_opids_def input_map_opids_def)
qed (use assms in auto)

section \<open>Order of dependent transitions\<close>

definition child_of :: "TransitionBundle \<Rightarrow> OpId \<Rightarrow> OpId \<Rightarrow> bool" where
  "child_of b parent child \<longleftrightarrow> (\<exists>(o', q) \<in> set (input_map b). opout_op o' = parent \<and> q = child)"

definition parents_first :: "TransitionBundle \<Rightarrow> bool" where
  "parents_first b \<longleftrightarrow>
     sorted_wrt (\<lambda>k k'. \<not> child_of b (kt_opid k') (kt_opid k)) (known_transitions b)"

lemma child_of_known [simp]: "child_of (b\<lparr> known_transitions := ks \<rparr>) = child_of b"
  by (simp add: child_of_def fun_eq_iff)

lemma sorted_wrt_vec_insert:
  assumes "sorted_wrt P xs" "\<forall>y \<in> set (take i xs). P y x" "\<forall>y \<in> set (drop i xs). P x y"
  shows "sorted_wrt P (vec_insert i x xs)"
proof -
  have "sorted_wrt P (take i xs @ drop i xs)" using assms(1) by simp
  then show ?thesis
    unfolding vec_insert_def sorted_wrt_append using assms(2,3) by auto
qed

lemma find_exists: "\<exists>x \<in> set xs. P x \<Longrightarrow> \<exists>y. List.find P xs = Some y \<and> P y \<and> y \<in> set xs"
  by (induction xs) auto

lemma child_of_find:
  assumes "child_of b p q"
  obtains o' r where "List.find (\<lambda>(o', _). opout_op o' = p) (input_map b) = Some (o', r)"
    "child_of b p r"
proof -
  have "\<exists>x \<in> set (input_map b). (\<lambda>(o', _). opout_op o' = p) x"
    using assms by (auto simp: child_of_def)
  then show ?thesis
    using that by (auto dest!: find_exists simp: child_of_def)
qed

text \<open>
  A revealed transition that has no known parent and at most one child is put where the order
  is kept.
\<close>

lemma reveal_transition_parents_first:
  assumes "bundle_ok b" "parents_first b" "reveal_transition tid b t = Some (Ok (b', r))"
    and one: "\<And>p q. child_of b (tid t) p \<Longrightarrow> child_of b (tid t) q \<Longrightarrow> p = q"
    and orphan: "\<And>k. k \<in> known_transitions_opids b \<Longrightarrow> \<not> child_of b k (tid t)"
  shows "parents_first b'"
  using assms(1)
proof (cases rule: reveal_transition_cases [where tid = tid and t = t])
  case added
  let ?i = "reveal_position b (tid t)"
  let ?kt = "\<lparr> kt_opid = tid t, kt_transition = t \<rparr>"
  have b': "b' = b\<lparr> known_transitions := vec_insert ?i ?kt (known_transitions b) \<rparr>"
    using added(3) assms(3) by simp
  have after: "\<not> child_of b (kt_opid k) (tid t)" if "k \<in> set (drop ?i (known_transitions b))" for k
    using that orphan in_set_dropD by (fastforce simp: known_transitions_opids_def)
  have before: "\<not> child_of b (tid t) (kt_opid k)" if k: "k \<in> set (take ?i (known_transitions b))" for k
  proof
    assume ch: "child_of b (tid t) (kt_opid k)"
    then obtain o' q where f: "List.find (\<lambda>(o', _). opout_op o' = tid t) (input_map b) = Some (o', q)"
      and "child_of b (tid t) q" by (rule child_of_find)
    then have q: "q = kt_opid k" using one ch by blast
    obtain j where j: "j < ?i" "j < length (known_transitions b)" "known_transitions b ! j = k"
      using k by (auto simp: in_set_conv_nth)
    obtain i where i: "position (\<lambda>k. kt_opid k = q) (known_transitions b) = Some i"
      using j(2,3) q position_None [of "\<lambda>k. kt_opid k = q" "known_transitions b"]
      by (metis not_None_eq nth_mem)
    then have "?i = i" by (simp add: reveal_position_def child_position_def f)
    then show False using position_Some [OF i] j q by auto
  qed
  show ?thesis
    using assms(2) before after
    unfolding parents_first_def b'
    by (auto intro!: sorted_wrt_vec_insert)
qed (use assms in auto)

end
