(* ===== verification/Operation_Properties.thy ===== *)
theory Operation_Properties
  imports Bundle
begin

text \<open>
  What schemata, seals, operations and bundles promise, stated over the source functions:
  bounds on occurrences, round trips of the textual forms, closing of seals, identifiers that
  ignore what may be concealed and bind everything else, and the invariant of a bundle.
\<close>

section \<open>Occurrences\<close>

text \<open>C26: An occurrence bound admits a count exactly when it lies between the minimum and the
  maximum the bound reports, for every 16-bit count; otherwise the error carries the two
  bounds and the count.\<close>

theorem occurrences_check_bounds:
  "check occ n =
     (if min_value occ \<le> n \<and> n \<le> max_value occ then Ok ()
      else Err \<lparr> mm_min = min_value occ, mm_max = max_value occ, mm_found = n \<rparr>)"
  by (simp add: check_def check_arm_iff)

text \<open>C27: Occurrences built from a range report that range, survive their strict encoding, and
  can be built exactly from the ranges that are neither empty nor zero.\<close>

theorem occurrences_roundtrip:
  "case occurrences_try_from a b of
     Inr occ \<Rightarrow> occurrences_encode occ = (a, b) \<and> occurrences_decode (occurrences_encode occ) = Ok occ
       \<and> a \<le> b \<and> b \<noteq> 0
   | Inl Zero \<Rightarrow> a = 0 \<and> b = 0
   | Inl MinExceedsMax \<Rightarrow> b < a"
proof (cases "occurrences_try_from a b")
  case (Inr occ)
  then show ?thesis
    using try_from_bounds [OF Inr] try_from_idem [OF Inr] try_from_Ok_iff [of a b]
    by (simp add: occurrences_encode_def)
next
  case (Inl e)
  then show ?thesis by (auto simp: occurrences_try_from_def split: if_splits)
qed

section \<open>Seals\<close>

text \<open>A textual form of transaction identifiers to instantiate the parameters with.\<close>

definition hex_print :: "Txid \<Rightarrow> string" where
  "hex_print t = print_radix 16 (unat t)"

definition hex_parse :: "string \<Rightarrow> (unit, Txid) result" where
  "hex_parse s = ok_or () (map_option word_of_nat (from_str_radix (2 ^ 256) 16 s))"

lemma hex_text_ok: "id_text_ok hex_print hex_parse t"
proof -
  have "unat t < 2 ^ 256" using unsigned_less [of t] by simp
  then have "hex_parse (hex_print t) = Ok t"
    using from_str_radix_print [of 16 "unat t" "2 ^ 256" 0]
    by (simp add: hex_parse_def hex_print_def pad_zeros_def res_simps)
  moreover have "hex_print t \<noteq> []" by (auto simp: hex_print_def print_radix.simps)
  ultimately show ?thesis
    using print_radix_chars [of 16 "unat t"] digit_not_sep
    by (auto simp: id_text_ok_def hex_print_def list_all_iff)
qed

text \<open>C24: A blind seal is read back from the string it is printed to, for every output number
  and every 64-bit blinding factor, whenever the text of its transaction identifier can be
  read back and contains no separator.\<close>

theorem blind_seal_text_roundtrip:
  assumes "id_text_ok id_print id_parse (bs_txid s)"
  shows "blind_seal_from_str id_parse (blind_seal_to_str id_print s) = Ok s"
  using assms by (rule blind_seal_str_roundtrip)

theorem blind_seal_text_roundtrip_witness:
  "id_text_ok (ptr_print hex_print) (ptr_parse hex_parse) WitnessTx
   \<and> blind_seal_from_str (ptr_parse hex_parse)
       (blind_seal_to_str (ptr_print hex_print) (with_blinded_vout 3 0xFFFFFFFFFFFFFFFF))
     = Ok (with_blinded_vout 3 0xFFFFFFFFFFFFFFFF)"
proof -
  have ok: "id_text_ok (ptr_print hex_print) (ptr_parse hex_parse) WitnessTx"
    by (rule ptr_text_ok) simp
  then show ?thesis
    using blind_seal_text_roundtrip [of "ptr_print hex_print" "ptr_parse hex_parse"
        "with_blinded_vout 3 0xFFFFFFFFFFFFFFFF"]
    by (simp add: with_blinded_vout_def with_blinding_def)
qed

text \<open>C22: A witness closes a set of seals exactly when every seal is defined and spent by an
  input of the witness transaction and the commitment proof of the witness verifies the
  message against that transaction.  For a non-empty set this is the same as closing each of
  the seals.\<close>

theorem verify_many_seals_spec:
  "(verify_many_seals pv w seals msg = Ok () \<longleftrightarrow>
     list_all (\<lambda>s. case s of None \<Rightarrow> False
       | Some p \<Rightarrow> list_ex (\<lambda>i. previous_output i = p) (tx_input (sw_tx w))) seals
     \<and> pv (sw_proof w) msg (sw_tx w) = Ok ())
   \<and> (verify_many_seals pv w (s # seals) msg = Ok () \<longleftrightarrow>
        list_all (\<lambda>s. verify_seal pv w s msg = Ok ()) (s # seals))"
proof
  show "verify_many_seals pv w seals msg = Ok () \<longleftrightarrow>
     list_all (\<lambda>s. case s of None \<Rightarrow> False
       | Some p \<Rightarrow> list_ex (\<lambda>i. previous_output i = p) (tx_input (sw_tx w))) seals
     \<and> pv (sw_proof w) msg (sw_tx w) = Ok ()"
    unfolding verify_many_seals_Ok list_all_iff list_ex_iff
    by (intro conj_cong ball_cong refl) (auto split: option.splits)
qed (simp add: verify_many_seals_all list_all_iff)

text \<open>C23: Resolving a graph seal against its witness transaction gives the outpoint the seal
  itself names or, for a witness-relative seal, the output of the witness; the output seal,
  the genesis form and the seal rebuilt from a genesis seal all agree on it.\<close>

theorem graph_seal_resolution:
  "explicit_to_outpoint (graph_to_output_seal_or_default s w) = to_outpoint (resolve s w)
   \<and> graph_with_witness_id s (Some w) = Some (resolve s w)
   \<and> to_outpoint (resolve s w) =
       outpoint_new (case bs_txid s of WitnessTx \<Rightarrow> w | PtrTxid t \<Rightarrow> t) (bs_vout s)
   \<and> resolve (transmutate g) w = g"
  using ptr_seal.output_seal_or_default_outpoint [of s w]
  by (simp add: resolve_outpoint graph_with_witness_id_resolve bs_outpoint_or_def ptr_txid_or_law
      split: TxPtr.splits)

section \<open>Operations\<close>

text \<open>C25: An operation output is read back from its string form \<open>opid/type/number\<close>, whenever
  the text of its operation identifier can be read back and contains no slash.\<close>

theorem opout_text_roundtrip:
  assumes "opid_parse (opid_print (opout_op p)) = Ok (opout_op p)"
    and "CHR ''/'' \<notin> set (opid_print (opout_op p))"
  shows "opout_from_str opid_parse (opout_to_str opid_print p) = Ok p"
  using assms by (rule opout_str_roundtrip)

theorem opout_text_roundtrip_witness:
  "hex_parse (hex_print 255) = Ok 255 \<and> CHR ''/'' \<notin> set (hex_print 255)
   \<and> opout_from_str hex_parse (opout_to_str hex_print (Opout 255 4000 7)) = Ok (Opout 255 4000 7)"
proof -
  have a: "hex_parse (hex_print 255) = Ok 255" using hex_text_ok [of 255] by (simp add: id_text_ok_def)
  have b: "CHR ''/'' \<notin> set (hex_print 255)"
    using print_radix_chars [of 16 255] by (auto simp: hex_print_def list_all_iff is_digit_char_def)
  show ?thesis using a b opout_text_roundtrip [of hex_parse hex_print "Opout 255 4000 7"] by simp
qed

text \<open>C28: Adding a value to the global state keeps the size bounds of its confined
  collections, appends to the values of its type and leaves all other types alone; extending by
  a non-empty list is the same as adding its values one by one.  It fails only when a
  collection is full.\<close>

theorem add_state_spec:
  assumes "global_state_ok gs"
  shows "case add_state gs ty st of
      Inr gs' \<Rightarrow> global_state_ok gs'
        \<and> omap_get gs' = (omap_get gs)(ty \<mapsto> (case omap_get gs ty of None \<Rightarrow> [] | Some v \<Rightarrow> v) @ [st])
    | Inl e \<Rightarrow> e = Oversize \<and>
        (case omap_get gs ty of None \<Rightarrow> length gs = max_u8 | Some v \<Rightarrow> length v = max_u16)"
proof (cases "add_state gs ty st")
  case (Inr gs')
  then show ?thesis
    using add_state_ok [OF assms Inr] add_state_get [OF _ Inr] assms by (simp add: global_state_ok_def)
next
  case (Inl e)
  show ?thesis
  proof (cases "omap_get gs ty")
    case None
    then show ?thesis
      using Inl assms by (auto simp: add_state_def global_state_ok_def split: if_splits)
  next
    case (Some v)
    then have "length v \<le> max_u16"
      using assms omap_get_value [OF Some] by (auto simp: global_state_ok_def global_values_ok_def)
    then show ?thesis using Inl Some by (auto simp: add_state_def split: if_splits)
  qed
qed

theorem add_state_spec_witness:
  "global_state_ok [(2, [[1]])] \<and> add_state [(2, [[1]])] 2 [9] = Ok [(2, [[1], [9]])]
   \<and> global_state_ok [(2, [[1], [9]])]"
proof -
  have a: "global_state_ok [(2, [[1]])]"
    by (simp add: global_state_ok_def global_values_ok_def omap_ok_def)
  have b: "add_state [(2, [[1]])] 2 [9] = Ok [(2, [[1], [9]])]"
    by (simp add: add_state_def)
  show ?thesis using add_state_spec [OF a, of 2 "[9]"] a b by simp
qed

section \<open>Identifiers\<close>

text \<open>Encodings to instantiate the parameters with: the identifier of an operation reads its
  nonce and transition type, every other encoding is empty.\<close>

definition demo_enc :: Enc where
  "demo_enc =
     \<lparr> sha256 = (\<lambda>bs. word_of_nat (sum_list (map unat bs))), enc_type = (\<lambda>_. []), enc_value = (\<lambda>_. []),
       enc_data = (\<lambda>_. []), enc_hash = (\<lambda>_. []), enc_node = (\<lambda>_. []), enc_opout = (\<lambda>_. []),
       enc_metadata = (\<lambda>_. []), enc_identity = (\<lambda>_. []),
       enc_op_commitment = (\<lambda>oc. [ucast (oc_nonce oc)]), enc_input_map = (\<lambda>_. []),
       enc_graph_seal = (\<lambda>s. [ucast (bs_vout s)]), enc_genesis_seal = (\<lambda>_. []),
       enc_op_disclose = (\<lambda>_. []), type_fqn = (\<lambda>n. ([], n)) \<rparr>"

definition demo_transition :: "u64 \<Rightarrow> Transition" where
  "demo_transition n =
     \<lparr> t_ffv = 0, t_contract_id = 1, t_nonce = n, t_transition_type = 10000, t_metadata = [],
       t_globals = [], t_inputs = [Opout 1 4000 0],
       t_assignments = [(4000, FungibleAssigns [ConfidentialSeal 77 (Bits64 5)])], t_signature = None \<rparr>"

lemma demo_transition_ok: "transition_ok (demo_transition n)"
  by (simp add: transition_ok_def demo_transition_def inputs_ok_def assignments_ok_def
      global_state_ok_def omap_ok_def)

text \<open>C19: Every transition within the bounds of its confined collections has an identifier: the
  Merkle trees over its global state, inputs and assignments never exceed the depth counter or
  the leaf limit.\<close>

theorem transition_has_id:
  assumes "transition_ok t"
  shows "\<exists>i. transition_id c t = Some i"
  using assms by (rule transition_id_total)

theorem transition_has_id_witness:
  "transition_ok (demo_transition 3) \<and> (\<exists>i. transition_id demo_enc (demo_transition 3) = Some i)"
  using transition_has_id [OF demo_transition_ok] demo_transition_ok by blast

text \<open>C18: What a party may conceal or learn does not change an identifier: revealing seals,
  concealing them and signing leave the identifier of a transition unchanged.\<close>

theorem transition_id_invariant:
  "transition_id c (transition_reveal_seal c seal t) = transition_id c t
   \<and> transition_id c (t\<lparr> t_assignments :=
        map (\<lambda>(k, ta). (k, ta_conceal (graph_secret c) ta)) (t_assignments t) \<rparr>) = transition_id c t
   \<and> transition_id c (t\<lparr> t_signature := sig \<rparr>) = transition_id c t"
  by (intro conjI; rule transition_id_assignments)
     (simp_all add: transition_reveal_seal_def assignments_leaves_map)

text \<open>C17: An identifier binds everything else.  Two transitions with the same identifier agree
  in version, nonce, contract, type, metadata, global state, inputs and in the type, state and
  concealed seal of every assignment, unless hashing the two met a collision among the values
  \<open>id_collision\<close> lists.\<close>

theorem transition_id_binds:
  assumes "transition_id c t = Some i" "transition_id c t' = Some i"
  shows "id_collision c t t'
    \<or> (t_ffv t = t_ffv t' \<and> t_nonce t = t_nonce t' \<and> t_contract_id t = t_contract_id t'
       \<and> t_transition_type t = t_transition_type t' \<and> t_metadata t = t_metadata t'
       \<and> global_leaves (t_globals t) = global_leaves (t_globals t') \<and> t_inputs t = t_inputs t'
       \<and> assignments_leaves (graph_secret c) (t_assignments t)
          = assignments_leaves (graph_secret c) (t_assignments t'))"
  using transition_id_binding [OF assms] by blast

theorem transition_id_binds_witness:
  "\<exists>i. transition_id demo_enc (demo_transition 3) = Some i
    \<and> transition_id demo_enc (demo_transition 3 \<lparr> t_signature := Some [1] \<rparr>) = Some i
    \<and> (id_collision demo_enc (demo_transition 3) (demo_transition 3 \<lparr> t_signature := Some [1] \<rparr>)
       \<or> t_inputs (demo_transition 3) = t_inputs (demo_transition 3 \<lparr> t_signature := Some [1] \<rparr>))"
proof -
  obtain i where i: "transition_id demo_enc (demo_transition 3) = Some i"
    using transition_id_total [OF demo_transition_ok] by blast
  have "transition_id demo_enc (demo_transition 3 \<lparr> t_signature := Some [1] \<rparr>) = Some i"
    using i transition_id_assignments [of demo_enc "demo_transition 3 \<lparr> t_signature := Some [1] \<rparr>"
        "demo_transition 3"] by simp
  then show ?thesis using transition_id_binds [OF i] i by auto
qed

section \<open>Bundles\<close>

text \<open>C20: Revealing a transition in a bundle never panics and never changes the identifier of
  the bundle.  It is refused exactly when the input map of the bundle does not name the
  transition; otherwise the bundle keeps its invariant, the transition is known afterwards, no
  other transition appears or disappears, and the flag tells whether it is new.\<close>

theorem reveal_transition_spec:
  assumes "bundle_ok b"
  shows "\<exists>r. reveal_transition tid b t = Some r \<and>
    (case r of
       Inl (UnrelatedTransition i) \<Rightarrow> i = tid t \<and> tid t \<notin> input_map_opids b
     | Inr (b', added) \<Rightarrow> bundle_ok b' \<and> bundle_id c b' = bundle_id c b \<and> tid t \<in> input_map_opids b
         \<and> added = (tid t \<notin> known_transitions_opids b)
         \<and> set (known_transitions b') =
             (if added then insert \<lparr> kt_opid = tid t, kt_transition = t \<rparr> (set (known_transitions b))
              else set (known_transitions b)))"
  using assms
proof (cases rule: reveal_transition_cases [where tid = tid and t = t])
  case unrelated
  then show ?thesis by simp
next
  case known
  then show ?thesis using assms by (auto simp: bundle_ok_def)
next
  case added
  let ?b = "b\<lparr> known_transitions := vec_insert (reveal_position b (tid t))
    \<lparr> kt_opid = tid t, kt_transition = t \<rparr> (known_transitions b) \<rparr>"
  have "bundle_ok ?b" using reveal_transition_bundle_ok [OF assms added(3)] by simp
  then show ?thesis using added by (simp add: bundle_id_def)
qed

definition demo_bundle :: TransitionBundle where
  "demo_bundle =
     \<lparr> input_map = [(Opout 1 4000 0, 7), (Opout 2 4000 0, 8), (Opout 7 4000 0, 9), (Opout 7 4000 1, 8)],
       known_transitions = [\<lparr> kt_opid = 8, kt_transition = demo_transition 8 \<rparr>,
                            \<lparr> kt_opid = 9, kt_transition = demo_transition 9 \<rparr>] \<rparr>"

lemma demo_bundle_ok: "bundle_ok demo_bundle"
  by (simp add: bundle_ok_def demo_bundle_def omap_ok_def less_Opout_def known_transitions_opids_def
      input_map_opids_def omap_values_def)

theorem reveal_transition_spec_witness:
  "bundle_ok demo_bundle
   \<and> (\<exists>b'. reveal_transition (\<lambda>t. ucast (t_nonce t)) demo_bundle (demo_transition 7) = Some (Ok (b', True))
        \<and> bundle_ok b' \<and> bundle_id demo_enc b' = bundle_id demo_enc demo_bundle)"
proof -
  let ?tid = "\<lambda>t. ucast (t_nonce t) :: OpId"
  have i: "?tid (demo_transition 7) = 7" by (simp add: demo_transition_def)
  obtain r where r: "reveal_transition ?tid demo_bundle (demo_transition 7) = Some r"
    "case r of Inl (UnrelatedTransition i) \<Rightarrow> i = 7 \<and> 7 \<notin> input_map_opids demo_bundle
     | Inr (b', added) \<Rightarrow> bundle_ok b' \<and> bundle_id demo_enc b' = bundle_id demo_enc demo_bundle
         \<and> added = (7 \<notin> known_transitions_opids demo_bundle)"
    using reveal_transition_spec [OF demo_bundle_ok, of ?tid "demo_transition 7" demo_enc]
    unfolding i
  proof (elim exE conjE, goal_cases)
    case (1 r)
    then show ?thesis using that [of r] by (cases r) (auto split: UnrelatedTransition.splits)
  qed
  have "7 \<in> input_map_opids demo_bundle" "7 \<notin> known_transitions_opids demo_bundle"
    by (simp_all add: input_map_opids_def known_transitions_opids_def demo_bundle_def omap_values_def)
  then show ?thesis
    using r demo_bundle_ok by (cases r) (auto split: UnrelatedTransition.splits)
qed


end
