(* ===== verification/Mpc_Tree.thy ===== *)
theory Mpc_Tree
  imports Merkle
begin

text \<open>
  Multi-protocol commitment trees (\<open>rgb-consensus/src/commit_verify/mpc/\<close>: \<open>atoms.rs\<close>,
  \<open>tree.rs\<close>).  A tree of \<open>2\<^sup>depth\<close> leaves carries one message per protocol at the position
  the protocol id determines; every other leaf is a placeholder made from the entropy.  Depth
  (five bits), positions and widths (\<open>u32\<close>) and the cofactor (\<open>u16\<close>) are natural numbers: the
  lemmas bound them below \<open>2\<^sup>31\<close>, so no operation on them wraps.  \<open>saturating_sub\<close> is the
  subtraction of natural numbers.  The hash of a leaf is the parameter \<open>lh\<close>, that of a node \<open>h\<close>.
\<close>

section \<open>Atoms\<close>

type_synonym ProtocolId = bytes32
type_synonym Message = bytes32
type_synonym Commitment = bytes32
type_synonym MessageMap = "(ProtocolId, Message) omap"

definition MPC_MINIMAL_DEPTH :: nat where
  "MPC_MINIMAL_DEPTH = 3"

datatype Leaf =
    Inhabited ProtocolId Message
  | Entropy u64 nat

record MultiSource =
  min_depth :: nat
  messages :: MessageMap
  static_entropy :: "u64 option"

definition multi_source_default :: MultiSource where
  "multi_source_default =
     \<lparr> min_depth = MPC_MINIMAL_DEPTH, messages = [], static_entropy = None \<rparr>"

definition with_static_entropy :: "u64 \<Rightarrow> MultiSource" where
  "with_static_entropy e = multi_source_default\<lparr> static_entropy := Some e \<rparr>"

section \<open>Positions\<close>

definition COFACTOR_ATTEMPTS :: nat where
  "COFACTOR_ATTEMPTS = 500"

text \<open>\<open>u256::from_le_bytes\<close> of the identifier, whose bytes are listed most significant first.\<close>

definition id_bytes :: "bytes32 \<Rightarrow> nat list" where
  "id_bytes w = map (\<lambda>i. unat w div 256 ^ (31 - i) mod 256) [0..<32]"

primrec le_bytes_nat :: "nat list \<Rightarrow> nat" where
  "le_bytes_nat [] = 0"
| "le_bytes_nat (b # bs) = b + 256 * le_bytes_nat bs"

definition protocol_id_pos :: "ProtocolId \<Rightarrow> nat \<Rightarrow> nat \<Rightarrow> nat" where
  "protocol_id_pos pid cofactor depth =
     (let width = 2 ^ depth in le_bytes_nat (id_bytes pid) mod max (width - cofactor) 1)"

lemma protocol_id_pos_less: "protocol_id_pos pid cofactor depth < 2 ^ depth"
proof -
  have "protocol_id_pos pid cofactor depth < max (2 ^ depth - cofactor) 1"
    unfolding protocol_id_pos_def Let_def by (intro mod_less_divisor) simp
  also have "\<dots> \<le> 2 ^ depth" by simp
  finally show ?thesis .
qed

section \<open>Trees\<close>

type_synonym OrderedMap = "(nat, ProtocolId \<times> Message) omap"

record MerkleTree =
  tree_depth :: nat
  tree_entropy :: u64
  tree_cofactor :: nat
  tree_messages :: MessageMap
  tree_map :: OrderedMap

datatype MpcError =
    MpcEmpty
  | TooManyMessages nat
  | CantFitInMaxSlots nat

definition tree_width_limit :: "MerkleTree \<Rightarrow> nat" where
  "tree_width_limit t = 2 ^ tree_depth t"

definition tree_factored_width :: "MerkleTree \<Rightarrow> nat" where
  "tree_factored_width t = tree_width_limit t - tree_cofactor t"

definition tree_protocol_id_pos :: "MerkleTree \<Rightarrow> ProtocolId \<Rightarrow> nat" where
  "tree_protocol_id_pos t pid = protocol_id_pos pid (tree_cofactor t) (tree_depth t)"

text \<open>
  One attempt: insert every message at its position, giving up at the first position that is
  taken (\<open>iter().all\<close> with \<open>insert(..).is_none()\<close>).
\<close>

fun place_messages :: "nat \<Rightarrow> nat \<Rightarrow> MessageMap \<Rightarrow> OrderedMap \<Rightarrow> OrderedMap option" where
  "place_messages cofactor depth [] m = Some m"
| "place_messages cofactor depth ((p, msg) # ms) m =
     (let pos = protocol_id_pos p cofactor depth in
      if omap_contains m pos then None
      else place_messages cofactor depth ms (omap_insert pos (p, msg) m))"

fun try_cofactors :: "nat list \<Rightarrow> nat \<Rightarrow> MessageMap \<Rightarrow> (nat \<times> OrderedMap) option" where
  "try_cofactors [] depth ms = None"
| "try_cofactors (cf # cfs) depth ms =
     (case place_messages cf depth ms [] of
        Some m \<Rightarrow> Some (cf, m)
      | None \<Rightarrow> try_cofactors cfs depth ms)"

text \<open>
  The search loop: cofactors up to the previous width (at most 500) at the current depth, then
  one level deeper; there is no depth after 31.
\<close>

function try_depths :: "MessageMap \<Rightarrow> u64 \<Rightarrow> nat \<Rightarrow> nat \<Rightarrow> (MpcError, MerkleTree) result" where
  "try_depths ms entropy depth prev_width =
     (let width_limit = 2 ^ depth;
          found = (if width_limit \<ge> length ms
                   then try_cofactors [0..<Suc (min prev_width COFACTOR_ATTEMPTS)] depth ms
                   else None)
      in case found of
           Some (cf, m) \<Rightarrow>
             Ok \<lparr> tree_depth = depth, tree_entropy = entropy, tree_cofactor = cf,
                  tree_messages = ms, tree_map = m \<rparr>
         | None \<Rightarrow>
             if depth < 31 then try_depths ms entropy (Suc depth) width_limit
             else Err (CantFitInMaxSlots (length ms)))"
  by pat_completeness auto
termination
  by (relation "measure (\<lambda>(_, _, d, _). 31 - d)") auto

declare try_depths.simps [simp del]

definition try_commit :: "u64 \<Rightarrow> MultiSource \<Rightarrow> (MpcError, MerkleTree) result" where
  "try_commit rng source =
     (let msg_count = length (messages source) in
      if min_depth source = 0 \<and> messages source = [] then Err MpcEmpty
      else if msg_count > 2 ^ 31 then Err (TooManyMessages msg_count)
      else
        (let entropy = (case static_entropy source of Some e \<Rightarrow> e | None \<Rightarrow> rng) in
         try_depths (messages source) entropy (min_depth source) 1))"

definition tree_leaf :: "MerkleTree \<Rightarrow> nat \<Rightarrow> Leaf" where
  "tree_leaf t pos =
     (case omap_get (tree_map t) pos of
        Some (p, msg) \<Rightarrow> Inhabited p msg
      | None \<Rightarrow> Entropy (tree_entropy t) pos)"

definition tree_root :: "(MerkleNode \<Rightarrow> MerkleHash) \<Rightarrow> (Leaf \<Rightarrow> MerkleHash) \<Rightarrow> MerkleTree \<Rightarrow> MerkleHash option"
where
  "tree_root h lh t = merklize h (map (\<lambda>pos. lh (tree_leaf t pos)) [0..<tree_width_limit t])"

section \<open>Invariant\<close>

definition tree_ok :: "MerkleTree \<Rightarrow> bool" where
  "tree_ok t \<longleftrightarrow>
     tree_depth t \<le> 31 \<and> omap_ok (tree_messages t) \<and> omap_ok (tree_map t)
     \<and> tree_cofactor t \<le> COFACTOR_ATTEMPTS
     \<and> (\<forall>pos p msg. omap_get (tree_map t) pos = Some (p, msg) \<longleftrightarrow>
          omap_get (tree_messages t) p = Some msg \<and> pos = tree_protocol_id_pos t p)"

subsection \<open>Placing the messages\<close>

lemma place_messages_ok:
  "omap_ok m \<Longrightarrow> place_messages cf d ms m = Some m' \<Longrightarrow> omap_ok m'"
  by (induction cf d ms m arbitrary: m' rule: place_messages.induct)
     (auto simp: Let_def split: if_splits)

lemma not_omap_contains: "\<not> omap_contains m k \<longleftrightarrow> omap_get m k = None"
  unfolding omap_contains_def not_not ..

lemma place_messages_Cons:
  "place_messages cf d ((p, msg) # ms) m = Some m' \<longleftrightarrow>
     omap_get m (protocol_id_pos p cf d) = None
     \<and> place_messages cf d ms (omap_insert (protocol_id_pos p cf d) (p, msg) m) = Some m'"
  by (simp add: Let_def flip: not_omap_contains)

lemma place_messages_get:
  assumes "place_messages cf d ms m = Some m'" "omap_ok m"
  shows "omap_get m' pos = Some x \<longleftrightarrow>
    omap_get m pos = Some x \<or> x \<in> set ms \<and> pos = protocol_id_pos (fst x) cf d"
  using assms
proof (induction cf d ms m arbitrary: m' rule: place_messages.induct)
  case (2 cf d p msg ms m)
  let ?pos = "protocol_id_pos p cf d"
  have free: "omap_get m ?pos = None" and
    rest: "place_messages cf d ms (omap_insert ?pos (p, msg) m) = Some m'"
    using "2.prems"(1) unfolding place_messages_Cons by blast+
  show ?case
    using "2.IH" [OF refl _ rest] "2.prems"(2) free by (auto simp: omap_contains_def)
qed simp

text \<open>An attempt succeeds exactly when no two messages meet at a position.\<close>

lemma place_messages_Some_iff:
  assumes "omap_ok m"
  shows "(\<exists>m'. place_messages cf d ms m = Some m') \<longleftrightarrow>
    distinct (map (\<lambda>x. protocol_id_pos (fst x) cf d) ms)
    \<and> (\<forall>x \<in> set ms. omap_get m (protocol_id_pos (fst x) cf d) = None)"
  using assms
proof (induction cf d ms m rule: place_messages.induct)
  case (2 cf d p msg ms m)
  let ?f = "\<lambda>x :: ProtocolId \<times> Message. protocol_id_pos (fst x) cf d"
  let ?pos = "protocol_id_pos p cf d"
  show ?case
  proof (cases "omap_contains m ?pos")
    case True
    then show ?thesis by (simp add: omap_contains_def)
  next
    case False
    then have free: "omap_get m ?pos = None" by (simp only: not_omap_contains)
    have "(\<exists>m'. place_messages cf d ms (omap_insert ?pos (p, msg) m) = Some m') \<longleftrightarrow>
        distinct (map ?f ms) \<and> (\<forall>x \<in> set ms. ?f x \<noteq> ?pos \<and> omap_get m (?f x) = None)"
      using "2.IH" [OF refl False] "2.prems" by (simp cong: conj_cong)
    then show ?thesis
      unfolding place_messages_Cons using free by (simp add: image_iff) metis
  qed
qed simp

lemma try_cofactors_Some:
  "try_cofactors cfs d ms = Some (cf, m) \<Longrightarrow> cf \<in> set cfs \<and> place_messages cf d ms [] = Some m"
  by (induction cfs) (auto split: option.splits)

lemma try_cofactors_None:
  "try_cofactors cfs d ms = None \<longleftrightarrow> (\<forall>cf \<in> set cfs. place_messages cf d ms [] = None)"
  by (induction cfs) (auto split: option.splits)

subsection \<open>Committing\<close>

lemma try_depths_Ok:
  assumes "try_depths ms e d pw = Ok t" "d \<le> 31"
  shows "d \<le> tree_depth t \<and> tree_depth t \<le> 31 \<and> tree_entropy t = e \<and> tree_messages t = ms
    \<and> tree_cofactor t \<le> COFACTOR_ATTEMPTS
    \<and> place_messages (tree_cofactor t) (tree_depth t) ms [] = Some (tree_map t)"
  using assms
proof (induction ms e d pw rule: try_depths.induct)
  case (1 ms e d pw)
  let ?found = "if 2 ^ d \<ge> length ms
      then try_cofactors [0..<Suc (min pw COFACTOR_ATTEMPTS)] d ms else None"
  show ?case
  proof (cases ?found)
    case (Some x)
    obtain cf m where x: "x = (cf, m)" by (cases x)
    then have "cf \<le> COFACTOR_ATTEMPTS" "place_messages cf d ms [] = Some m"
      using Some by (auto split: if_splits dest!: try_cofactors_Some)
    moreover have "t = \<lparr> tree_depth = d, tree_entropy = e, tree_cofactor = cf,
        tree_messages = ms, tree_map = m \<rparr>"
      using "1.prems"(1) Some x by (subst (asm) try_depths.simps) (simp add: Let_def split: if_splits)
    ultimately show ?thesis using "1.prems"(2) by simp
  next
    case None
    then have rec: "d < 31" "try_depths ms e (Suc d) (2 ^ d) = Ok t"
      using "1.prems"(1) by (subst (asm) try_depths.simps, simp add: Let_def split: if_splits)+
    then show ?thesis
      using "1.IH" [OF refl refl None] by simp
  qed
qed

lemma try_commit_tree_ok:
  assumes "try_commit rng src = Ok t" "omap_ok (messages src)" "min_depth src \<le> 31"
  shows "tree_ok t \<and> tree_messages t = messages src \<and> min_depth src \<le> tree_depth t"
proof -
  let ?e = "case static_entropy src of Some e \<Rightarrow> e | None \<Rightarrow> rng"
  have "try_depths (messages src) ?e (min_depth src) 1 = Ok t"
    using assms(1) by (auto simp: try_commit_def Let_def split: if_splits)
  note t = try_depths_Ok [OF this assms(3)]
  then have pm: "place_messages (tree_cofactor t) (tree_depth t) (tree_messages t) [] = Some (tree_map t)"
    by simp
  show ?thesis
    using t assms(2) place_messages_get [OF pm] place_messages_ok [OF _ pm]
    by (auto simp: tree_ok_def tree_protocol_id_pos_def omap_get_iff)
qed

text \<open>Failure to fit means that every depth and cofactor tried has a clash.\<close>

lemma try_depths_Err:
  assumes "try_depths ms e d pw = Err err" "d \<le> 31"
  shows "err = CantFitInMaxSlots (length ms) \<and>
    (\<forall>k. d \<le> k \<and> k \<le> 31 \<and> length ms \<le> 2 ^ k \<longrightarrow> place_messages 0 k ms [] = None)"
  using assms
proof (induction ms e d pw rule: try_depths.induct)
  case (1 ms e d pw)
  let ?found = "if 2 ^ d \<ge> length ms
      then try_cofactors [0..<Suc (min pw COFACTOR_ATTEMPTS)] d ms else None"
  have none: "?found = None"
    using "1.prems"(1) by (subst (asm) try_depths.simps) (auto simp: Let_def split: option.splits)
  then have here: "length ms \<le> 2 ^ d \<Longrightarrow> place_messages 0 d ms [] = None"
    by (simp add: try_cofactors_None del: upt_Suc)
  show ?case
  proof (cases "d < 31")
    case True
    then have "try_depths ms e (Suc d) (2 ^ d) = Err err"
      using "1.prems"(1) none by (subst (asm) try_depths.simps) (simp add: Let_def)
    then show ?thesis
      using "1.IH" [OF refl refl none True] True here by (metis Suc_leI le_antisym not_less_eq_eq)
  next
    case False
    then have "err = CantFitInMaxSlots (length ms)" "d = 31"
      using "1.prems" none by (subst (asm) try_depths.simps, simp_all add: Let_def)
    then show ?thesis using here by auto
  qed
qed

lemma tree_root_total:
  assumes "tree_ok t"
  shows "\<exists>r. tree_root h lh t = Some r"
proof -
  have "(2::nat) ^ tree_depth t \<le> 2 ^ 31"
    using assms by (intro power_increasing) (auto simp: tree_ok_def)
  then show ?thesis
    unfolding tree_root_def tree_width_limit_def by (intro merklize_total) simp
qed

end
