(* ===== verification/Mpc_Block.thy ===== *)
theory Mpc_Block
  imports Mpc_Tree
begin

text \<open>
  Partially concealed commitment trees and inclusion proofs
  (\<open>rgb-consensus/src/commit_verify/mpc/block.rs\<close>).  A block is a cross-section of the tree:
  from left to right, revealed leaves and hashes of concealed subtrees with their depth.
  \<open>conceal_except\<close> hides leaves and then aggregates neighbouring hashes that are siblings,
  pass after pass, until a pass changes nothing; concealing everything leaves the root.  An
  inclusion proof is the list of hashes on the path.  A panic of the code (subtraction below
  zero on \<open>u5\<close>, \<open>u5::with\<close> above 31, \<open>expect\<close>, \<open>assert\<close>) is the value \<open>None\<close>.
\<close>

section \<open>Blocks and proofs\<close>

datatype TreeNode =
    ConcealedNode nat MerkleHash
  | CommitmentLeaf ProtocolId Message

datatype LeafNotKnown = LeafNotKnown ProtocolId

record InvalidProof =
  ip_protocol_id :: ProtocolId
  ip_expected :: nat
  ip_actual :: nat
  ip_width :: nat

datatype MergeError =
    MergeInvalidProof InvalidProof
  | UnrelatedBlocks Commitment Commitment

record MerkleConcealed =
  mc_depth :: nat
  mc_cofactor :: nat
  merkle_root :: MerkleHash

record MerkleBlock =
  mb_depth :: nat
  mb_cofactor :: nat
  cross_section :: "TreeNode list"
  mb_entropy :: "u64 option"

record MerkleProof =
  mp_pos :: nat
  mp_cofactor :: nat
  mp_path :: "MerkleHash list"

fun node_depth_of :: "TreeNode \<Rightarrow> nat option" where
  "node_depth_of (ConcealedNode d _) = Some d"
| "node_depth_of (CommitmentLeaf _ _) = None"

definition depth_or :: "TreeNode \<Rightarrow> nat \<Rightarrow> nat" where
  "depth_or n D = (case node_depth_of n of Some d \<Rightarrow> d | None \<Rightarrow> D)"

fun is_leaf :: "TreeNode \<Rightarrow> bool" where
  "is_leaf (CommitmentLeaf _ _) = True"
| "is_leaf (ConcealedNode _ _) = False"

fun to_merkle_node :: "(Leaf \<Rightarrow> MerkleHash) \<Rightarrow> TreeNode \<Rightarrow> MerkleHash" where
  "to_merkle_node lh (ConcealedNode _ x) = x"
| "to_merkle_node lh (CommitmentLeaf p m) = lh (Inhabited p m)"

definition tree_node_with ::
  "(MerkleNode \<Rightarrow> MerkleHash) \<Rightarrow> MerkleHash \<Rightarrow> MerkleHash \<Rightarrow> nat \<Rightarrow> nat \<Rightarrow> TreeNode" where
  "tree_node_with h h1 h2 depth width = ConcealedNode depth (mh_branches h depth width h1 h2)"

definition block_width_limit :: "MerkleBlock \<Rightarrow> nat" where
  "block_width_limit b = 2 ^ mb_depth b"

definition block_protocol_id_pos :: "MerkleBlock \<Rightarrow> ProtocolId \<Rightarrow> nat" where
  "block_protocol_id_pos b pid = protocol_id_pos pid (mb_cofactor b) (mb_depth b)"

definition proof_width_limit :: "MerkleProof \<Rightarrow> nat" where
  "proof_width_limit p = 2 ^ length (mp_path p)"

section \<open>From a tree\<close>

definition tree_cross_node :: "(Leaf \<Rightarrow> MerkleHash) \<Rightarrow> MerkleTree \<Rightarrow> nat \<Rightarrow> TreeNode" where
  "tree_cross_node lh t i =
     (case omap_get (tree_map t) i of
        Some (p, msg) \<Rightarrow> CommitmentLeaf p msg
      | None \<Rightarrow> ConcealedNode (tree_depth t) (lh (Entropy (tree_entropy t) i)))"

definition block_of_tree :: "(Leaf \<Rightarrow> MerkleHash) \<Rightarrow> MerkleTree \<Rightarrow> MerkleBlock" where
  "block_of_tree lh t =
     \<lparr> mb_depth = tree_depth t, mb_cofactor = tree_cofactor t,
       cross_section = map (tree_cross_node lh t) [0..<tree_width_limit t],
       mb_entropy = Some (tree_entropy t) \<rparr>"

section \<open>From a proof\<close>

text \<open>The loop of \<open>MerkleBlock::with\<close>: nodes left of the path and, innermost last, right of it.\<close>

fun with_path :: "nat \<Rightarrow> nat \<Rightarrow> nat \<Rightarrow> MerkleHash list \<Rightarrow> TreeNode list \<times> TreeNode list" where
  "with_path i width depth [] = ([], [])"
| "with_path i width depth (x # xs) =
     (if i \<ge> width div 2 then
        (let (dir, rv) = with_path (i - width div 2) (width div 2) (Suc depth) xs
         in (ConcealedNode (Suc depth) x # dir, rv))
      else
        (let (dir, rv) = with_path i (width div 2) (Suc depth) xs
         in (dir, ConcealedNode (Suc depth) x # rv)))"

definition block_with ::
  "MerkleProof \<Rightarrow> ProtocolId \<Rightarrow> Message \<Rightarrow> (InvalidProof, MerkleBlock) result option" where
  "block_with prf pid msg =
     (if length (mp_path prf) > 31 then None
      else
        (let width = proof_width_limit prf;
             expected = protocol_id_pos pid (mp_cofactor prf) (length (mp_path prf))
         in if expected \<noteq> mp_pos prf
            then Some (Err \<lparr> ip_protocol_id = pid, ip_expected = expected,
                             ip_actual = mp_pos prf, ip_width = width \<rparr>)
            else
              (let (dir, rv) = with_path (mp_pos prf) width 0 (mp_path prf)
               in Some (Ok \<lparr> mb_depth = length (mp_path prf), mb_cofactor = mp_cofactor prf,
                             cross_section = dir @ CommitmentLeaf pid msg # rev rv,
                             mb_entropy = None \<rparr>))))"

section \<open>Concealing\<close>

text \<open>First loop of \<open>conceal_except\<close>.\<close>

fun conceal_node :: "(Leaf \<Rightarrow> MerkleHash) \<Rightarrow> nat \<Rightarrow> ProtocolId list \<Rightarrow> TreeNode \<Rightarrow> TreeNode" where
  "conceal_node lh depth ps (ConcealedNode d x) = ConcealedNode d x"
| "conceal_node lh depth ps (CommitmentLeaf p m) =
     (if p \<in> set ps then CommitmentLeaf p m
      else ConcealedNode depth (to_merkle_node lh (CommitmentLeaf p m)))"

fun hidden_leaf :: "ProtocolId list \<Rightarrow> TreeNode \<Rightarrow> bool" where
  "hidden_leaf ps (CommitmentLeaf p m) = (p \<notin> set ps)"
| "hidden_leaf ps (ConcealedNode d x) = False"

fun leaf_protocols :: "TreeNode list \<Rightarrow> ProtocolId set" where
  "leaf_protocols [] = {}"
| "leaf_protocols (ConcealedNode _ _ # ns) = leaf_protocols ns"
| "leaf_protocols (CommitmentLeaf p _ # ns) = insert p (leaf_protocols ns)"

text \<open>
  One run of the inner \<open>while\<close>: \<open>off\<close> is the leaf position the cursor stands at.  The result
  is the new cross-section and the number of aggregated pairs.
\<close>

fun aggregate_pass ::
  "(MerkleNode \<Rightarrow> MerkleHash) \<Rightarrow> nat \<Rightarrow> nat \<Rightarrow> TreeNode list \<Rightarrow> (TreeNode list \<times> nat) option" where
  "aggregate_pass h D off [] = Some ([], 0)"
| "aggregate_pass h D off [ConcealedNode d x] =
     (if d > D then None else Some ([ConcealedNode d x], 0))"
| "aggregate_pass h D off [CommitmentLeaf p m] = Some ([CommitmentLeaf p m], 0)"
| "aggregate_pass h D off (ConcealedNode d1 h1 # ConcealedNode d2 h2 # ns) =
     (if d1 > D then None
      else if d1 = d2 then
        (if d1 = 0 then None
         else if off mod 2 ^ (D - (d1 - 1)) \<noteq> 0 then
           map_option (\<lambda>(r, c). (ConcealedNode d1 h1 # r, c))
             (aggregate_pass h D (off + 2 ^ (D - d1)) (ConcealedNode d2 h2 # ns))
         else
           map_option (\<lambda>(r, c). (tree_node_with h h1 h2 (d1 - 1) (2 ^ D) # r, Suc c))
             (aggregate_pass h D (off + 2 ^ (D - (d1 - 1))) ns))
      else
        map_option (\<lambda>(r, c). (ConcealedNode d1 h1 # r, c))
          (aggregate_pass h D (off + 2 ^ (D - d1)) (ConcealedNode d2 h2 # ns)))"
| "aggregate_pass h D off (CommitmentLeaf p m # CommitmentLeaf p' m' # ns) =
     map_option (\<lambda>(r, c). (CommitmentLeaf p m # CommitmentLeaf p' m' # r, c))
       (aggregate_pass h D (off + 2) ns)"
| "aggregate_pass h D off (ConcealedNode d x # CommitmentLeaf p m # ns) =
     (if d > D then None
      else map_option (\<lambda>(r, c). (ConcealedNode d x # CommitmentLeaf p m # r, c))
        (aggregate_pass h D (off + 2 ^ (D - d) + 1) ns))"
| "aggregate_pass h D off (CommitmentLeaf p m # ConcealedNode d x # ns) =
     map_option (\<lambda>(r, c). (CommitmentLeaf p m # r, c))
       (aggregate_pass h D (off + 1) (ConcealedNode d x # ns))"

lemma aggregate_pass_length:
  "aggregate_pass h D off ns = Some (r, c) \<Longrightarrow> length r + c = length ns"
  by (induction h D off ns arbitrary: r c rule: aggregate_pass.induct)
     (auto split: if_splits)

text \<open>The outer \<open>loop\<close>, with the number of pairs aggregated so far.\<close>

function aggregate ::
  "(MerkleNode \<Rightarrow> MerkleHash) \<Rightarrow> nat \<Rightarrow> TreeNode list \<Rightarrow> nat \<Rightarrow> (TreeNode list \<times> nat) option" where
  "aggregate h D ns count =
     (case aggregate_pass h D 0 ns of
        None \<Rightarrow> None
      | Some (r, c) \<Rightarrow> if c = 0 then Some (r, count) else aggregate h D r (count + c))"
  by pat_completeness auto
termination
  by (relation "measure (\<lambda>(_, _, ns, _). length ns)") (auto dest: aggregate_pass_length)

declare aggregate.simps [simp del]

text \<open>
  \<open>conceal_except\<close> changes the block in place: the leaves are concealed and the entropy is
  dropped also when it reports an unknown leaf.
\<close>

definition conceal_except ::
  "(MerkleNode \<Rightarrow> MerkleHash) \<Rightarrow> (Leaf \<Rightarrow> MerkleHash) \<Rightarrow> MerkleBlock \<Rightarrow> ProtocolId list
     \<Rightarrow> (MerkleBlock \<times> (LeafNotKnown, nat) result) option" where
  "conceal_except h lh b ps =
     (let ns = cross_section b;
          ns1 = map (conceal_node lh (mb_depth b) ps) ns;
          count = length (filter (hidden_leaf ps) ns);
          missing = filter (\<lambda>p. p \<notin> leaf_protocols ns) (sort ps);
          b1 = b\<lparr> cross_section := ns1, mb_entropy := None \<rparr>
      in case missing of
           p # _ \<Rightarrow> Some (b1, Err (LeafNotKnown p))
         | [] \<Rightarrow> map_option (\<lambda>(r, c). (b1\<lparr> cross_section := r \<rparr>, Ok c))
                    (aggregate h (mb_depth b) ns1 count))"

definition block_conceal ::
  "(MerkleNode \<Rightarrow> MerkleHash) \<Rightarrow> (Leaf \<Rightarrow> MerkleHash) \<Rightarrow> MerkleBlock \<Rightarrow> MerkleConcealed option" where
  "block_conceal h lh b =
     (case conceal_except h lh b [] of
        Some (b', Inr _) \<Rightarrow>
          (case cross_section b' of
             ConcealedNode 0 x # _ \<Rightarrow>
               Some \<lparr> mc_depth = mb_depth b, mc_cofactor = mb_cofactor b, merkle_root = x \<rparr>
           | _ \<Rightarrow> None)
      | _ \<Rightarrow> None)"

text \<open>The commitment is the hash \<open>ch\<close> of the concealed form.\<close>

definition block_commit_id ::
  "(MerkleNode \<Rightarrow> MerkleHash) \<Rightarrow> (Leaf \<Rightarrow> MerkleHash) \<Rightarrow> (MerkleConcealed \<Rightarrow> Commitment) \<Rightarrow> MerkleBlock
     \<Rightarrow> Commitment option" where
  "block_commit_id h lh ch b = map_option ch (block_conceal h lh b)"

definition tree_commit_id ::
  "(MerkleNode \<Rightarrow> MerkleHash) \<Rightarrow> (Leaf \<Rightarrow> MerkleHash) \<Rightarrow> (MerkleConcealed \<Rightarrow> Commitment) \<Rightarrow> MerkleTree
     \<Rightarrow> Commitment option" where
  "tree_commit_id h lh ch t = block_commit_id h lh ch (block_of_tree lh t)"

section \<open>Inclusion proofs\<close>

fun path_map :: "TreeNode list \<Rightarrow> (nat, MerkleHash) omap \<Rightarrow> (nat, MerkleHash) omap" where
  "path_map [] m = m"
| "path_map (ConcealedNode d x # ns) m = path_map ns (omap_insert d x m)"
| "path_map (CommitmentLeaf _ _ # ns) m = path_map ns m"

definition to_merkle_proof ::
  "(MerkleNode \<Rightarrow> MerkleHash) \<Rightarrow> (Leaf \<Rightarrow> MerkleHash) \<Rightarrow> MerkleBlock \<Rightarrow> ProtocolId
     \<Rightarrow> (LeafNotKnown, MerkleProof) result option" where
  "to_merkle_proof h lh b pid =
     (case conceal_except h lh b [pid] of
        None \<Rightarrow> None
      | Some (b', Inl e) \<Rightarrow> Some (Err e)
      | Some (b', Inr _) \<Rightarrow>
          (let path = omap_values (path_map (cross_section b') []) in
           if length path > 32 then None
           else Some (Ok \<lparr> mp_pos = block_protocol_id_pos b' pid,
                           mp_cofactor = mb_cofactor b', mp_path = path \<rparr>)))"

definition convolve ::
  "(MerkleNode \<Rightarrow> MerkleHash) \<Rightarrow> (Leaf \<Rightarrow> MerkleHash) \<Rightarrow> (MerkleConcealed \<Rightarrow> Commitment) \<Rightarrow> MerkleProof
     \<Rightarrow> ProtocolId \<Rightarrow> Message \<Rightarrow> (InvalidProof, Commitment) result option" where
  "convolve h lh ch prf pid msg =
     (case block_with prf pid msg of
        None \<Rightarrow> None
      | Some (Inl e) \<Rightarrow> Some (Err e)
      | Some (Inr b) \<Rightarrow> map_option Ok (block_commit_id h lh ch b))"

definition to_known_message_map :: "MerkleBlock \<Rightarrow> MessageMap" where
  "to_known_message_map b =
     foldl (\<lambda>m n. case n of ConcealedNode _ _ \<Rightarrow> m | CommitmentLeaf p msg \<Rightarrow> omap_insert p msg m)
       [] (cross_section b)"

section \<open>Merging\<close>

text \<open>
  The part of the deeper block below a concealed node: nodes are taken until the buoy has
  risen to the depth \<open>lim\<close> of that node.
\<close>

fun take_buoy :: "nat \<Rightarrow> MerkleBuoy \<Rightarrow> nat \<Rightarrow> TreeNode list \<Rightarrow> TreeNode list \<times> TreeNode list" where
  "take_buoy D bu lim [] = ([], [])"
| "take_buoy D bu lim (n # ns) =
     (let bu' = fst (buoy_push bu (depth_or n D)) in
      if buoy_level bu' \<le> lim then ([n], ns)
      else (let (t, r) = take_buoy D bu' lim ns in (n # t, r)))"

lemma take_buoy_length: "take_buoy D bu lim ns = (t, r) \<Longrightarrow> length t + length r = length ns"
  by (induction D bu lim ns arbitrary: t r rule: take_buoy.induct)
     (auto simp: Let_def split: if_splits prod.splits)

text \<open>
  When one iterator is exhausted the node already drawn from the other is dropped and the rest
  of it is appended.
\<close>

function merge_sections :: "nat \<Rightarrow> TreeNode list \<Rightarrow> TreeNode list \<Rightarrow> TreeNode list option" where
  "merge_sections D [] bs = Some (tl bs)"
| "merge_sections D (a # as) [] = Some as"
| "merge_sections D (n1 # as) (n2 # bs) =
     (let d1 = depth_or n1 D; d2 = depth_or n2 D in
      if d1 = d2 then
        (if n1 = n2 then map_option ((#) n1) (merge_sections D as bs)
         else if is_leaf n1 \<and> \<not> is_leaf n2 then map_option ((#) n1) (merge_sections D as bs)
         else if \<not> is_leaf n1 \<and> is_leaf n2 then map_option ((#) n2) (merge_sections D as bs)
         else if \<not> is_leaf n1 \<and> \<not> is_leaf n2 then merge_sections D as bs
         else None)
      else if d1 < d2 then
        (case take_buoy D (buoy_new d2) d1 bs of
           (t, r) \<Rightarrow> map_option (\<lambda>l. n2 # t @ l) (merge_sections D as r))
      else
        (case take_buoy D (buoy_new d1) d2 as of
           (t, r) \<Rightarrow> map_option (\<lambda>l. n1 # t @ l) (merge_sections D r bs)))"
  by pat_completeness auto
termination
  by (relation "measure (\<lambda>(_, as, bs). length as + length bs)")
     (auto dest: sym [THEN take_buoy_length])

definition merge_reveal ::
  "(MerkleNode \<Rightarrow> MerkleHash) \<Rightarrow> (Leaf \<Rightarrow> MerkleHash) \<Rightarrow> (MerkleConcealed \<Rightarrow> Commitment) \<Rightarrow> MerkleBlock
     \<Rightarrow> MerkleBlock \<Rightarrow> (MergeError, MerkleBlock \<times> u16) result option" where
  "merge_reveal h lh ch b other =
     Option.bind (block_commit_id h lh ch b) (\<lambda>base_root.
     Option.bind (block_commit_id h lh ch other) (\<lambda>merged_root.
       if base_root \<noteq> merged_root then Some (Err (UnrelatedBlocks base_root merged_root))
       else Option.bind (merge_sections (mb_depth b) (cross_section b) (cross_section other)) (\<lambda>ns.
         let b' = b\<lparr> cross_section := ns \<rparr> in
         if ns = [] then None
         else if sum_list (map (\<lambda>n. 2 ^ (mb_depth b - depth_or n (mb_depth b))) ns) \<noteq> block_width_limit b
         then None
         else if block_commit_id h lh ch b' \<noteq> Some base_root then None
         else Some (Ok (b', word_of_nat (length ns))))))"

definition merge_reveal_path ::
  "(MerkleNode \<Rightarrow> MerkleHash) \<Rightarrow> (Leaf \<Rightarrow> MerkleHash) \<Rightarrow> (MerkleConcealed \<Rightarrow> Commitment) \<Rightarrow> MerkleBlock
     \<Rightarrow> MerkleProof \<Rightarrow> ProtocolId \<Rightarrow> Message \<Rightarrow> (MergeError, MerkleBlock \<times> u16) result option" where
  "merge_reveal_path h lh ch b prf pid msg =
     (case block_with prf pid msg of
        None \<Rightarrow> None
      | Some (Inl e) \<Rightarrow> Some (Err (MergeInvalidProof e))
      | Some (Inr other) \<Rightarrow> merge_reveal h lh ch b other)"

end
