(* ===== verification/Mpc_Inclusion.thy ===== *)
theory Mpc_Inclusion
  imports Mpc_Block
begin

text \<open>
  Correctness of concealment and of inclusion proofs.  The relation \<open>rep\<close> says that a list of
  nodes is a cross-section of a complete binary tree below a node and gives that node's hash;
  it is the abstract meaning of a block.  Aggregation keeps it and, applied to hashes only,
  ends with the root; applied around one leaf it ends with the path of that leaf.  From this
  follow the completeness and the binding of inclusion proofs.
\<close>

section \<open>Cross-sections\<close>

inductive rep ::
  "(MerkleNode \<Rightarrow> MerkleHash) \<Rightarrow> (Leaf \<Rightarrow> MerkleHash) \<Rightarrow> nat \<Rightarrow> nat \<Rightarrow> nat \<Rightarrow> TreeNode list
     \<Rightarrow> MerkleHash \<Rightarrow> bool"
  for h lh D where
  rep_hash: "d \<le> D \<Longrightarrow> 2 ^ (D - d) dvd off \<Longrightarrow> rep h lh D d off [ConcealedNode d x] x"
| rep_leaf: "rep h lh D D off [CommitmentLeaf p m] (lh (Inhabited p m))"
| rep_node: "d < D \<Longrightarrow> 2 ^ (D - d) dvd off \<Longrightarrow> rep h lh D (Suc d) off l1 r1
    \<Longrightarrow> rep h lh D (Suc d) (off + 2 ^ (D - Suc d)) l2 r2
    \<Longrightarrow> rep h lh D d off (l1 @ l2) (mh_branches h d (2 ^ D) r1 r2)"

definition width :: "nat \<Rightarrow> TreeNode \<Rightarrow> nat" where
  "width D n = 2 ^ (D - depth_or n D)"

definition widths :: "nat \<Rightarrow> TreeNode list \<Rightarrow> nat" where
  "widths D ns = sum_list (map (width D) ns)"

lemma depth_or_simps [simp]:
  "depth_or (ConcealedNode d x) D = d"
  "depth_or (CommitmentLeaf p m) D = D"
  by (simp_all add: depth_or_def)

lemma width_simps [simp]:
  "width D (ConcealedNode d x) = 2 ^ (D - d)"
  "width D (CommitmentLeaf p m) = 1"
  by (simp_all add: width_def)

lemma widths_simps [simp]:
  "widths D [] = 0" "widths D (n # ns) = width D n + widths D ns"
  "widths D (xs @ ys) = widths D xs + widths D ys"
  by (simp_all add: widths_def)

lemma width_pos [simp]: "0 < width D n"
  by (simp add: width_def)

lemma widths_zero [simp]: "widths D ns = 0 \<longleftrightarrow> ns = []"
  by (cases ns) auto

lemma pow_half: "d < D \<Longrightarrow> (2::nat) ^ (D - d) = 2 ^ (D - Suc d) + 2 ^ (D - Suc d)"
  by (metis Suc_diff_Suc mult_2 power_Suc)

lemma rep_depth: "rep h lh D d off l r \<Longrightarrow> d \<le> D"
  by (induction rule: rep.induct) simp_all

lemma rep_aligned: "rep h lh D d off l r \<Longrightarrow> 2 ^ (D - d) dvd off"
  by (induction rule: rep.induct) simp_all

lemma rep_widths: "rep h lh D d off l r \<Longrightarrow> widths D l = 2 ^ (D - d)"
  by (induction rule: rep.induct) (simp_all add: pow_half)

lemma rep_not_Nil: "rep h lh D d off l r \<Longrightarrow> l \<noteq> []"
  by (induction rule: rep.induct) simp_all

lemma rep_depths: "rep h lh D d off l r \<Longrightarrow> n \<in> set l \<Longrightarrow> d \<le> depth_or n D \<and> depth_or n D \<le> D"
  by (induction rule: rep.induct) auto

lemma rep_singleton:
  assumes "rep h lh D d off [n] r"
  shows "depth_or n D = d \<and> r = to_merkle_node lh n"
  using assms
proof (cases rule: rep.cases)
  case (rep_node l1 r1 l2 r2)
  have "l1 \<noteq> []" "l2 \<noteq> []" using rep_node rep_not_Nil by blast+
  then show ?thesis using \<open>[n] = l1 @ l2\<close> by (cases l1) auto
qed simp_all

lemma rep_leaf_level:
  assumes "rep h lh D D off l r"
  obtains n where "l = [n]" "depth_or n D = D" "r = to_merkle_node lh n"
  using assms
proof (cases rule: rep.cases)
  case rep_hash
  then show thesis using that [of "ConcealedNode D r"] by simp
next
  case (rep_leaf p m)
  then show thesis using that [of "CommitmentLeaf p m"] by simp
qed simp

lemma rep_hash_or_node:
  assumes "rep h lh D d off l r" "d < D"
  obtains "l = [ConcealedNode d r]"
  | l1 r1 l2 r2 where "l = l1 @ l2" "r = mh_branches h d (2 ^ D) r1 r2"
      "rep h lh D (Suc d) off l1 r1" "rep h lh D (Suc d) (off + 2 ^ (D - Suc d)) l2 r2"
  using assms by (cases rule: rep.cases) auto

section \<open>Aggregating siblings\<close>

lemma aligned_contradiction:
  fixes off k e D :: nat
  assumes "Suc d < e" "e \<le> D" "2 ^ (D - d) dvd off"
    and "widths_xs + 2 ^ (D - e) = 2 ^ (D - Suc d)" "(off + widths_xs) mod 2 ^ (D - (e - 1)) = 0"
  shows False
proof -
  have D: "D - (e - 1) = Suc (D - e)" using assms(1,2) by simp
  have dvd1: "(2::nat) ^ (D - (e - 1)) dvd 2 ^ (D - Suc d)"
    using assms(1) by (intro le_imp_power_dvd) simp
  moreover have "(2::nat) ^ (D - (e - 1)) dvd off"
    using assms(1) by (intro dvd_trans [OF le_imp_power_dvd assms(3)]) simp
  ultimately have "(2::nat) ^ (D - (e - 1)) dvd (off + widths_xs) + 2 ^ (D - e)"
    using assms(4) by (metis add.assoc dvd_add)
  then have "(2::nat) ^ (D - (e - 1)) dvd 2 ^ (D - e)"
    using assms(5) by (metis dvd_add_right_iff mod_0_imp_dvd)
  then show False unfolding D by (auto dest: dvd_imp_le)
qed

lemma singleton_not_pair [simp]: "[n] \<noteq> xs @ a # b # ys"
proof
  assume "[n] = xs @ a # b # ys"
  then have "length [n] = length (xs @ a # b # ys)" by (rule arg_cong)
  then show False by simp
qed

lemma rep_merge:
  assumes "rep h lh D d off l r" "l = xs @ ConcealedNode e h1 # ConcealedNode e h2 # ys"
    and "(off + widths D xs) mod 2 ^ (D - (e - 1)) = 0"
  shows "d < e \<and>
    rep h lh D d off (xs @ ConcealedNode (e - 1) (mh_branches h (e - 1) (2 ^ D) h1 h2) # ys) r"
  using assms
proof (induction arbitrary: xs ys rule: rep.induct)
  case (rep_node d off l1 r1 l2 r2)
  let ?a = "ConcealedNode e h1" and ?b = "ConcealedNode e h2"
  let ?m = "ConcealedNode (e - 1) (mh_branches h (e - 1) (2 ^ D) h1 h2)"
  note w1 = rep_widths [OF rep_node.hyps(3)] and w2 = rep_widths [OF rep_node.hyps(4)]
  consider (left) zs where "l1 = xs @ ?a # ?b # zs" "ys = zs @ l2"
    | (mid) "l1 = xs @ [?a]" "l2 = ?b # ys"
    | (right) zs where "xs = l1 @ zs" "l2 = zs @ ?a # ?b # ys"
    using rep_node.prems(1)
    by (auto simp: append_eq_append_conv2 append_eq_Cons_conv Cons_eq_append_conv)
  then show ?case
  proof cases
    case left
    then show ?thesis
      using rep_node.IH(1) [OF left(1)] rep_node.prems(2) rep_node.hyps
        rep.rep_node [of d D off h lh "xs @ ?m # zs" r1 l2 r2] by auto
  next
    case right
    then have "(off + 2 ^ (D - Suc d) + widths D zs) mod 2 ^ (D - (e - 1)) = 0"
      using rep_node.prems(2) w1 by (simp add: add.assoc)
    then show ?thesis
      using rep_node.IH(2) [OF right(2)] rep_node.hyps right
        rep.rep_node [of d D off h lh l1 r1 "zs @ ?m # ys" r2] by auto
  next
    case mid
    have w: "widths D xs + 2 ^ (D - e) = 2 ^ (D - Suc d)" and e: "Suc d \<le> e" "e \<le> D"
      using w1 mid rep_depths [OF rep_node.hyps(3), of ?a] by auto
    show ?thesis
    proof (cases "e = Suc d")
      case True
      then have xs: "xs = []" and ys: "ys = []" using w w2 mid by auto
      then have "r1 = h1" "r2 = h2"
        using rep_singleton rep_node.hyps(3,4) mid by fastforce+
      then show ?thesis
        using True xs ys rep_node.hyps(1,2) rep_hash [of d D off h lh] by simp
    next
      case False
      then show ?thesis
        using aligned_contradiction [OF _ e(2) rep_node.hyps(2) w rep_node.prems(2)] e(1) by simp
    qed
  qed
qed simp_all

text \<open>A pass keeps the meaning of the part already scanned and the part still to scan.\<close>

lemma aggregate_pass_rep:
  assumes "aggregate_pass h D off ns = Some (ns', c)"
    and "rep h lh D 0 0 (dn @ ns) r" "off = widths D dn"
  shows "rep h lh D 0 0 (dn @ ns') r"
  using assms
proof (induction h D off ns arbitrary: dn ns' c rule: aggregate_pass.induct)
  case (4 h D off d1 h1 d2 h2 ns)
  let ?a = "ConcealedNode d1 h1" and ?b = "ConcealedNode d2 h2"
  show ?case
  proof (cases "d1 = d2 \<and> off mod 2 ^ (D - (d1 - 1)) = 0")
    case True
    note T1 = conjunct1 [OF True] and T2 = conjunct2 [OF True]
    have T: "d1 = d2" "\<not> off mod 2 ^ (D - (d1 - 1)) \<noteq> 0" by (rule T1) (simp only: T2 simp_thms)
    then obtain k ms where ms: "aggregate_pass h D (off + 2 ^ (D - (d1 - 1))) ns = Some (ms, k)"
      "ns' = tree_node_with h h1 h2 (d1 - 1) (2 ^ D) # ms" "\<not> D < d1" "d1 \<noteq> 0"
      using "4.prems"(1) by (auto split: if_splits)
    have "rep h lh D 0 0 (dn @ tree_node_with h h1 h2 (d1 - 1) (2 ^ D) # ns) r"
      using rep_merge [OF "4.prems"(2), of dn d1 h1 h2 ns] T "4.prems"(3)
      by (simp add: tree_node_with_def)
    then show ?thesis
      using "4.IH"(2) [OF ms(3) T(1) ms(4) T(2) ms(1), of "dn @ [tree_node_with h h1 h2 (d1 - 1) (2 ^ D)]"]
        ms(2) "4.prems"(3)
      by (simp add: tree_node_with_def)
  next
    case False
    then obtain k ms where ms: "aggregate_pass h D (off + 2 ^ (D - d1)) (?b # ns) = Some (ms, k)"
      "ns' = ?a # ms" "\<not> D < d1"
      "d1 = d2 \<Longrightarrow> d1 \<noteq> 0" "d1 = d2 \<Longrightarrow> off mod 2 ^ (D - (d1 - 1)) \<noteq> 0"
      using "4.prems"(1) by (auto split: if_splits)
    have "rep h lh D 0 0 ((dn @ [?a]) @ ms) r"
    proof (cases "d1 = d2")
      case True
      then show ?thesis
        using "4.IH"(1) [OF ms(3) True ms(4,5) [OF True] ms(1), of "dn @ [?a]"] "4.prems"(2,3) by simp
    next
      case ne: False
      then show ?thesis
        using "4.IH"(3) [OF ms(3) ne ms(1), of "dn @ [?a]"] "4.prems"(2,3) by simp
    qed
    then show ?thesis using ms(2) by simp
  qed
next
  case (5 h D off p m p' m' ns)
  then obtain ms k where "aggregate_pass h D (off + 2) ns = Some (ms, k)"
    "ns' = CommitmentLeaf p m # CommitmentLeaf p' m' # ms" by auto
  then show ?case
    using "5.IH" [of ms k "dn @ [CommitmentLeaf p m, CommitmentLeaf p' m']"] "5.prems"(2,3) by simp
next
  case (6 h D off d x p m ns)
  then obtain ms k where "aggregate_pass h D (off + 2 ^ (D - d) + 1) ns = Some (ms, k)"
    "ns' = ConcealedNode d x # CommitmentLeaf p m # ms" "\<not> D < d" by (auto split: if_splits)
  then show ?case
    using "6.IH" [of ms k "dn @ [ConcealedNode d x, CommitmentLeaf p m]"] "6.prems"(2,3) by simp
next
  case (7 h D off p m d x ns)
  then obtain ms k where "aggregate_pass h D (off + 1) (ConcealedNode d x # ns) = Some (ms, k)"
    "ns' = CommitmentLeaf p m # ms" by auto
  then show ?case
    using "7.IH" [of ms k "dn @ [CommitmentLeaf p m]"] "7.prems"(2,3) by simp
qed (auto split: if_splits)

section \<open>When nothing is left to aggregate\<close>

fun mergeable :: "nat \<Rightarrow> nat \<Rightarrow> TreeNode list \<Rightarrow> bool" where
  "mergeable D off [] = False"
| "mergeable D off (n # ns) =
     ((\<exists>d x y. n = ConcealedNode d x \<and> take 1 ns = [ConcealedNode d y] \<and> off mod 2 ^ (D - (d - 1)) = 0)
      \<or> mergeable D (off + width D n) ns)"

lemma aggregate_pass_zero:
  "aggregate_pass h D off ns = Some (ns', 0) \<Longrightarrow> ns' = ns \<and> \<not> mergeable D off ns"
  by (induction h D off ns arbitrary: ns' rule: aggregate_pass.induct)
     (auto split: if_splits simp: add.commute add.assoc add.left_commute)

lemma mergeable_append1: "mergeable D off xs \<Longrightarrow> mergeable D off (xs @ ys)"
proof (induction D off xs rule: mergeable.induct)
  case (2 D off n ns)
  then show ?case by (cases ns) auto
qed simp

lemma mergeable_append2: "mergeable D (off + widths D xs) ys \<Longrightarrow> mergeable D off (xs @ ys)"
  by (induction xs arbitrary: off) (auto simp: add.assoc)

lemma rep_mergeable:
  assumes "rep h lh D d off l r" "\<forall>n \<in> set l. \<not> is_leaf n" "length l > 1"
  shows "mergeable D off l"
  using assms
proof (induction rule: rep.induct)
  case (rep_node d off l1 r1 l2 r2)
  note w1 = rep_widths [OF rep_node.hyps(3)]
  consider "length l1 > 1" | "length l2 > 1" | "length l1 = 1" "length l2 = 1"
    using rep_not_Nil [OF rep_node.hyps(3)] rep_not_Nil [OF rep_node.hyps(4)]
    by (cases l1; cases l2) auto
  then show ?case
  proof cases
    case 1
    then show ?thesis using rep_node by (auto intro: mergeable_append1)
  next
    case 2
    then show ?thesis using rep_node w1 by (auto intro: mergeable_append2)
  next
    case 3
    then obtain n1 n2 where n: "l1 = [n1]" "l2 = [n2]"
      by (metis One_nat_def length_0_conv length_Suc_conv)
    then have "depth_or n1 D = Suc d" "depth_or n2 D = Suc d"
      using rep_singleton rep_node.hyps(3,4) by fastforce+
    moreover obtain x y where "n1 = ConcealedNode (depth_or n1 D) x" "n2 = ConcealedNode (depth_or n2 D) y"
      using rep_node.prems(1) n by (cases n1; cases n2) auto
    ultimately show ?thesis
      using n rep_node.hyps(2) by (auto simp: dvd_imp_mod_0)
  qed
qed simp_all

lemma aggregate_pass_total:
  "\<forall>n \<in> set ns. 0 < depth_or n D \<and> depth_or n D \<le> D \<or> is_leaf n \<Longrightarrow>
     \<exists>x. aggregate_pass h D off ns = Some x"
  by (induction h D off ns rule: aggregate_pass.induct) auto

lemma rep_pass_total:
  assumes "rep h lh D 0 0 ns r"
  shows "\<exists>x. aggregate_pass h D 0 ns = Some x"
proof (cases "length ns > 1")
  case True
  have "0 < depth_or n D" if n: "n \<in> set ns" "\<not> is_leaf n" for n
  proof (rule ccontr)
    assume "\<not> 0 < depth_or n D"
    then have "width D n = 2 ^ D" by (simp add: width_def)
    moreover obtain xs ys where ns: "ns = xs @ n # ys" using n(1) by (meson split_list)
    ultimately have "widths D xs = 0 \<and> widths D ys = 0"
      using rep_widths [OF assms] by simp
    then show False using True ns by simp
  qed
  then show ?thesis
    using rep_depths [OF assms] by (intro aggregate_pass_total) blast
next
  case False
  then obtain n where "ns = [n]" using rep_not_Nil [OF assms] by (cases ns) auto
  then show ?thesis using rep_depths [OF assms] by (cases n) auto
qed

text \<open>The loop always ends, with the same meaning and nothing left to aggregate.\<close>

lemma aggregate_correct:
  assumes "rep h lh D 0 0 ns r"
  shows "\<exists>ns' k. aggregate h D ns c = Some (ns', k) \<and> rep h lh D 0 0 ns' r \<and> \<not> mergeable D 0 ns'"
  using assms
proof (induction h D ns c rule: aggregate.induct)
  case (1 h D ns c)
  obtain ns' k where p: "aggregate_pass h D 0 ns = Some (ns', k)"
    using rep_pass_total [OF "1.prems"] by auto
  have r: "rep h lh D 0 0 ns' r"
    using aggregate_pass_rep [OF p, where dn = "[]"] "1.prems" by simp
  show ?case
  proof (cases "k = 0")
    case True
    then show ?thesis
      using aggregate_pass_zero [of h D 0 ns ns'] p r by (subst aggregate.simps) auto
  next
    case False
    then show ?thesis
      using "1.IH" [OF p refl False r] by (subst aggregate.simps) (simp add: p)
  qed
qed

section \<open>Revealed leaves and their positions\<close>

fun leaves_at :: "nat \<Rightarrow> nat \<Rightarrow> TreeNode list \<Rightarrow> (nat \<times> ProtocolId \<times> Message) list" where
  "leaves_at D off [] = []"
| "leaves_at D off (ConcealedNode d x # ns) = leaves_at D (off + 2 ^ (D - d)) ns"
| "leaves_at D off (CommitmentLeaf p m # ns) = (off, p, m) # leaves_at D (off + 1) ns"

lemma leaves_at_append:
  "leaves_at D off (xs @ ys) = leaves_at D off xs @ leaves_at D (off + widths D xs) ys"
  by (induction D off xs rule: leaves_at.induct) (simp_all add: add.assoc)

lemma leaves_at_pos: "(i, p, m) \<in> set (leaves_at D off ns) \<Longrightarrow> off \<le> i \<and> i < off + widths D ns"
  by (induction D off ns rule: leaves_at.induct) fastforce+

lemma leaves_at_distinct: "distinct (map fst (leaves_at D off ns))"
proof (induction D off ns rule: leaves_at.induct)
  case (3 D off p m ns)
  then show ?case by (auto dest!: leaves_at_pos)
qed simp_all

lemma leaves_at_empty: "leaves_at D off ns = [] \<longleftrightarrow> (\<forall>n \<in> set ns. \<not> is_leaf n)"
  by (induction D off ns rule: leaves_at.induct) auto

lemma leaf_protocols_at: "leaf_protocols ns = (\<lambda>(i, p, m). p) ` set (leaves_at D off ns)"
  by (induction D off ns rule: leaves_at.induct) auto

lemma pow_succ_diff: "0 < d \<Longrightarrow> d \<le> D \<Longrightarrow> (2::nat) ^ (D - (d - 1)) = 2 ^ (D - d) + 2 ^ (D - d)"
  using pow_half [of "d - 1" D] by simp

lemma aggregate_pass_leaves:
  "aggregate_pass h D off ns = Some (ns', c) \<Longrightarrow> leaves_at D o2 ns' = leaves_at D o2 ns"
proof (induction h D off ns arbitrary: ns' c o2 rule: aggregate_pass.induct)
  case (4 h D off d1 h1 d2 h2 ns)
  show ?case
  proof (cases "d1 = d2 \<and> \<not> off mod 2 ^ (D - (d1 - 1)) \<noteq> 0")
    case True
    then obtain k ms where ms: "aggregate_pass h D (off + 2 ^ (D - (d1 - 1))) ns = Some (ms, k)"
      "ns' = tree_node_with h h1 h2 (d1 - 1) (2 ^ D) # ms" "\<not> D < d1" "d1 \<noteq> 0"
      using "4.prems" by (auto split: if_splits)
    have "leaves_at D (o2 + 2 ^ (D - (d1 - 1))) ms = leaves_at D (o2 + 2 ^ (D - (d1 - 1))) ns"
      by (rule "4.IH"(2) [OF ms(3) conjunct1 [OF True] ms(4) conjunct2 [OF True] ms(1)])
    moreover have "(2::nat) ^ (D - (d1 - 1)) = 2 ^ (D - d1) + 2 ^ (D - d1)"
      using ms(3,4) by (intro pow_succ_diff) auto
    ultimately show ?thesis
      using ms(2) conjunct1 [OF True] by (simp only: tree_node_with_def leaves_at.simps add.assoc)
  next
    case False
    then obtain k ms where ms:
      "aggregate_pass h D (off + 2 ^ (D - d1)) (ConcealedNode d2 h2 # ns) = Some (ms, k)"
      "ns' = ConcealedNode d1 h1 # ms" "\<not> D < d1"
      "d1 = d2 \<Longrightarrow> d1 \<noteq> 0" "d1 = d2 \<Longrightarrow> off mod 2 ^ (D - (d1 - 1)) \<noteq> 0"
      using "4.prems" by (auto split: if_splits)
    have "leaves_at D (o2 + 2 ^ (D - d1)) ms = leaves_at D (o2 + 2 ^ (D - d1)) (ConcealedNode d2 h2 # ns)"
    proof (cases "d1 = d2")
      case True
      show ?thesis by (rule "4.IH"(1) [OF ms(3) True ms(4,5) [OF True] ms(1)])
    next
      case ne: False
      show ?thesis by (rule "4.IH"(3) [OF ms(3) ne ms(1)])
    qed
    then show ?thesis using ms(2) by simp
  qed
qed (auto split: if_splits)

lemma aggregate_leaves:
  "aggregate h D ns c = Some (ns', k) \<Longrightarrow> leaves_at D off ns' = leaves_at D off ns"
proof (induction h D ns c rule: aggregate.induct)
  case (1 h D ns c)
  obtain ms j where p: "aggregate_pass h D 0 ns = Some (ms, j)"
    using "1.prems" by (subst (asm) aggregate.simps) (auto split: option.splits)
  then have "leaves_at D off ms = leaves_at D off ns" by (rule aggregate_pass_leaves)
  then show ?case
    using "1.IH" [OF p refl] "1.prems" p
    by (subst (asm) (2) aggregate.simps) (auto split: if_splits)
qed

lemma conceal_rep:
  assumes "rep h lh D d off l r"
  shows "rep h lh D d off (map (conceal_node lh D ps) l) r"
  using assms
proof (induction rule: rep.induct)
  case (rep_leaf off p m)
  then show ?case by (auto intro: rep.rep_leaf rep.rep_hash)
qed (auto intro: rep.intros)

lemma conceal_leaves:
  "leaves_at D off (map (conceal_node lh D ps) l) = filter (\<lambda>(i, p, m). p \<in> set ps) (leaves_at D off l)"
  by (induction D off l rule: leaves_at.induct) auto

section \<open>Concealing a block\<close>

definition block_ok ::
  "(MerkleNode \<Rightarrow> MerkleHash) \<Rightarrow> (Leaf \<Rightarrow> MerkleHash) \<Rightarrow> MerkleBlock \<Rightarrow> MerkleHash \<Rightarrow> bool" where
  "block_ok h lh b r \<longleftrightarrow>
     mb_depth b \<le> 31 \<and> rep h lh (mb_depth b) 0 0 (cross_section b) r
     \<and> (\<forall>(i, p, m) \<in> set (leaves_at (mb_depth b) 0 (cross_section b)). i = block_protocol_id_pos b p)"

lemma sort_filter_Nil: "filter P (sort ps) = [] \<longleftrightarrow> (\<forall>p \<in> set ps. \<not> P p)"
  by (simp add: filter_empty_conv)

lemma conceal_except_Ok:
  assumes "block_ok h lh b r" "set ps \<subseteq> leaf_protocols (cross_section b)"
  obtains b' k where "conceal_except h lh b ps = Some (b', Ok k)" "block_ok h lh b' r"
    "mb_depth b' = mb_depth b" "mb_cofactor b' = mb_cofactor b" "mb_entropy b' = None"
    "\<not> mergeable (mb_depth b) 0 (cross_section b')"
    "leaves_at (mb_depth b) 0 (cross_section b') =
       filter (\<lambda>(i, p, m). p \<in> set ps) (leaves_at (mb_depth b) 0 (cross_section b))"
proof -
  let ?D = "mb_depth b"
  let ?ns = "map (conceal_node lh ?D ps) (cross_section b)"
  let ?c = "length (filter (hidden_leaf ps) (cross_section b))"
  have "rep h lh ?D 0 0 ?ns r"
    using assms(1) by (intro conceal_rep) (simp add: block_ok_def)
  then obtain ns' k where ag: "aggregate h ?D ?ns ?c = Some (ns', k)" "rep h lh ?D 0 0 ns' r"
    "\<not> mergeable ?D 0 ns'"
    using aggregate_correct by blast
  let ?b' = "b\<lparr> cross_section := ns', mb_entropy := None \<rparr>"
  have miss: "filter (\<lambda>p. p \<notin> leaf_protocols (cross_section b)) (sort ps) = []"
    using assms(2) by (auto simp: sort_filter_Nil)
  have ce: "conceal_except h lh b ps = Some (?b', Ok k)"
    unfolding conceal_except_def Let_def miss by (simp add: ag)
  have lv: "leaves_at ?D 0 ns' =
      filter (\<lambda>(i, p, m). p \<in> set ps) (leaves_at ?D 0 (cross_section b))"
    using aggregate_leaves [OF ag(1)] conceal_leaves by simp
  have "block_ok h lh ?b' r"
    using assms(1) ag(2) lv by (auto simp: block_ok_def block_protocol_id_pos_def)
  then show ?thesis using that [OF ce] ag(3) lv by simp
qed

lemma conceal_except_missing:
  assumes "p \<in> set ps" "p \<notin> leaf_protocols (cross_section b)"
  shows "\<exists>b' q. conceal_except h lh b ps = Some (b', Err (LeafNotKnown q))"
proof -
  have "filter (\<lambda>p. p \<notin> leaf_protocols (cross_section b)) (sort ps) \<noteq> []"
    using assms by (auto simp: sort_filter_Nil)
  then show ?thesis by (auto simp: conceal_except_def Let_def split: list.splits)
qed

text \<open>Concealing everything leaves the root.\<close>

lemma block_conceal_root:
  assumes "block_ok h lh b r"
  shows "block_conceal h lh b =
    Some \<lparr> mc_depth = mb_depth b, mc_cofactor = mb_cofactor b, merkle_root = r \<rparr>"
proof -
  obtain b' k where c: "conceal_except h lh b [] = Some (b', Ok k)" "block_ok h lh b' r"
    "mb_depth b' = mb_depth b" "\<not> mergeable (mb_depth b) 0 (cross_section b')"
    "leaves_at (mb_depth b) 0 (cross_section b') = []"
    by (rule conceal_except_Ok [OF assms, of "[]"]) auto
  have r: "rep h lh (mb_depth b) 0 0 (cross_section b') r"
    using c(2,3) by (simp add: block_ok_def)
  have "\<not> length (cross_section b') > 1"
    using rep_mergeable [OF r] c(4,5) by (auto simp: leaves_at_empty)
  then obtain n where n: "cross_section b' = [n]"
    using rep_not_Nil [OF r] by (cases "cross_section b'") auto
  then have "depth_or n (mb_depth b) = 0" "r = to_merkle_node lh n" "\<not> is_leaf n"
    using rep_singleton r c(5) by (fastforce simp: leaves_at_empty)+
  then have "n = ConcealedNode 0 r" by (cases n) auto
  then show ?thesis by (simp add: block_conceal_def c(1) n)
qed

section \<open>The block of a tree\<close>

lemma tree_cross_node_simps:
  "depth_or (tree_cross_node lh t i) (tree_depth t) = tree_depth t"
  "to_merkle_node lh (tree_cross_node lh t i) = lh (tree_leaf t i)"
  by (auto simp: tree_cross_node_def tree_leaf_def split: option.splits)

lemma tree_rep_leaf:
  "rep h lh (tree_depth t) (tree_depth t) off [tree_cross_node lh t i] (lh (tree_leaf t i))"
  by (auto simp: tree_cross_node_def tree_leaf_def split: option.splits intro: rep.intros)

lemma upt_split: "[off..<off + (a + b :: nat)] = [off..<off + a] @ [off + a..<off + a + b]"
  by (metis add.assoc le_add1 upt_add_eq_append)

text \<open>The merklization of the leaves and the cross-section have the same root.\<close>

lemma tree_rep_merklize:
  assumes "tree_depth t \<le> 31" "tree_depth t = d + Suc k" "2 ^ Suc k dvd off"
  shows "\<exists>r. rep h lh (tree_depth t) d off (map (tree_cross_node lh t) [off..<off + 2 ^ Suc k]) r
    \<and> merklize_aux h (map (\<lambda>i. lh (tree_leaf t i)) [off..<off + 2 ^ Suc k]) d (2 ^ Suc k)
        (2 ^ tree_depth t) = Some r"
  using assms(2,3)
proof (induction k arbitrary: d off)
  case 0
  let ?D = "tree_depth t" and ?n = "tree_cross_node lh t"
  have up: "[off..<off + 2 ^ Suc 0] = [off] @ [Suc off]" by (simp add: upt_rec)
  have "rep h lh ?D d off ([?n off] @ [?n (Suc off)])
      (mh_branches h d (2 ^ ?D) (lh (tree_leaf t off)) (lh (tree_leaf t (Suc off))))"
    using 0 tree_rep_leaf [of h lh t off off] tree_rep_leaf [of h lh t "Suc off" "Suc off"]
    by (intro rep.rep_node) auto
  then show ?case
    unfolding up by (intro exI conjI) (auto simp: merklize_aux.simps)
next
  case (Suc k)
  let ?D = "tree_depth t" and ?n = "tree_cross_node lh t" and ?l = "\<lambda>i. lh (tree_leaf t i)"
  let ?w = "2 ^ Suc k :: nat"
  have D: "?D = Suc d + Suc k" and dv: "?w dvd off" "?w dvd off + ?w"
    using Suc.prems dvd_trans [OF le_imp_power_dvd Suc.prems(2), of "Suc k"] by auto
  obtain r1 where r1: "rep h lh ?D (Suc d) off (map ?n [off..<off + ?w]) r1"
    "merklize_aux h (map ?l [off..<off + ?w]) (Suc d) ?w (2 ^ ?D) = Some r1"
    using Suc.IH [OF D dv(1)] by blast
  obtain r2 where r2: "rep h lh ?D (Suc d) (off + ?w) (map ?n [off + ?w..<off + ?w + ?w]) r2"
    "merklize_aux h (map ?l [off + ?w..<off + ?w + ?w]) (Suc d) ?w (2 ^ ?D) = Some r2"
    using Suc.IH [OF D dv(2)] by blast
  have w: "2 ^ Suc (Suc k) = ?w + ?w" by simp
  have "(1::nat) \<le> 2 ^ k" by simp
  then have big: "\<not> 2 * 2 ^ k \<le> Suc 0" by linarith
  have up: "[off..<off + 2 ^ Suc (Suc k)] = [off..<off + ?w] @ [off + ?w..<off + ?w + ?w]"
    unfolding w by (rule upt_split)
  have "rep h lh ?D d off (map ?n [off..<off + ?w] @ map ?n [off + ?w..<off + ?w + ?w])
      (mh_branches h d (2 ^ ?D) r1 r2)"
    using r1(1) r2(1) Suc.prems D by (intro rep.rep_node) auto
  moreover have "merklize_aux h (map ?l [off..<off + ?w] @ map ?l [off + ?w..<off + ?w + ?w]) d
      (2 ^ Suc (Suc k)) (2 ^ ?D) = Some (mh_branches h d (2 ^ ?D) r1 r2)"
    using r1(2) r2(2) D assms(1) big
    by (subst merklize_aux.simps) (simp add: Let_def u5_succ_def)
  ultimately show ?case unfolding up map_append by blast
qed

lemma tree_block_rep:
  assumes "tree_ok t"
  obtains r where "tree_root h lh t = Some r"
    "rep h lh (tree_depth t) 0 0 (cross_section (block_of_tree lh t)) r"
proof (cases "tree_depth t")
  case 0
  then show ?thesis
    using that [of "lh (tree_leaf t 0)"] tree_rep_leaf [of h lh t 0 0]
    by (simp add: tree_root_def merklize_def block_of_tree_def tree_width_limit_def)
next
  case (Suc k)
  have D: "tree_depth t \<le> 31" using assms by (simp add: tree_ok_def)
  obtain r where r: "rep h lh (tree_depth t) 0 0 (map (tree_cross_node lh t) [0..<2 ^ tree_depth t]) r"
    "merklize_aux h (map (\<lambda>i. lh (tree_leaf t i)) [0..<2 ^ tree_depth t]) 0 (2 ^ tree_depth t)
        (2 ^ tree_depth t) = Some r"
    using tree_rep_merklize [of t 0 k 0 h lh] D Suc by auto
  have "(2::nat) ^ tree_depth t \<le> 2 ^ 31" using D by (intro power_increasing) auto
  moreover have "(2::nat) ^ tree_depth t \<noteq> 1" using Suc by simp
  ultimately have "tree_root h lh t = Some r"
    using r(2) by (simp add: tree_root_def merklize_def tree_width_limit_def)
  then show ?thesis
    using that r(1) by (simp add: block_of_tree_def tree_width_limit_def)
qed

lemma tree_leaves_at:
  "leaves_at (tree_depth t) a (map (tree_cross_node lh t) [a..<b]) =
     List.map_filter (\<lambda>i. map_option (\<lambda>x. (i, x)) (omap_get (tree_map t) i)) [a..<b]"
proof (induction "b - a" arbitrary: a)
  case 0
  then show ?case by (simp add: map_filter_simps)
next
  case (Suc n)
  then have "[a..<b] = a # [Suc a..<b]" by (simp add: upt_conv_Cons)
  then show ?case
    using Suc by (auto simp: tree_cross_node_def map_filter_simps split: option.splits)
qed

lemma tree_block_ok:
  assumes "tree_ok t"
  obtains r where "tree_root h lh t = Some r" "block_ok h lh (block_of_tree lh t) r"
proof -
  obtain r where r: "tree_root h lh t = Some r"
    "rep h lh (tree_depth t) 0 0 (cross_section (block_of_tree lh t)) r"
    by (rule tree_block_rep [OF assms])
  have "\<forall>(i, p, m) \<in> set (leaves_at (tree_depth t) 0 (cross_section (block_of_tree lh t))).
      i = protocol_id_pos p (tree_cofactor t) (tree_depth t)"
    using assms
    by (auto simp: block_of_tree_def tree_leaves_at set_map_filter_iff tree_ok_def
        tree_protocol_id_pos_def)
  then show ?thesis
    using that [OF r(1)] r(2) assms
    by (simp add: block_ok_def block_of_tree_def block_protocol_id_pos_def tree_ok_def)
qed

lemma tree_block_leaf:
  assumes "tree_ok t" "omap_get (tree_messages t) pid = Some msg"
  shows "(tree_protocol_id_pos t pid, pid, msg)
    \<in> set (leaves_at (tree_depth t) 0 (cross_section (block_of_tree lh t)))"
proof -
  have "omap_get (tree_map t) (tree_protocol_id_pos t pid) = Some (pid, msg)"
    using assms by (simp add: tree_ok_def)
  moreover have "tree_protocol_id_pos t pid < 2 ^ tree_depth t"
    unfolding tree_protocol_id_pos_def by (rule protocol_id_pos_less)
  ultimately show ?thesis
    by (force simp: block_of_tree_def tree_leaves_at set_map_filter_iff tree_width_limit_def)
qed

section \<open>Paths\<close>

text \<open>The cross-section a path and a leaf make: what \<open>MerkleBlock::with\<close> builds.\<close>

definition path_section :: "nat \<Rightarrow> nat \<Rightarrow> nat \<Rightarrow> MerkleHash list \<Rightarrow> TreeNode \<Rightarrow> TreeNode list" where
  "path_section i w d path leaf = (case with_path i w d path of (dir, rv) \<Rightarrow> dir @ leaf # rev rv)"

lemma path_section_Nil [simp]: "path_section i w d [] leaf = [leaf]"
  by (simp add: path_section_def)

lemma path_section_Cons:
  "path_section i w d (x # xs) leaf =
     (if i \<ge> w div 2
      then ConcealedNode (Suc d) x # path_section (i - w div 2) (w div 2) (Suc d) xs leaf
      else path_section i (w div 2) (Suc d) xs leaf @ [ConcealedNode (Suc d) x])"
  by (simp add: path_section_def split: prod.splits)

lemma path_section_rep:
  assumes "length path = D - d" "d \<le> D" "i < 2 ^ (D - d)" "2 ^ (D - d) dvd off"
  shows "\<exists>r. rep h lh D d off (path_section i (2 ^ (D - d)) d path (CommitmentLeaf p m)) r
    \<and> leaves_at D off (path_section i (2 ^ (D - d)) d path (CommitmentLeaf p m)) = [(off + i, p, m)]"
  using assms
proof (induction path arbitrary: d i off)
  case Nil
  then show ?case by (auto intro!: rep.rep_leaf)
next
  case (Cons x xs)
  let ?leaf = "CommitmentLeaf p m" and ?w = "2 ^ (D - Suc d) :: nat"
  have d: "d < D" "length xs = D - Suc d" "Suc d \<le> D" and half: "2 ^ (D - d) div 2 = ?w"
    using Cons.prems(1,2) pow_half [of d D] by auto
  have dv: "?w dvd off" using Cons.prems(4) pow_half [OF d(1)] by (metis dvd_add_right_iff dvd_refl dvd_trans)
  have dv2: "?w dvd off + ?w" using dv by simp
  show ?case
  proof (cases "i \<ge> ?w")
    case True
    have "i - ?w < ?w" using Cons.prems(3) pow_half [OF d(1)] True by simp
    then obtain r where r: "rep h lh D (Suc d) (off + ?w) (path_section (i - ?w) ?w (Suc d) xs ?leaf) r"
      "leaves_at D (off + ?w) (path_section (i - ?w) ?w (Suc d) xs ?leaf) = [(off + ?w + (i - ?w), p, m)]"
      using Cons.IH [OF d(2,3) _ dv2] by blast
    have "rep h lh D d off ([ConcealedNode (Suc d) x] @ path_section (i - ?w) ?w (Suc d) xs ?leaf)
        (mh_branches h d (2 ^ D) x r)"
      using r(1) d dv Cons.prems(4) by (intro rep.rep_node rep.rep_hash) auto
    then show ?thesis using True r(2) by (auto simp: path_section_Cons half)
  next
    case False
    then obtain r where r: "rep h lh D (Suc d) off (path_section i ?w (Suc d) xs ?leaf) r"
      "leaves_at D off (path_section i ?w (Suc d) xs ?leaf) = [(off + i, p, m)]"
      using Cons.IH [OF d(2,3) _ dv, of i] by auto
    have "rep h lh D d off (path_section i ?w (Suc d) xs ?leaf @ [ConcealedNode (Suc d) x])
        (mh_branches h d (2 ^ D) r x)"
      using r(1) d dv2 Cons.prems(4) by (intro rep.rep_node rep.rep_hash) auto
    then show ?thesis using False r(2) by (auto simp: path_section_Cons half leaves_at_append)
  qed
qed

lemma rep_one_node:
  assumes "rep h lh D d off l r" "leaves_at D off l = []" "\<not> mergeable D off l"
  shows "l = [ConcealedNode d r]"
proof -
  have "\<not> length l > 1" using rep_mergeable [OF assms(1)] assms(2,3) by (auto simp: leaves_at_empty)
  then obtain n where n: "l = [n]" using rep_not_Nil [OF assms(1)] by (cases l) auto
  then show ?thesis
    using rep_singleton [of h lh D d off n r] assms(1,2) by (cases n) auto
qed

text \<open>A cross-section with one leaf and nothing to aggregate is the path of that leaf.\<close>

lemma rep_path:
  assumes "rep h lh D d off l r" "\<not> mergeable D off l" "leaves_at D off l = [(j, p, m)]"
  shows "\<exists>path i. length path = D - d \<and> i < 2 ^ (D - d) \<and> j = off + i
    \<and> l = path_section i (2 ^ (D - d)) d path (CommitmentLeaf p m)"
  using assms
proof (induction rule: rep.induct)
  case (rep_node d off l1 r1 l2 r2)
  let ?w = "2 ^ (D - Suc d) :: nat"
  have half: "2 ^ (D - d) div 2 = ?w" and full: "2 ^ (D - d) = ?w + ?w"
    using pow_half [OF rep_node.hyps(1)] by auto
  have nm: "\<not> mergeable D off l1" "\<not> mergeable D (off + ?w) l2"
    using rep_node.prems(1) rep_widths [OF rep_node.hyps(3)]
    by (metis mergeable_append1, metis mergeable_append2)
  have lv: "leaves_at D off l1 @ leaves_at D (off + ?w) l2 = [(j, p, m)]"
    using rep_node.prems(2) rep_widths [OF rep_node.hyps(3)] by (simp add: leaves_at_append)
  then consider "leaves_at D off l1 = [(j, p, m)]" "leaves_at D (off + ?w) l2 = []"
    | "leaves_at D off l1 = []" "leaves_at D (off + ?w) l2 = [(j, p, m)]"
    by (auto simp: append_eq_Cons_conv)
  then show ?case
  proof cases
    case 1
    then obtain path i where pi: "length path = D - Suc d" "i < ?w" "j = off + i"
      "l1 = path_section i ?w (Suc d) path (CommitmentLeaf p m)"
      using rep_node.IH(1) nm(1) by blast
    moreover have "l2 = [ConcealedNode (Suc d) r2]"
      using rep_one_node rep_node.hyps(4) 1 nm(2) by blast
    ultimately show ?thesis
      using rep_node.hyps(1) full
      by (intro exI [of _ "r2 # path"] exI [of _ i]) (auto simp: path_section_Cons half)
  next
    case 2
    then obtain path i where pi: "length path = D - Suc d" "i < ?w" "j = off + ?w + i"
      "l2 = path_section i ?w (Suc d) path (CommitmentLeaf p m)"
      using rep_node.IH(2) nm(2) by blast
    moreover have "l1 = [ConcealedNode (Suc d) r1]"
      using rep_one_node rep_node.hyps(3) 2 nm(1) by blast
    ultimately show ?thesis
      using rep_node.hyps(1) full
      by (intro exI [of _ "r1 # path"] exI [of _ "?w + i"]) (auto simp: path_section_Cons half)
  qed
next
  case (rep_leaf off q n)
  then show ?case by (intro exI [of _ "[]"] exI [of _ 0]) auto
qed simp

text \<open>Collecting the hashes of a path by depth gives the path back.\<close>

lemma path_map_append: "path_map (xs @ ys) m = path_map ys (path_map xs m)"
  by (induction xs m rule: path_map.induct) auto

lemma path_map_ok: "omap_ok m \<Longrightarrow> omap_ok (path_map ns m)"
  by (induction ns m rule: path_map.induct) auto

lemma path_map_get_other:
  "omap_ok m \<Longrightarrow> \<forall>n \<in> set ns. node_depth_of n \<noteq> Some k \<Longrightarrow> omap_get (path_map ns m) k = omap_get m k"
  by (induction ns m rule: path_map.induct) auto

lemma path_section_depths:
  "n \<in> set (path_section i w d path (CommitmentLeaf p m)) \<Longrightarrow> node_depth_of n = Some k \<Longrightarrow> d < k"
proof (induction path arbitrary: i w d)
  case (Cons x xs)
  then show ?case
    by (auto simp: path_section_Cons split: if_splits dest: Suc_lessD)
qed simp

lemma path_map_section_get:
  assumes "omap_ok mp"
  shows "omap_get (path_map (path_section i w d path (CommitmentLeaf p m)) mp) k =
    (if d < k \<and> k \<le> d + length path then Some (path ! (k - Suc d)) else omap_get mp k)"
  using assms
proof (induction path arbitrary: i w d mp)
  case Nil
  then show ?case by auto
next
  case (Cons x xs)
  let ?s = "\<lambda>i'. path_section i' (w div 2) (Suc d) xs (CommitmentLeaf p m)"
  have idx: "Suc d < k \<Longrightarrow> (x # xs) ! (k - Suc d) = xs ! (k - Suc (Suc d))"
    by (metis Suc_diff_Suc nth_Cons_Suc)
  have below: "\<forall>n \<in> set (?s i'). node_depth_of n \<noteq> Some (Suc d)" for i'
    using path_section_depths by blast
  show ?case
  proof (cases "i \<ge> w div 2")
    case True
    then show ?thesis
      using Cons idx by (auto simp: path_section_Cons)
  next
    case False
    then show ?thesis
      using Cons idx path_map_ok [OF Cons.prems] by (auto simp: path_section_Cons path_map_append)
  qed
qed

lemma path_map_section:
  "omap_values (path_map (path_section i w 0 path (CommitmentLeaf p m)) []) = path"
proof -
  let ?ref = "zip [1..<Suc (length path)] path"
  have ref: "omap_ok ?ref" by (simp add: omap_ok_def del: upt_Suc)
  have "omap_get ?ref k = (if 0 < k \<and> k \<le> length path then Some (path ! (k - 1)) else None)" for k
  proof (cases "0 < k \<and> k \<le> length path")
    case True
    then have "(k, path ! (k - 1)) \<in> set ?ref"
      by (auto simp: set_zip simp del: upt_Suc intro!: exI [of _ "k - 1"])
    then show ?thesis using True omap_get_iff [OF ref] by auto
  next
    case False
    then show ?thesis by (auto simp: map_of_eq_None_iff set_zip simp del: upt_Suc)
  qed
  then have "omap_get (path_map (path_section i w 0 path (CommitmentLeaf p m)) []) = omap_get ?ref"
    by (auto simp: path_map_section_get fun_eq_iff)
  then have "path_map (path_section i w 0 path (CommitmentLeaf p m)) [] = ?ref"
    by (intro omap_ext path_map_ok ref) auto
  then show ?thesis by (simp add: omap_values_def del: upt_Suc)
qed

section \<open>Inclusion proofs are complete\<close>

lemma block_with_Ok:
  "block_with mpf pid msg = Some (Ok b) \<longleftrightarrow>
     length (mp_path mpf) \<le> 31
     \<and> mp_pos mpf = protocol_id_pos pid (mp_cofactor mpf) (length (mp_path mpf))
     \<and> b = \<lparr> mb_depth = length (mp_path mpf), mb_cofactor = mp_cofactor mpf,
             cross_section = path_section (mp_pos mpf) (2 ^ length (mp_path mpf)) 0 (mp_path mpf)
               (CommitmentLeaf pid msg), mb_entropy = None \<rparr>"
  by (auto simp: block_with_def Let_def path_section_def proof_width_limit_def split: prod.splits)

lemma block_with_block_ok:
  assumes "block_with mpf pid msg = Some (Ok b)"
  obtains r where "block_ok h lh b r"
    "leaves_at (mb_depth b) 0 (cross_section b) = [(block_protocol_id_pos b pid, pid, msg)]"
proof -
  let ?D = "length (mp_path mpf)"
  have b: "?D \<le> 31" "mp_pos mpf = protocol_id_pos pid (mp_cofactor mpf) ?D"
    "b = \<lparr> mb_depth = ?D, mb_cofactor = mp_cofactor mpf,
           cross_section = path_section (mp_pos mpf) (2 ^ ?D) 0 (mp_path mpf) (CommitmentLeaf pid msg),
           mb_entropy = None \<rparr>"
    using assms unfolding block_with_Ok by blast+
  obtain r where "rep h lh ?D 0 0 (cross_section b) r" "leaves_at ?D 0 (cross_section b) = [(mp_pos mpf, pid, msg)]"
    using path_section_rep [of "mp_path mpf" ?D 0 "mp_pos mpf" 0 h lh pid msg]
      protocol_id_pos_less [of pid "mp_cofactor mpf" ?D] b by auto
  then show ?thesis
    using that b by (simp add: block_ok_def block_protocol_id_pos_def)
qed

lemma distinct_fst_singleton:
  assumes "distinct (map fst xs)" "\<forall>x \<in> set xs. fst x = j" "(j, y) \<in> set xs"
  shows "xs = [(j, y)]"
proof (cases xs)
  case (Cons x xs')
  then have "xs' = []" using assms(1,2) by (cases xs') auto
  then show ?thesis using assms(3) Cons by auto
qed (use assms in simp)

lemma to_merkle_proof_complete:
  assumes ok: "block_ok h lh b r"
    and leaf: "(j, pid, msg) \<in> set (leaves_at (mb_depth b) 0 (cross_section b))"
  obtains mpf b' where "to_merkle_proof h lh b pid = Some (Ok mpf)"
    "block_with mpf pid msg = Some (Ok b')" "block_ok h lh b' r"
    "mb_depth b' = mb_depth b" "mb_cofactor b' = mb_cofactor b"
proof -
  let ?D = "mb_depth b"
  have "set [pid] \<subseteq> leaf_protocols (cross_section b)"
    using leaf leaf_protocols_at [of "cross_section b" ?D 0] by force
  then obtain b1 k where c: "conceal_except h lh b [pid] = Some (b1, Ok k)" "block_ok h lh b1 r"
    "mb_depth b1 = ?D" "mb_cofactor b1 = mb_cofactor b" "mb_entropy b1 = None"
    "\<not> mergeable ?D 0 (cross_section b1)"
    "leaves_at ?D 0 (cross_section b1) =
       filter (\<lambda>(i, p, m). p \<in> set [pid]) (leaves_at ?D 0 (cross_section b))"
    by (rule conceal_except_Ok [OF ok])
  have j: "j = block_protocol_id_pos b pid" using ok leaf by (auto simp: block_ok_def)
  have "leaves_at ?D 0 (cross_section b1) = [(j, pid, msg)]"
  proof (rule distinct_fst_singleton [OF leaves_at_distinct])
    show "(j, pid, msg) \<in> set (leaves_at ?D 0 (cross_section b1))"
      unfolding c(7) using leaf by simp
    show "\<forall>x \<in> set (leaves_at ?D 0 (cross_section b1)). fst x = j"
      unfolding c(7) using ok j by (auto simp: block_ok_def)
  qed
  then obtain path i where p: "length path = ?D" "j = i"
    "cross_section b1 = path_section i (2 ^ ?D) 0 path (CommitmentLeaf pid msg)"
    using rep_path [of h lh ?D 0 0 "cross_section b1" r j pid msg] c(2,3,6)
    by (auto simp: block_ok_def)
  define mpf where "mpf = \<lparr> mp_pos = block_protocol_id_pos b1 pid, mp_cofactor = mb_cofactor b1,
    mp_path = path \<rparr>"
  have D: "?D \<le> 31" using ok by (simp add: block_ok_def)
  have pos: "block_protocol_id_pos b1 pid = i" using j p(2) c(3,4) by (simp add: block_protocol_id_pos_def)
  have "to_merkle_proof h lh b pid = Some (Ok mpf)"
    using D p(1) by (simp add: to_merkle_proof_def c(1) p(3) path_map_section Let_def mpf_def)
  moreover have "block_with mpf pid msg = Some (Ok b1)"
    unfolding block_with_Ok
    using D p pos c(3,4,5) by (simp add: mpf_def block_protocol_id_pos_def)
  ultimately show ?thesis using that c(2,3,4) by blast
qed

lemma to_merkle_proof_unknown:
  assumes "pid \<notin> leaf_protocols (cross_section b)"
  shows "to_merkle_proof h lh b pid = Some (Err (LeafNotKnown pid))"
  using assms by (simp add: to_merkle_proof_def conceal_except_def Let_def)

section \<open>Inclusion proofs are binding\<close>

text \<open>The hashes of the nodes at leaf level, with their positions.\<close>

fun hashes_at :: "(Leaf \<Rightarrow> MerkleHash) \<Rightarrow> nat \<Rightarrow> nat \<Rightarrow> TreeNode list \<Rightarrow> (nat \<times> MerkleHash) list" where
  "hashes_at lh D off [] = []"
| "hashes_at lh D off (n # ns) =
     (if depth_or n D = D then [(off, to_merkle_node lh n)] else [])
     @ hashes_at lh D (off + width D n) ns"

lemma hashes_at_append:
  "hashes_at lh D off (xs @ ys) = hashes_at lh D off xs @ hashes_at lh D (off + widths D xs) ys"
  by (induction xs arbitrary: off) (simp_all add: add.assoc)

lemma hashes_at_pos: "(i, x) \<in> set (hashes_at lh D off ns) \<Longrightarrow> off \<le> i \<and> i < off + widths D ns"
proof (induction ns arbitrary: off)
  case (Cons n ns)
  then show ?case using width_pos [of D n] by fastforce
qed simp

lemma leaf_hash_at:
  "(i, p, m) \<in> set (leaves_at D off ns) \<Longrightarrow> (i, lh (Inhabited p m)) \<in> set (hashes_at lh D off ns)"
  by (induction D off ns rule: leaves_at.induct) auto

text \<open>
  The root of a cross-section as the recursion over complete binary trees defines it, and the
  nodes hashed on the way.
\<close>

fun split_width :: "nat \<Rightarrow> nat \<Rightarrow> TreeNode list \<Rightarrow> TreeNode list \<times> TreeNode list" where
  "split_width D w [] = ([], [])"
| "split_width D w (n # ns) =
     (if w = 0 then ([], n # ns)
      else let (a, b) = split_width D (w - width D n) ns in (n # a, b))"

primrec section_root ::
  "(MerkleNode \<Rightarrow> MerkleHash) \<Rightarrow> (Leaf \<Rightarrow> MerkleHash) \<Rightarrow> nat \<Rightarrow> nat \<Rightarrow> TreeNode list \<Rightarrow> MerkleHash" where
  "section_root h lh D 0 l = to_merkle_node lh (hd l)"
| "section_root h lh D (Suc k) l =
     (if length l \<le> 1 then to_merkle_node lh (hd l)
      else let (a, b) = split_width D (2 ^ k) l in
           mh_branches h (D - Suc k) (2 ^ D) (section_root h lh D k a) (section_root h lh D k b))"

primrec section_nodes ::
  "(MerkleNode \<Rightarrow> MerkleHash) \<Rightarrow> (Leaf \<Rightarrow> MerkleHash) \<Rightarrow> nat \<Rightarrow> nat \<Rightarrow> TreeNode list \<Rightarrow> MerkleNode list" where
  "section_nodes h lh D 0 l = []"
| "section_nodes h lh D (Suc k) l =
     (if length l \<le> 1 then []
      else let (a, b) = split_width D (2 ^ k) l in
           node_with BranchNode (D - Suc k) (2 ^ D) (section_root h lh D k a) (section_root h lh D k b)
           # section_nodes h lh D k a @ section_nodes h lh D k b)"

lemma split_width_append: "split_width D (widths D xs) (xs @ ys) = (xs, ys)"
proof (induction xs)
  case Nil
  then show ?case by (cases ys) auto
next
  case (Cons n xs)
  then show ?case using width_pos [of D n] by simp
qed

lemma rep_section_root: "rep h lh D d off l r \<Longrightarrow> section_root h lh D (D - d) l = r"
proof (induction rule: rep.induct)
  case (rep_hash d off x)
  then show ?case by (cases "D - d") simp_all
next
  case (rep_leaf off p m)
  then show ?case by simp
next
  case (rep_node d off l1 r1 l2 r2)
  have k: "D - d = Suc (D - Suc d)" "D - Suc (D - Suc d) = d" using rep_node.hyps(1) by simp_all
  have "split_width D (2 ^ (D - Suc d)) (l1 @ l2) = (l1, l2)"
    using split_width_append [of D l1 l2] rep_widths [OF rep_node.hyps(3)] by simp
  moreover have "\<not> length (l1 @ l2) \<le> 1"
    using rep_not_Nil [OF rep_node.hyps(3)] rep_not_Nil [OF rep_node.hyps(4)]
    by (cases l1; cases l2) auto
  ultimately show ?case using rep_node.IH by (simp add: k)
qed

lemma rep_section_nodes:
  assumes "d < D" "rep h lh D (Suc d) off l1 r1" "rep h lh D (Suc d) (off + 2 ^ (D - Suc d)) l2 r2"
  shows "section_nodes h lh D (D - d) (l1 @ l2) =
    node_with BranchNode d (2 ^ D) r1 r2
    # section_nodes h lh D (D - Suc d) l1 @ section_nodes h lh D (D - Suc d) l2"
proof -
  have k: "D - d = Suc (D - Suc d)" "D - Suc (D - Suc d) = d" using assms(1) by simp_all
  have "split_width D (2 ^ (D - Suc d)) (l1 @ l2) = (l1, l2)"
    using split_width_append [of D l1 l2] rep_widths [OF assms(2)] by simp
  moreover have "\<not> length (l1 @ l2) \<le> 1"
    using rep_not_Nil [OF assms(2)] rep_not_Nil [OF assms(3)] by (cases l1; cases l2) auto
  ultimately show ?thesis by (simp add: k rep_section_root [OF assms(2)] rep_section_root [OF assms(3)])
qed

lemma rep_binding:
  assumes "rep h lh D d off l r" "rep h lh D d off l' r"
    and "\<not> collision_in h (section_nodes h lh D (D - d) l @ section_nodes h lh D (D - d) l')"
    and "(i, x) \<in> set (hashes_at lh D off l)" "(i, y) \<in> set (hashes_at lh D off l')"
  shows "x = y"
  using assms
proof (induction arbitrary: l' rule: rep.induct)
  case (rep_leaf off p m)
  then show ?case by (auto elim!: rep_leaf_level)
next
  case (rep_hash d off z)
  then have "d = D" by (auto split: if_splits)
  then show ?case using rep_hash by (auto elim!: rep_leaf_level)
next
  case (rep_node d off l1 r1 l2 r2)
  note w1 = rep_widths [OF rep_node.hyps(3)]
  note n1 = rep_section_nodes [OF rep_node.hyps(1,3,4)]
  show ?case
    using rep_node.prems(1) rep_node.hyps(1)
  proof (cases rule: rep_hash_or_node)
    case 1
    then show ?thesis using rep_node.prems(4) rep_node.hyps(1) by simp
  next
    case (2 k1 s1 k2 s2)
    note n2 = rep_section_nodes [OF rep_node.hyps(1) 2(3,4)]
    have "node_with BranchNode d (2 ^ D) r1 r2 = node_with BranchNode d (2 ^ D) s1 s2"
      using 2(2) by (intro collision_inD [OF rep_node.prems(2)]) (simp_all add: mh_branches_def n1 n2 2(1))
    then have eq: "s1 = r1" "s2 = r2" using node_with_eq by metis+
    have nc: "\<not> collision_in h (section_nodes h lh D (D - Suc d) l1 @ section_nodes h lh D (D - Suc d) k1)"
      "\<not> collision_in h (section_nodes h lh D (D - Suc d) l2 @ section_nodes h lh D (D - Suc d) k2)"
      using rep_node.prems(2) unfolding n1 2(1) n2 by (auto simp: collision_in_def)
    note w2 = rep_widths [OF 2(3)]
    show ?thesis
    proof (cases "i < off + 2 ^ (D - Suc d)")
      case True
      then have "(i, x) \<in> set (hashes_at lh D off l1)" "(i, y) \<in> set (hashes_at lh D off k1)"
        using rep_node.prems(3,4) 2(1) w1 w2 by (auto simp: hashes_at_append dest: hashes_at_pos)
      then show ?thesis using rep_node.IH(1) [OF 2(3) [unfolded eq] nc(1)] by blast
    next
      case False
      then have "(i, x) \<in> set (hashes_at lh D (off + 2 ^ (D - Suc d)) l2)"
        "(i, y) \<in> set (hashes_at lh D (off + 2 ^ (D - Suc d)) k2)"
        using rep_node.prems(3,4) 2(1) w1 w2 by (auto simp: hashes_at_append dest: hashes_at_pos)
      then show ?thesis using rep_node.IH(2) [OF 2(4) [unfolded eq] nc(2)] by blast
    qed
  qed
qed

text \<open>The concealed form of a block, and a collision while two blocks are hashed.\<close>

definition block_nodes ::
  "(MerkleNode \<Rightarrow> MerkleHash) \<Rightarrow> (Leaf \<Rightarrow> MerkleHash) \<Rightarrow> MerkleBlock \<Rightarrow> MerkleNode list" where
  "block_nodes h lh b = section_nodes h lh (mb_depth b) (mb_depth b) (cross_section b)"

definition block_concealed ::
  "(MerkleNode \<Rightarrow> MerkleHash) \<Rightarrow> (Leaf \<Rightarrow> MerkleHash) \<Rightarrow> MerkleBlock \<Rightarrow> MerkleConcealed" where
  "block_concealed h lh b = \<lparr> mc_depth = mb_depth b, mc_cofactor = mb_cofactor b,
     merkle_root = section_root h lh (mb_depth b) (mb_depth b) (cross_section b) \<rparr>"

definition block_leaves :: "MerkleBlock \<Rightarrow> Leaf list" where
  "block_leaves b = map (\<lambda>(i, p, m). Inhabited p m) (leaves_at (mb_depth b) 0 (cross_section b))"

definition block_collision ::
  "(MerkleNode \<Rightarrow> MerkleHash) \<Rightarrow> (Leaf \<Rightarrow> MerkleHash) \<Rightarrow> (MerkleConcealed \<Rightarrow> Commitment)
     \<Rightarrow> MerkleBlock \<Rightarrow> MerkleBlock \<Rightarrow> bool" where
  "block_collision h lh ch b b' \<longleftrightarrow>
     collision_in ch [block_concealed h lh b, block_concealed h lh b']
     \<or> collision_in h (block_nodes h lh b @ block_nodes h lh b')
     \<or> collision_in lh (block_leaves b @ block_leaves b')"

lemma block_ok_root: "block_ok h lh b r \<Longrightarrow> merkle_root (block_concealed h lh b) = r"
  using rep_section_root by (fastforce simp: block_ok_def block_concealed_def)

lemma block_commit_id_ok:
  assumes "block_ok h lh b r"
  shows "block_commit_id h lh ch b = Some (ch (block_concealed h lh b))"
  using block_conceal_root [OF assms] block_ok_root [OF assms]
  by (simp add: block_commit_id_def block_concealed_def)

lemma block_binding:
  assumes ok: "block_ok h lh b r" "block_ok h lh b' r'"
    and c: "block_commit_id h lh ch b = Some c" "block_commit_id h lh ch b' = Some c"
    and nc: "\<not> block_collision h lh ch b b'"
  shows "mb_depth b' = mb_depth b" "mb_cofactor b' = mb_cofactor b" "r' = r"
    and "(i, p, m) \<in> set (leaves_at (mb_depth b) 0 (cross_section b)) \<Longrightarrow>
      (i, p', m') \<in> set (leaves_at (mb_depth b) 0 (cross_section b')) \<Longrightarrow> p = p' \<and> m = m'"
proof -
  have "ch (block_concealed h lh b) = ch (block_concealed h lh b')"
    using c by (simp add: block_commit_id_ok [OF ok(1)] block_commit_id_ok [OF ok(2)])
  then have eq: "block_concealed h lh b = block_concealed h lh b'"
    using nc by (auto simp: block_collision_def collision_in_def)
  then show D: "mb_depth b' = mb_depth b" and "mb_cofactor b' = mb_cofactor b"
    by (simp_all add: block_concealed_def)
  show r: "r' = r" using eq block_ok_root ok by metis
  assume l: "(i, p, m) \<in> set (leaves_at (mb_depth b) 0 (cross_section b))"
    "(i, p', m') \<in> set (leaves_at (mb_depth b) 0 (cross_section b'))"
  have "lh (Inhabited p m) = lh (Inhabited p' m')"
  proof (rule rep_binding [of h lh "mb_depth b" 0 0 "cross_section b" r "cross_section b'"])
    show "\<not> collision_in h (section_nodes h lh (mb_depth b) (mb_depth b - 0) (cross_section b)
        @ section_nodes h lh (mb_depth b) (mb_depth b - 0) (cross_section b'))"
      using nc by (simp add: block_collision_def block_nodes_def D)
  qed (use ok D r leaf_hash_at [OF l(1)] leaf_hash_at [OF l(2)] in \<open>auto simp: block_ok_def\<close>)
  moreover have "Inhabited p m \<in> set (block_leaves b)" "Inhabited p' m' \<in> set (block_leaves b')"
    using l by (force simp: block_leaves_def D)+
  ultimately have "Inhabited p m = Inhabited p' m'"
    using nc collision_inD [of lh "block_leaves b @ block_leaves b'"] by (auto simp: block_collision_def)
  then show "p = p' \<and> m = m'" by simp
qed

lemma convolve_Ok:
  "convolve h lh ch mpf pid msg = Some (Ok c) \<longleftrightarrow>
     (\<exists>b. block_with mpf pid msg = Some (Ok b) \<and> block_commit_id h lh ch b = Some c)"
  by (auto simp: convolve_def split: option.splits sum.splits)

lemma convolve_total:
  assumes "length (mp_path mpf) \<le> 31"
  shows "\<exists>x. convolve h lh ch mpf pid msg = Some x"
proof (cases "block_with mpf pid msg")
  case None
  then show ?thesis using assms by (auto simp: block_with_def Let_def split: if_splits prod.splits)
next
  case (Some x)
  show ?thesis
  proof (cases x)
    case (Inl e)
    then show ?thesis using Some by (simp add: convolve_def)
  next
    case (Inr b)
    obtain r where "block_ok h lh b r" using block_with_block_ok Some Inr by blast
    then show ?thesis
      using Some Inr by (simp add: convolve_def block_commit_id_def block_conceal_root)
  qed
qed

section \<open>A proof against the commitment of a tree\<close>

lemma tree_hashes_at:
  "hashes_at lh (tree_depth t) a (map (tree_cross_node lh t) [a..<b]) =
     map (\<lambda>i. (i, lh (tree_leaf t i))) [a..<b]"
proof (induction "b - a" arbitrary: a)
  case (Suc n)
  then have "[a..<b] = a # [Suc a..<b]" by (simp add: upt_conv_Cons)
  then show ?case
    using Suc by (auto simp: tree_cross_node_def tree_leaf_def split: option.splits)
qed simp

text \<open>A collision while a tree and a proof block are hashed.\<close>

definition inclusion_collision ::
  "(MerkleNode \<Rightarrow> MerkleHash) \<Rightarrow> (Leaf \<Rightarrow> MerkleHash) \<Rightarrow> (MerkleConcealed \<Rightarrow> Commitment)
     \<Rightarrow> MerkleTree \<Rightarrow> MerkleBlock \<Rightarrow> ProtocolId \<Rightarrow> Message \<Rightarrow> bool" where
  "inclusion_collision h lh ch t b pid msg \<longleftrightarrow>
     collision_in ch [block_concealed h lh (block_of_tree lh t), block_concealed h lh b]
     \<or> collision_in h (block_nodes h lh (block_of_tree lh t) @ block_nodes h lh b)
     \<or> collision_in lh [tree_leaf t (tree_protocol_id_pos t pid), Inhabited pid msg]"

lemma proof_sound_tree:
  assumes t: "tree_ok t" "tree_commit_id h lh ch t = Some c"
    and b: "block_with mpf pid msg = Some (Ok b)" "block_commit_id h lh ch b = Some c"
    and nc: "\<not> inclusion_collision h lh ch t b pid msg"
  shows "omap_get (tree_messages t) pid = Some msg"
proof -
  let ?bt = "block_of_tree lh t" and ?i = "tree_protocol_id_pos t pid"
  obtain r where r: "block_ok h lh ?bt r" using tree_block_ok [OF t(1)] by blast
  obtain r' where r': "block_ok h lh b r'"
    "leaves_at (mb_depth b) 0 (cross_section b) = [(block_protocol_id_pos b pid, pid, msg)]"
    by (rule block_with_block_ok [OF b(1)])
  have "ch (block_concealed h lh ?bt) = ch (block_concealed h lh b)"
    using t(2) b(2) by (simp add: tree_commit_id_def block_commit_id_ok [OF r] block_commit_id_ok [OF r'(1)])
  then have eq: "block_concealed h lh ?bt = block_concealed h lh b"
    using nc by (auto simp: inclusion_collision_def collision_in_def)
  then have D: "mb_depth b = tree_depth t" "mb_cofactor b = tree_cofactor t"
    by (simp_all add: block_concealed_def block_of_tree_def)
  have "r' = r" using eq block_ok_root r r'(1) by metis
  have i: "block_protocol_id_pos b pid = ?i"
    by (simp add: block_protocol_id_pos_def tree_protocol_id_pos_def D)
  have h1: "(?i, lh (tree_leaf t ?i)) \<in> set (hashes_at lh (tree_depth t) 0 (cross_section ?bt))"
    using protocol_id_pos_less [of pid "tree_cofactor t" "tree_depth t"]
    by (force simp: block_of_tree_def tree_hashes_at tree_width_limit_def tree_protocol_id_pos_def)
  have h2: "(?i, lh (Inhabited pid msg)) \<in> set (hashes_at lh (tree_depth t) 0 (cross_section b))"
    using leaf_hash_at [of ?i pid msg "mb_depth b" 0 "cross_section b" lh] r'(2) by (simp add: i D)
  have "lh (tree_leaf t ?i) = lh (Inhabited pid msg)"
  proof (rule rep_binding [OF _ _ _ h1 h2])
    show "\<not> collision_in h (section_nodes h lh (tree_depth t) (tree_depth t - 0) (cross_section ?bt)
        @ section_nodes h lh (tree_depth t) (tree_depth t - 0) (cross_section b))"
      using nc by (simp add: inclusion_collision_def block_nodes_def D block_of_tree_def)
  qed (use r r'(1) \<open>r' = r\<close> D in \<open>auto simp: block_ok_def block_of_tree_def\<close>)
  then have "tree_leaf t ?i = Inhabited pid msg"
    using nc by (auto simp: inclusion_collision_def collision_in_def)
  then have "omap_get (tree_map t) ?i = Some (pid, msg)"
    by (auto simp: tree_leaf_def split: option.splits)
  then show ?thesis using t(1) by (simp add: tree_ok_def)
qed

text \<open>Two proofs for one protocol and one commitment.\<close>

lemma convolve_binds:
  assumes "convolve h lh ch mpf pid msg = Some (Ok c)" "convolve h lh ch mpf' pid msg' = Some (Ok c)"
  shows "msg = msg'
    \<or> (\<exists>b b'. block_with mpf pid msg = Some (Ok b) \<and> block_with mpf' pid msg' = Some (Ok b')
          \<and> block_collision h lh ch b b')"
proof -
  obtain b where b: "block_with mpf pid msg = Some (Ok b)" "block_commit_id h lh ch b = Some c"
    using assms(1) by (auto simp: convolve_Ok)
  obtain b' where b': "block_with mpf' pid msg' = Some (Ok b')" "block_commit_id h lh ch b' = Some c"
    using assms(2) by (auto simp: convolve_Ok)
  obtain r where r: "block_ok h lh b r"
    "leaves_at (mb_depth b) 0 (cross_section b) = [(block_protocol_id_pos b pid, pid, msg)]"
    by (rule block_with_block_ok [OF b(1)])
  obtain r' where r': "block_ok h lh b' r'"
    "leaves_at (mb_depth b') 0 (cross_section b') = [(block_protocol_id_pos b' pid, pid, msg')]"
    by (rule block_with_block_ok [OF b'(1)])
  have "msg = msg'" if "\<not> block_collision h lh ch b b'"
  proof -
    note eq = block_binding [OF r(1) r'(1) b(2) b'(2) that]
    then have "block_protocol_id_pos b pid = block_protocol_id_pos b' pid"
      by (simp add: block_protocol_id_pos_def)
    then show ?thesis using eq(4) [of "block_protocol_id_pos b pid" pid msg pid msg'] r(2) r'(2) eq(1) by simp
  qed
  then show ?thesis using b(1) b'(1) by blast
qed

text \<open>The smallest proof: a tree of one leaf.\<close>

definition one_leaf_proof :: MerkleProof where
  "one_leaf_proof = \<lparr> mp_pos = 0, mp_cofactor = 0, mp_path = [] \<rparr>"

lemma one_leaf_convolve:
  "convolve h lh ch one_leaf_proof pid msg =
     Some (Ok (ch \<lparr> mc_depth = 0, mc_cofactor = 0, merkle_root = lh (Inhabited pid msg) \<rparr>))"
proof -
  have "protocol_id_pos pid 0 0 = 0" using protocol_id_pos_less [of pid 0 0] by simp
  then obtain b where b: "block_with one_leaf_proof pid msg = Some (Ok b)"
    "b = \<lparr> mb_depth = 0, mb_cofactor = 0, cross_section = [CommitmentLeaf pid msg], mb_entropy = None \<rparr>"
    by (auto simp: block_with_def one_leaf_proof_def proof_width_limit_def)
  obtain r where "block_ok h lh b r" using block_with_block_ok [OF b(1)] by blast
  then have "block_commit_id h lh ch b = Some (ch (block_concealed h lh b))" by (rule block_commit_id_ok)
  then show ?thesis using b by (simp add: convolve_def block_concealed_def)
qed

end
