(* ===== verification/Mpc_Properties.thy ===== *)
theory Mpc_Properties
  imports Mpc_Inclusion
begin

text \<open>
  What the multi-protocol commitments (\<open>commit_verify/mpc\<close>) promise to their callers, stated
  over the source functions alone: the search that places the messages, the commitment of the
  tree, concealment, and inclusion proofs, which are complete and binding.
\<close>

section \<open>A small tree\<close>

text \<open>Two protocols whose identifiers start with the bytes 5 and 6, in a tree of eight leaves.\<close>

definition demo_source :: MultiSource where
  "demo_source = \<lparr> min_depth = 3,
     messages = [(2261564242916331941866620800950935700259179388000792266395655937654553313280, 100),
                 (2713877091499598330239944961141122840311015265600950719674787125185463975936, 200)],
     static_entropy = Some 7 \<rparr>"

definition demo_tree :: MerkleTree where
  "demo_tree = \<lparr> tree_depth = 3, tree_entropy = 7, tree_cofactor = 0,
     tree_messages = messages demo_source,
     tree_map = map (\<lambda>(i, x). (i, x)) (zip [5, 6] (messages demo_source)) \<rparr>"

lemma demo_pos:
  "protocol_id_pos 2261564242916331941866620800950935700259179388000792266395655937654553313280 0 3 = 5"
  "protocol_id_pos 2713877091499598330239944961141122840311015265600950719674787125185463975936 0 3 = 6"
  by (simp_all add: protocol_id_pos_def id_bytes_def upt_rec)

lemma demo_commit: "try_commit 0 demo_source = Ok demo_tree"
  unfolding try_commit_def demo_source_def demo_tree_def
  by (simp add: Let_def)
     (subst try_depths.simps, simp add: Let_def COFACTOR_ATTEMPTS_def demo_pos omap_contains_def upt_rec)

lemma demo_messages:
  "omap_ok (messages demo_source)" "min_depth demo_source = 3"
  "omap_get (messages demo_source) 2261564242916331941866620800950935700259179388000792266395655937654553313280 = Some 100"
  by (simp_all add: demo_source_def omap_ok_def)

lemma demo_tree_ok:
  "tree_ok demo_tree" "omap_get (tree_messages demo_tree) 2261564242916331941866620800950935700259179388000792266395655937654553313280 = Some 100"
  using try_commit_tree_ok [OF demo_commit demo_messages(1)] demo_messages by simp_all

lemma proof_complete_tree:
  assumes t: "tree_ok t" "omap_get (tree_messages t) pid = Some msg"
  shows "\<exists>mpf c. to_merkle_proof h lh (block_of_tree lh t) pid = Some (Ok mpf)
    \<and> tree_commit_id h lh ch t = Some c \<and> convolve h lh ch mpf pid msg = Some (Ok c)"
proof -
  obtain r where r: "block_ok h lh (block_of_tree lh t) r" using tree_block_ok [OF t(1)] by blast
  have "(tree_protocol_id_pos t pid, pid, msg)
      \<in> set (leaves_at (mb_depth (block_of_tree lh t)) 0 (cross_section (block_of_tree lh t)))"
    using tree_block_leaf [OF t] by (simp add: block_of_tree_def)
  then obtain mpf b' where p: "to_merkle_proof h lh (block_of_tree lh t) pid = Some (Ok mpf)"
    "block_with mpf pid msg = Some (Ok b')" "block_ok h lh b' r"
    "mb_depth b' = mb_depth (block_of_tree lh t)" "mb_cofactor b' = mb_cofactor (block_of_tree lh t)"
    by (rule to_merkle_proof_complete [OF r])
  have "block_commit_id h lh ch b' = tree_commit_id h lh ch t"
    using p(4,5) by (simp add: tree_commit_id_def block_commit_id_def block_conceal_root [OF r]
        block_conceal_root [OF p(3)])
  then show ?thesis
    using p(1,2) block_commit_id_ok [OF p(3)] by (intro exI conjI) (auto simp: convolve_Ok)
qed

section \<open>Properties\<close>

text \<open>C12: A message put into a multi-protocol commitment can be proved to be in it.  When
  \<open>try_commit\<close> builds a tree from a source, then for every message of the source the block of
  the tree gives an inclusion proof, and convolving that proof with the protocol and message
  gives exactly the commitment of the tree, without reaching a panic.\<close>

theorem mpc_proof_complete:
  assumes "try_commit rng src = Ok t" "omap_ok (messages src)" "min_depth src \<le> 31"
    and "omap_get (messages src) pid = Some msg"
  shows "\<exists>mpf c. to_merkle_proof h lh (block_of_tree lh t) pid = Some (Ok mpf)
    \<and> tree_commit_id h lh ch t = Some c \<and> convolve h lh ch mpf pid msg = Some (Ok c)"
  using proof_complete_tree try_commit_tree_ok [OF assms(1-3)] assms(4) by simp

theorem mpc_proof_complete_witness:
  "try_commit 0 demo_source = Ok demo_tree
   \<and> (\<exists>mpf c. to_merkle_proof (\<lambda>n. node1 n + 3 * node2 n) (\<lambda>_. 1) (block_of_tree (\<lambda>_. 1) demo_tree)
        2261564242916331941866620800950935700259179388000792266395655937654553313280 = Some (Ok mpf)
      \<and> tree_commit_id (\<lambda>n. node1 n + 3 * node2 n) (\<lambda>_. 1) merkle_root demo_tree = Some c
      \<and> convolve (\<lambda>n. node1 n + 3 * node2 n) (\<lambda>_. 1) merkle_root mpf
          2261564242916331941866620800950935700259179388000792266395655937654553313280 100 = Some (Ok c))"
  using mpc_proof_complete [OF demo_commit demo_messages(1) _ demo_messages(3)] demo_commit
  by (simp add: demo_messages(2))

text \<open>C13: Nothing else can be proved to be in a commitment.  A proof that convolves a protocol
  and a message to the commitment of a tree shows that the source of the tree assigned this
  very message to the protocol, unless hashing the tree and the proof met a collision of one of
  the three hashes, on the values listed by \<open>inclusion_collision\<close>.\<close>

theorem mpc_proof_sound:
  assumes "try_commit rng src = Ok t" "omap_ok (messages src)" "min_depth src \<le> 31"
    and "tree_commit_id h lh ch t = Some c" "convolve h lh ch mpf pid msg = Some (Ok c)"
  shows "omap_get (messages src) pid = Some msg
    \<or> (\<exists>b. block_with mpf pid msg = Some (Ok b) \<and> inclusion_collision h lh ch t b pid msg)"
proof -
  have t: "tree_ok t" "tree_messages t = messages src"
    using try_commit_tree_ok [OF assms(1-3)] by simp_all
  obtain b where b: "block_with mpf pid msg = Some (Ok b)" "block_commit_id h lh ch b = Some c"
    using assms(5) by (auto simp: convolve_Ok)
  show ?thesis using proof_sound_tree [OF t(1) assms(4) b] b(1) t(2) by auto
qed

theorem mpc_proof_sound_witness:
  "\<exists>mpf c. tree_commit_id (\<lambda>n. node1 n + 3 * node2 n) (\<lambda>_. 1) merkle_root demo_tree = Some c
    \<and> convolve (\<lambda>n. node1 n + 3 * node2 n) (\<lambda>_. 1) merkle_root mpf 2261564242916331941866620800950935700259179388000792266395655937654553313280 100 = Some (Ok c)
    \<and> (omap_get (messages demo_source) 2261564242916331941866620800950935700259179388000792266395655937654553313280 = Some 100
       \<or> (\<exists>b. block_with mpf 2261564242916331941866620800950935700259179388000792266395655937654553313280 100 = Some (Ok b)
             \<and> inclusion_collision (\<lambda>n. node1 n + 3 * node2 n) (\<lambda>_. 1) merkle_root demo_tree b 2261564242916331941866620800950935700259179388000792266395655937654553313280 100))"
proof -
  obtain mpf c where
    c: "tree_commit_id (\<lambda>n. node1 n + 3 * node2 n) (\<lambda>_. 1) merkle_root demo_tree = Some c"
      "convolve (\<lambda>n. node1 n + 3 * node2 n) (\<lambda>_. 1) merkle_root mpf 2261564242916331941866620800950935700259179388000792266395655937654553313280 100 = Some (Ok c)"
    using proof_complete_tree [OF demo_tree_ok] by blast
  show ?thesis
    using mpc_proof_sound [OF demo_commit demo_messages(1) _ c] c demo_messages(2) by auto
qed

text \<open>C14: A commitment holds one message per protocol.  Two inclusion proofs for the same
  protocol that convolve to the same commitment carry the same message, unless hashing the two
  proof blocks met a collision.\<close>

theorem mpc_proofs_bind:
  assumes "convolve h lh ch mpf pid msg = Some (Ok c)" "convolve h lh ch mpf' pid msg' = Some (Ok c)"
  shows "msg = msg'
    \<or> (\<exists>b b'. block_with mpf pid msg = Some (Ok b) \<and> block_with mpf' pid msg' = Some (Ok b')
          \<and> block_collision h lh ch b b')"
  using assms by (rule convolve_binds)

theorem mpc_proofs_bind_witness:
  "convolve (\<lambda>_. 0) (\<lambda>_. 1) merkle_root one_leaf_proof 5 100 = Some (Ok 1)
   \<and> convolve (\<lambda>_. 0) (\<lambda>_. 1) merkle_root one_leaf_proof 5 200 = Some (Ok 1)
   \<and> (\<exists>b b'. block_with one_leaf_proof 5 100 = Some (Ok b)
        \<and> block_with one_leaf_proof 5 200 = Some (Ok b')
        \<and> block_collision (\<lambda>_. 0) (\<lambda>_. 1) merkle_root b b')"
  using mpc_proofs_bind [of "\<lambda>_. 0" "\<lambda>_. 1" merkle_root one_leaf_proof 5 100 1 one_leaf_proof 200]
  by (simp add: one_leaf_convolve)

text \<open>C15: Concealing does not change what is committed to.  For any set of protocols of the
  tree, \<open>conceal_except\<close> on its block succeeds, the block keeps the commitment of the tree, and
  the messages it still reveals are exactly those of the requested protocols.\<close>

theorem conceal_except_keeps_commitment:
  assumes "tree_ok t" "\<forall>p \<in> set ps. omap_get (tree_messages t) p \<noteq> None"
  shows "\<exists>b' k. conceal_except h lh (block_of_tree lh t) ps = Some (b', Ok k)
    \<and> block_commit_id h lh ch b' = tree_commit_id h lh ch t
    \<and> leaf_protocols (cross_section b') = set ps"
proof -
  let ?bt = "block_of_tree lh t" and ?D = "tree_depth t"
  obtain r where r: "block_ok h lh ?bt r" using tree_block_ok [OF assms(1)] by blast
  have D: "mb_depth ?bt = ?D" by (simp add: block_of_tree_def)
  have leaf: "\<exists>i m. (i, p, m) \<in> set (leaves_at ?D 0 (cross_section ?bt))" if "p \<in> set ps" for p
    using tree_block_leaf [OF assms(1)] assms(2) that by blast
  then have "set ps \<subseteq> leaf_protocols (cross_section ?bt)"
    unfolding leaf_protocols_at [of "cross_section ?bt" ?D 0] by force
  then obtain b' k where b': "conceal_except h lh ?bt ps = Some (b', Ok k)" "block_ok h lh b' r"
    "mb_depth b' = mb_depth ?bt" "mb_cofactor b' = mb_cofactor ?bt" "mb_entropy b' = None"
    "\<not> mergeable (mb_depth ?bt) 0 (cross_section b')"
    "leaves_at (mb_depth ?bt) 0 (cross_section b') =
       filter (\<lambda>(i, p, m). p \<in> set ps) (leaves_at (mb_depth ?bt) 0 (cross_section ?bt))"
    by (rule conceal_except_Ok [OF r])
  have "leaf_protocols (cross_section b') = set ps"
    unfolding leaf_protocols_at [of "cross_section b'" ?D 0] b'(7) [unfolded D]
    using leaf by force
  then show ?thesis
    using b' by (simp add: tree_commit_id_def block_commit_id_def block_conceal_root [OF r]
        block_conceal_root [OF b'(2)])
qed

theorem conceal_except_keeps_commitment_witness:
  "\<exists>b' k. conceal_except (\<lambda>n. node1 n + 3 * node2 n) (\<lambda>_. 1) (block_of_tree (\<lambda>_. 1) demo_tree) [2261564242916331941866620800950935700259179388000792266395655937654553313280]
      = Some (b', Ok k)
    \<and> block_commit_id (\<lambda>n. node1 n + 3 * node2 n) (\<lambda>_. 1) merkle_root b'
      = tree_commit_id (\<lambda>n. node1 n + 3 * node2 n) (\<lambda>_. 1) merkle_root demo_tree
    \<and> leaf_protocols (cross_section b') = {2261564242916331941866620800950935700259179388000792266395655937654553313280}"
  using conceal_except_keeps_commitment [OF demo_tree_ok(1), of "[2261564242916331941866620800950935700259179388000792266395655937654553313280]"] demo_tree_ok(2) by simp

text \<open>C16: The search for a tree gives up only when it has to say why.  When \<open>try_commit\<close>
  succeeds, the tree keeps the messages, every message sits at the position its protocol
  identifier determines, no position holds anything else, and the commitment of the tree is
  the hash of its depth, cofactor and Merkle root.  The three errors mean: no messages and no
  minimal depth, more than \<open>2\<^sup>31\<close> messages, or two of the messages share their position at
  every depth from the minimal one to 31 with cofactor zero.\<close>

theorem try_commit_spec:
  assumes "omap_ok (messages src)" "min_depth src \<le> 31"
  shows "case try_commit rng src of
      Inr t \<Rightarrow> tree_messages t = messages src \<and> min_depth src \<le> tree_depth t \<and> tree_depth t \<le> 31
        \<and> (\<forall>i p m. omap_get (tree_map t) i = Some (p, m) \<longleftrightarrow>
              omap_get (messages src) p = Some m \<and> i = tree_protocol_id_pos t p)
        \<and> (\<exists>r. tree_root h lh t = Some r
              \<and> tree_commit_id h lh ch t = Some (ch \<lparr> mc_depth = tree_depth t,
                    mc_cofactor = tree_cofactor t, merkle_root = r \<rparr>))
    | Inl MpcEmpty \<Rightarrow> messages src = [] \<and> min_depth src = 0
    | Inl (TooManyMessages n) \<Rightarrow> n = length (messages src) \<and> n > 2 ^ 31
    | Inl (CantFitInMaxSlots n) \<Rightarrow> n = length (messages src)
        \<and> (\<forall>k. min_depth src \<le> k \<and> k \<le> 31 \<and> n \<le> 2 ^ k \<longrightarrow> place_messages 0 k (messages src) [] = None)"
proof (cases "try_commit rng src")
  case (Inr t)
  note t = try_commit_tree_ok [OF Inr assms]
  obtain r where r: "tree_root h lh t = Some r" "block_ok h lh (block_of_tree lh t) r"
    using tree_block_ok [of t h lh] t by blast
  have "tree_commit_id h lh ch t =
      Some (ch \<lparr> mc_depth = tree_depth t, mc_cofactor = tree_cofactor t, merkle_root = r \<rparr>)"
    unfolding tree_commit_id_def block_commit_id_def block_conceal_root [OF r(2)]
    by (simp add: block_of_tree_def)
  then show ?thesis using Inr t r(1) by (simp add: tree_ok_def)
next
  case (Inl e)
  show ?thesis
  proof (cases "min_depth src = 0 \<and> messages src = [] \<or> length (messages src) > 2 ^ 31")
    case True
    then show ?thesis using Inl by (auto simp: try_commit_def Let_def split: if_splits)
  next
    case False
    then have "try_depths (messages src)
        (case static_entropy src of Some e \<Rightarrow> e | None \<Rightarrow> rng) (min_depth src) 1 = Err e"
      using Inl by (auto simp: try_commit_def Let_def split: if_splits)
    from try_depths_Err [OF this assms(2)] show ?thesis using Inl by simp
  qed
qed

theorem try_commit_spec_witness:
  "(\<exists>r. tree_root (\<lambda>n. node1 n + 3 * node2 n) (\<lambda>_. 1) demo_tree = Some r
      \<and> tree_commit_id (\<lambda>n. node1 n + 3 * node2 n) (\<lambda>_. 1) merkle_root demo_tree = Some r)
   \<and> tree_depth demo_tree = 3"
  using try_commit_spec [OF demo_messages(1), where rng = 0 and h = "\<lambda>n. node1 n + 3 * node2 n"
      and lh = "\<lambda>_. 1" and ch = merkle_root]
    demo_messages(2)
  by (auto simp: demo_commit demo_tree_def)

end
