(* ===== verification/Dbc.thy ===== *)
theory Dbc
  imports Commit Mpc_Block
begin

text \<open>
  Deterministic bitcoin commitments (\<open>rgb-consensus/src/dbc/\<close>, the two commitment schemes
  \<open>commit_verify/embed.rs\<close> and \<open>commit_verify/convolve.rs\<close>, and the sum type of proofs in
  \<open>validation/commitments.rs\<close>).  A multi-protocol commitment is put into the first \<open>OP_RETURN\<close>
  output of a transaction (\<open>opret\<close>) or into the key of its first taproot output (\<open>tapret\<close>).

  Scripts are lists of bytes.  What the crates \<open>bitcoin\<close> and \<open>secp256k1\<close> do with them is the
  parameter \<open>Btc\<close>; \<open>btc_ok\<close> collects the documented behaviour the proofs use.  The default
  \<open>verify\<close> methods of the two scheme traits are \<open>embed_verify\<close> and \<open>convolve_verify\<close>; the traits
  themselves are the locales \<open>embed_scheme\<close> and \<open>convolve_scheme\<close> of \<open>Dbc_Schemes\<close>, interpreted on
  the implementations for scripts, outputs and transactions.
\<close>

section \<open>The bitcoin library\<close>

type_synonym TapNodeHash = bytes32
type_synonym TapLeafHash = bytes32
type_synonym UntweakedPublicKey = bytes32
type_synonym TweakedPublicKey = bytes32

record TapretCommitment =
  tc_mpc :: Commitment
  tc_nonce :: u8

record Btc =
  is_op_return :: "bytes \<Rightarrow> bool"
  is_p2tr :: "bytes \<Rightarrow> bool"
  push_opcode :: "bytes \<Rightarrow> u8 \<Rightarrow> bytes"
  push_slice :: "bytes \<Rightarrow> bytes \<Rightarrow> bytes"
  new_op_return :: "bytes \<Rightarrow> bytes"
  new_p2tr :: "UntweakedPublicKey \<Rightarrow> TapNodeHash option \<Rightarrow> bytes"
  new_p2tr_tweaked :: "TweakedPublicKey \<Rightarrow> bytes"
  tap_tweak :: "UntweakedPublicKey \<Rightarrow> TapNodeHash option \<Rightarrow> TweakedPublicKey"
  from_script :: "bytes \<Rightarrow> u8 \<Rightarrow> TapNodeHash"
  from_node_hashes :: "TapNodeHash \<Rightarrow> TapNodeHash \<Rightarrow> TapNodeHash"
  tapscript_leaf_hash :: "bytes \<Rightarrow> TapLeafHash"
  node_of_leaf :: "TapLeafHash \<Rightarrow> TapNodeHash"
  enc_tapret :: "TapretCommitment \<Rightarrow> bytes"

abbreviation OP_RETURN :: u8 where
  "OP_RETURN \<equiv> 0x6A"

abbreviation OP_RESERVED :: u8 where
  "OP_RESERVED \<equiv> 0x50"

abbreviation LeafVersion_TapScript :: u8 where
  "LeafVersion_TapScript \<equiv> 0xC0"

text \<open>
  The documented behaviour of scripts: an \<open>OP_RETURN\<close> script starts with that opcode, an
  \<open>OP_RETURN\<close> push of 32 bytes takes 34 bytes and determines the bytes, a taproot script
  determines its key, and no script is both; a tapscript leaf hash is the leaf hash for the
  tapscript version, and the children of a branch are hashed in the order of their values.
\<close>

definition btc_ok :: "Btc \<Rightarrow> bool" where
  "btc_ok B \<longleftrightarrow>
     (\<forall>s. is_op_return B s \<longleftrightarrow> (\<exists>t. s = OP_RETURN # t))
     \<and> (\<forall>s. is_p2tr B s \<longrightarrow> \<not> is_op_return B s)
     \<and> (\<forall>s c. push_opcode B s c = s @ [c])
     \<and> (\<forall>s d. d \<noteq> [] \<and> length d \<le> 75 \<longrightarrow> push_slice B s d = s @ word_of_nat (length d) # d)
     \<and> (\<forall>d. length d = 32 \<longrightarrow> new_op_return B d = OP_RETURN # 32 # d)
     \<and> (\<forall>k r. is_p2tr B (new_p2tr B k r))
     \<and> (\<forall>k. is_p2tr B (new_p2tr_tweaked B k))
     \<and> inj (new_p2tr_tweaked B)
     \<and> (\<forall>c. length (enc_tapret B c) = 33) \<and> inj (enc_tapret B)
     \<and> (\<forall>s. node_of_leaf B (tapscript_leaf_hash B s) = from_script B s LeafVersion_TapScript)
     \<and> (\<forall>a b. from_node_hashes B a b = from_node_hashes B (min a b) (max a b))"

section \<open>Embed-commit\<close>

datatype 'e EmbedVerifyError =
    EmbedCommitmentMismatch
  | InvalidMessage 'e
  | EmbedInvalidProof
  | EmbedProofMismatch

definition embed_verify ::
  "('p \<Rightarrow> 'c \<Rightarrow> ('e EmbedVerifyError, 'c) result) \<Rightarrow> ('c \<Rightarrow> 'm \<Rightarrow> ('e, 'c \<times> 'p) result)
     \<Rightarrow> 'c \<Rightarrow> 'm \<Rightarrow> 'p \<Rightarrow> ('e EmbedVerifyError, unit) result" where
  "embed_verify restore emb c msg pf =
     and_then (restore pf c) (\<lambda>c0.
     and_then (map_err InvalidMessage (emb c0 msg)) (\<lambda>(c', pf').
       if pf' \<noteq> pf then Err EmbedInvalidProof
       else if c \<noteq> c' then Err EmbedCommitmentMismatch
       else Ok ()))"

section \<open>Convolve-commit\<close>

datatype ConvolveVerifyError = ConvCommitmentMismatch | ConvImpossibleMessage | ConvInvalidProof

definition convolve_verify ::
  "('p \<Rightarrow> 'c \<Rightarrow> 's) \<Rightarrow> ('p \<Rightarrow> 'u) \<Rightarrow> ('s \<Rightarrow> 'u \<Rightarrow> 'm \<Rightarrow> ('e, 'c \<times> 'p) result)
     \<Rightarrow> 'p \<Rightarrow> 'm \<Rightarrow> 'c \<Rightarrow> (ConvolveVerifyError, unit) result" where
  "convolve_verify restore suppl commit pf msg c =
     and_then (map_err (\<lambda>_. ConvImpossibleMessage) (commit (restore pf c) (suppl pf) msg)) (\<lambda>(c', pf').
       if pf \<noteq> pf' then Err ConvInvalidProof
       else if c \<noteq> c' then Err ConvCommitmentMismatch
       else Ok ())"

section \<open>Opret\<close>

datatype OpretError = NoOpretOutput | InvalidOpretScript

datatype OpretProof = OpretProof

definition spk_restore ::
  "Btc \<Rightarrow> OpretProof \<Rightarrow> bytes \<Rightarrow> (OpretError EmbedVerifyError, bytes) result" where
  "spk_restore B pf s =
     (if \<not> is_op_return B s then Err (InvalidMessage NoOpretOutput)
      else if length s \<noteq> 34 then Err (InvalidMessage InvalidOpretScript)
      else Ok (push_opcode B [] OP_RETURN))"

definition spk_embed_commit ::
  "Btc \<Rightarrow> bytes \<Rightarrow> Commitment \<Rightarrow> (OpretError, bytes \<times> OpretProof) result" where
  "spk_embed_commit B s msg =
     (if \<not> is_op_return B s then Err NoOpretOutput
      else if length s \<noteq> 1 then Err InvalidOpretScript
      else Ok (new_op_return B (hash_bytes msg), OpretProof))"

definition txout_restore ::
  "Btc \<Rightarrow> OpretProof \<Rightarrow> TxOut \<Rightarrow> (OpretError EmbedVerifyError, TxOut) result" where
  "txout_restore B pf out =
     and_then (spk_restore B pf (script_pubkey out)) (\<lambda>s. Ok (out\<lparr> script_pubkey := s \<rparr>))"

definition txout_embed_commit ::
  "Btc \<Rightarrow> TxOut \<Rightarrow> Commitment \<Rightarrow> (OpretError, TxOut \<times> OpretProof) result" where
  "txout_embed_commit B out msg =
     and_then (spk_embed_commit B (script_pubkey out) msg)
       (\<lambda>(s, pf). Ok (out\<lparr> script_pubkey := s \<rparr>, pf))"

text \<open>A loop that rewrites the first output it is interested in and stops there.\<close>

fun update_first ::
  "('a \<Rightarrow> bool) \<Rightarrow> ('a \<Rightarrow> ('e, 'a \<times> 'b) result) \<Rightarrow> 'e \<Rightarrow> 'a list \<Rightarrow> ('e, 'a list \<times> 'b) result" where
  "update_first p f e [] = Err e"
| "update_first p f e (x # xs) =
     (if p x then and_then (f x) (\<lambda>(y, b). Ok (y # xs, b))
      else and_then (update_first p f e xs) (\<lambda>(ys, b). Ok (x # ys, b)))"

definition tx_restore ::
  "Btc \<Rightarrow> OpretProof \<Rightarrow> Tx \<Rightarrow> (OpretError EmbedVerifyError, Tx) result" where
  "tx_restore B pf tx =
     and_then
       (update_first (\<lambda>out. is_op_return B (script_pubkey out))
          (\<lambda>out. and_then (txout_restore B pf out) (\<lambda>out'. Ok (out', ())))
          (InvalidMessage NoOpretOutput) (tx_output tx))
       (\<lambda>(outs, _). Ok (tx\<lparr> tx_output := outs \<rparr>))"

definition tx_embed_commit ::
  "Btc \<Rightarrow> Tx \<Rightarrow> Commitment \<Rightarrow> (OpretError, Tx \<times> OpretProof) result" where
  "tx_embed_commit B tx msg =
     and_then
       (update_first (\<lambda>out. is_op_return B (script_pubkey out)) (\<lambda>out. txout_embed_commit B out msg)
          NoOpretOutput (tx_output tx))
       (\<lambda>(outs, pf). Ok (tx\<lparr> tx_output := outs \<rparr>, pf))"

definition opret_verify ::
  "Btc \<Rightarrow> OpretProof \<Rightarrow> Commitment \<Rightarrow> Tx \<Rightarrow> (OpretError EmbedVerifyError, unit) result" where
  "opret_verify B pf msg tx = embed_verify (tx_restore B) (tx_embed_commit B) tx msg pf"

section \<open>Tapret\<close>

record TapretRightBranch =
  left_node_hash :: TapNodeHash
  right_node_hash :: TapNodeHash

record LeafScript =
  ls_version :: u8
  ls_script :: bytes

datatype TapretNodePartner =
    LeftNode TapNodeHash
  | RightLeaf LeafScript
  | RightBranch TapretRightBranch

record TapretPathProof =
  partner_node :: "TapretNodePartner option"
  path_nonce :: u8

record TapretProof =
  path_proof :: TapretPathProof
  internal_pk :: UntweakedPublicKey

datatype TapretPathError = MaxDepthExceeded | InvalidNodePartner TapretNodePartner

datatype TapretKeyError =
    AlternativeCommitment TapretNodePartner
  | IncorrectOrdering TapretNodePartner TapLeafHash

datatype TapretError = KeyEmbedding TapretKeyError | NoTaprootOutput

definition TAPRET_SCRIPT_COMMITMENT_PREFIX :: bytes where
  "TAPRET_SCRIPT_COMMITMENT_PREFIX = replicate 29 0x50 @ [0x6A, 0x21]"

definition right_branch_with :: "TapNodeHash \<Rightarrow> TapNodeHash \<Rightarrow> TapretRightBranch" where
  "right_branch_with a b =
     (let (l, r) = (if a < b then (a, b) else (b, a)) in
      \<lparr> left_node_hash = l, right_node_hash = r \<rparr>)"

definition branch_node_hash :: "Btc \<Rightarrow> TapretRightBranch \<Rightarrow> TapNodeHash" where
  "branch_node_hash B br = from_node_hashes B (left_node_hash br) (right_node_hash br)"

definition right_branch :: "TapNodeHash \<Rightarrow> TapNodeHash \<Rightarrow> TapretNodePartner" where
  "right_branch a b = RightBranch (right_branch_with a b)"

fun check_no_commitment :: "TapretNodePartner \<Rightarrow> bool" where
  "check_no_commitment (LeftNode _) = True"
| "check_no_commitment (RightLeaf leaf) =
     (if length (ls_script leaf) < 64 then True
      else take 31 (ls_script leaf) \<noteq> TAPRET_SCRIPT_COMMITMENT_PREFIX)"
| "check_no_commitment (RightBranch br) =
     (take 31 (hash_bytes (left_node_hash br)) \<noteq> TAPRET_SCRIPT_COMMITMENT_PREFIX)"

fun tap_node_hash :: "Btc \<Rightarrow> TapretNodePartner \<Rightarrow> TapNodeHash" where
  "tap_node_hash B (LeftNode h) = h"
| "tap_node_hash B (RightLeaf leaf) = from_script B (ls_script leaf) (ls_version leaf)"
| "tap_node_hash B (RightBranch br) = branch_node_hash B br"

fun check_ordering :: "Btc \<Rightarrow> TapretNodePartner \<Rightarrow> TapNodeHash \<Rightarrow> bool" where
  "check_ordering B (LeftNode l) other = (l \<le> other)"
| "check_ordering B (RightLeaf leaf) other = (other \<le> from_script B (ls_script leaf) (ls_version leaf))"
| "check_ordering B (RightBranch br) other = (other \<le> branch_node_hash B br)"

definition path_root :: "u8 \<Rightarrow> TapretPathProof" where
  "path_root n = \<lparr> partner_node = None, path_nonce = n \<rparr>"

definition path_with :: "TapretNodePartner \<Rightarrow> u8 \<Rightarrow> (TapretPathError, TapretPathProof) result" where
  "path_with elem n =
     (if \<not> check_no_commitment elem then Err (InvalidNodePartner elem)
      else Ok \<lparr> partner_node = Some elem, path_nonce = n \<rparr>)"

definition path_check_no_commitment :: "TapretPathProof \<Rightarrow> bool" where
  "path_check_no_commitment pp =
     (case map_option check_no_commitment (partner_node pp) of None \<Rightarrow> True | Some b \<Rightarrow> b)"

definition original_merkle_root :: "Btc \<Rightarrow> TapretPathProof \<Rightarrow> TapNodeHash option" where
  "original_merkle_root B pp = map_option (tap_node_hash B) (partner_node pp)"

definition original_pubkey_script :: "Btc \<Rightarrow> TapretProof \<Rightarrow> bytes" where
  "original_pubkey_script B pf = new_p2tr B (internal_pk pf) (original_merkle_root B (path_proof pf))"

definition tapret_commit_script :: "Btc \<Rightarrow> TapretCommitment \<Rightarrow> bytes" where
  "tapret_commit_script B c =
     push_slice B
       (push_opcode B (foldl (\<lambda>s _. push_opcode B s OP_RESERVED) [] [0..<29]) OP_RETURN)
       (enc_tapret B c)"

definition xonly_convolve_commit ::
  "Btc \<Rightarrow> UntweakedPublicKey \<Rightarrow> TapretPathProof \<Rightarrow> Commitment
     \<Rightarrow> (TapretKeyError, TweakedPublicKey \<times> TapretProof) result" where
  "xonly_convolve_commit B pk pp msg =
     (let script = tapret_commit_script B \<lparr> tc_mpc = msg, tc_nonce = path_nonce pp \<rparr> in
      and_then
        (case partner_node pp of
           Some partner \<Rightarrow>
             if \<not> check_no_commitment partner then Err (AlternativeCommitment partner)
             else (let leaf = tapscript_leaf_hash B script; node = node_of_leaf B leaf in
                   if \<not> check_ordering B partner node then Err (IncorrectOrdering partner leaf)
                   else Ok (from_node_hashes B node (tap_node_hash B partner)))
         | None \<Rightarrow> Ok (from_script B script LeafVersion_TapScript))
        (\<lambda>root. Ok (tap_tweak B pk (Some root), \<lparr> path_proof = pp, internal_pk = pk \<rparr>)))"

definition spk_convolve_commit ::
  "Btc \<Rightarrow> bytes \<Rightarrow> TapretProof \<Rightarrow> Commitment \<Rightarrow> (TapretKeyError, bytes \<times> TapretProof) result" where
  "spk_convolve_commit B s pf msg =
     and_then (xonly_convolve_commit B (internal_pk pf) (path_proof pf) msg)
       (\<lambda>(k, _). Ok (new_p2tr_tweaked B k, pf))"

definition txout_convolve_restore :: "Btc \<Rightarrow> TapretProof \<Rightarrow> TxOut \<Rightarrow> TxOut" where
  "txout_convolve_restore B pf out =
     \<lparr> tx_value = tx_value out, script_pubkey = original_pubkey_script B pf \<rparr>"

definition txout_convolve_commit ::
  "Btc \<Rightarrow> TxOut \<Rightarrow> TapretProof \<Rightarrow> Commitment \<Rightarrow> (TapretKeyError, TxOut \<times> TapretProof) result" where
  "txout_convolve_commit B out pf msg =
     and_then (xonly_convolve_commit B (internal_pk pf) (path_proof pf) msg)
       (\<lambda>(k, _). Ok (\<lparr> tx_value = tx_value out, script_pubkey = new_p2tr_tweaked B k \<rparr>, pf))"

text \<open>A transaction without taproot output is left as it is by \<open>restore_original\<close>.\<close>

definition tx_convolve_restore :: "Btc \<Rightarrow> TapretProof \<Rightarrow> Tx \<Rightarrow> Tx" where
  "tx_convolve_restore B pf tx =
     (case update_first (\<lambda>out. is_p2tr B (script_pubkey out))
             (\<lambda>out. Ok (out\<lparr> script_pubkey := original_pubkey_script B pf \<rparr>, ())) () (tx_output tx) of
        Inr (outs, _) \<Rightarrow> tx\<lparr> tx_output := outs \<rparr>
      | Inl _ \<Rightarrow> tx)"

definition tx_convolve_commit ::
  "Btc \<Rightarrow> Tx \<Rightarrow> TapretProof \<Rightarrow> Commitment \<Rightarrow> (TapretError, Tx \<times> TapretProof) result" where
  "tx_convolve_commit B tx pf msg =
     and_then
       (update_first (\<lambda>out. is_p2tr B (script_pubkey out))
          (\<lambda>out. map_err KeyEmbedding (txout_convolve_commit B out pf msg))
          NoTaprootOutput (tx_output tx))
       (\<lambda>(outs, pf'). Ok (tx\<lparr> tx_output := outs \<rparr>, pf'))"

definition tapret_verify ::
  "Btc \<Rightarrow> TapretProof \<Rightarrow> Commitment \<Rightarrow> Tx \<Rightarrow> (ConvolveVerifyError, unit) result" where
  "tapret_verify B pf msg tx =
     convolve_verify (tx_convolve_restore B) (\<lambda>p. p) (tx_convolve_commit B) pf msg tx"

section \<open>Proofs of either kind\<close>

datatype Method = OpretFirst | TapretFirst

datatype DbcProof = TapretDbc TapretProof | OpretDbc OpretProof

datatype DbcError =
    DbcNoOpretOutput
  | DbcInvalidOpretScript
  | DbcCommitmentMismatch
  | UnrestorableProof
  | ProofMismatch
  | ImpossibleMessage
  | DbcInvalidProof

fun method_print :: "Method \<Rightarrow> string" where
  "method_print OpretFirst = ''opret1st''"
| "method_print TapretFirst = ''tapret1st''"

datatype MethodParseError = MethodParseError string

definition method_from_str :: "string \<Rightarrow> (MethodParseError, Method) result" where
  "method_from_str s =
     (let l = map to_lower_char s in
      if l = method_print OpretFirst then Ok OpretFirst
      else if l = method_print TapretFirst then Ok TapretFirst
      else Err (MethodParseError s))"

fun dbc_method :: "DbcProof \<Rightarrow> Method" where
  "dbc_method (TapretDbc _) = TapretFirst"
| "dbc_method (OpretDbc _) = OpretFirst"

fun tapret_dbc_error :: "ConvolveVerifyError \<Rightarrow> DbcError" where
  "tapret_dbc_error ConvCommitmentMismatch = DbcCommitmentMismatch"
| "tapret_dbc_error ConvImpossibleMessage = ImpossibleMessage"
| "tapret_dbc_error ConvInvalidProof = DbcInvalidProof"

fun opret_dbc_error :: "OpretError EmbedVerifyError \<Rightarrow> DbcError" where
  "opret_dbc_error EmbedCommitmentMismatch = DbcCommitmentMismatch"
| "opret_dbc_error (InvalidMessage NoOpretOutput) = DbcNoOpretOutput"
| "opret_dbc_error (InvalidMessage InvalidOpretScript) = DbcInvalidOpretScript"
| "opret_dbc_error EmbedInvalidProof = UnrestorableProof"
| "opret_dbc_error EmbedProofMismatch = ProofMismatch"

fun dbc_verify :: "Btc \<Rightarrow> DbcProof \<Rightarrow> Commitment \<Rightarrow> Tx \<Rightarrow> (DbcError, unit) result" where
  "dbc_verify B (TapretDbc p) msg tx = map_err tapret_dbc_error (tapret_verify B p msg tx)"
| "dbc_verify B (OpretDbc p) msg tx = map_err opret_dbc_error (opret_verify B p msg tx)"

section \<open>Anchors\<close>

record 'd Anchor =
  mpc_proof :: MerkleProof
  dbc_proof :: 'd

datatype 'e AnchorVerifyError = AnchorDbc 'e | AnchorMpc InvalidProof

definition anchor_new :: "MerkleProof \<Rightarrow> 'd \<Rightarrow> 'd Anchor" where
  "anchor_new m d = \<lparr> mpc_proof = m, dbc_proof = d \<rparr>"

definition anchor_convolve ::
  "(MerkleNode \<Rightarrow> MerkleHash) \<Rightarrow> (Leaf \<Rightarrow> MerkleHash) \<Rightarrow> (MerkleConcealed \<Rightarrow> Commitment) \<Rightarrow> 'd Anchor
     \<Rightarrow> ProtocolId \<Rightarrow> Message \<Rightarrow> (InvalidProof, Commitment) result option" where
  "anchor_convolve h lh ch a pid msg = convolve h lh ch (mpc_proof a) pid msg"

definition anchor_verify ::
  "(MerkleNode \<Rightarrow> MerkleHash) \<Rightarrow> (Leaf \<Rightarrow> MerkleHash) \<Rightarrow> (MerkleConcealed \<Rightarrow> Commitment)
     \<Rightarrow> ('d \<Rightarrow> Commitment \<Rightarrow> Tx \<Rightarrow> ('e, unit) result) \<Rightarrow> 'd Anchor \<Rightarrow> ProtocolId \<Rightarrow> Message \<Rightarrow> Tx
     \<Rightarrow> ('e AnchorVerifyError, Commitment) result option" where
  "anchor_verify h lh ch verify a pid msg tx =
     map_option
       (\<lambda>r. and_then (map_err AnchorMpc r) (\<lambda>c.
              and_then (map_err AnchorDbc (verify (dbc_proof a) c tx)) (\<lambda>_. Ok c)))
       (anchor_convolve h lh ch a pid msg)"

end
