(* ===== verification/Dbc_Schemes.thy ===== *)
theory Dbc_Schemes
  imports Dbc
begin

text \<open>
  The two commitment schemes as contracts.  \<open>embed_scheme\<close> and \<open>convolve_scheme\<close> state what a
  container has to satisfy for the default \<open>verify\<close> of the source traits to accept exactly
  what was committed; they are interpreted on scripts, outputs and transactions.  From the
  interpretations follow what a proof says about a transaction: the script of its first
  output of the right kind.
\<close>

section \<open>Contracts\<close>

locale embed_scheme =
  fixes valid :: "'x \<Rightarrow> bool"
    and restore :: "'x \<Rightarrow> 'p \<Rightarrow> 'c \<Rightarrow> ('e EmbedVerifyError, 'c) result"
    and commit :: "'x \<Rightarrow> 'c \<Rightarrow> 'm \<Rightarrow> ('e, 'c \<times> 'p) result"
  assumes restore_commit: "valid x \<Longrightarrow> commit x c m = Ok (c', p) \<Longrightarrow> restore x p c' = Ok c"
    and commit_binds:
      "valid x \<Longrightarrow> commit x c m = Ok (c', p) \<Longrightarrow> commit x c m' = Ok (c', p') \<Longrightarrow> m = m'"
begin

lemma verify_iff:
  "embed_verify (restore x) (commit x) c m p = Ok () \<longleftrightarrow>
     (\<exists>c0. restore x p c = Ok c0 \<and> commit x c0 m = Ok (c, p))"
  by (auto simp: embed_verify_def res_simps split: if_splits)

lemma verify_complete:
  "valid x \<Longrightarrow> commit x c m = Ok (c', p) \<Longrightarrow> embed_verify (restore x) (commit x) c' m p = Ok ()"
  using restore_commit by (auto simp: verify_iff)

lemma verify_binds:
  assumes "valid x" "embed_verify (restore x) (commit x) c m p = Ok ()"
    "embed_verify (restore x) (commit x) c m' p = Ok ()"
  shows "m = m'"
  using assms(2,3) commit_binds [OF assms(1)] by (auto simp: verify_iff)

end

locale convolve_scheme =
  fixes valid :: "'x \<Rightarrow> bool"
    and restore :: "'x \<Rightarrow> 'p \<Rightarrow> 'c \<Rightarrow> 's"
    and suppl :: "'p \<Rightarrow> 'u"
    and commit :: "'x \<Rightarrow> 's \<Rightarrow> 'u \<Rightarrow> 'm \<Rightarrow> ('e, 'c \<times> 'p) result"
  assumes recommit: "valid x \<Longrightarrow> commit x s u m = Ok (c, p) \<Longrightarrow>
      suppl p = u \<and> commit x (restore x p c) u m = Ok (c, p)"
begin

lemma verify_iff:
  "convolve_verify (restore x) suppl (commit x) p m c = Ok () \<longleftrightarrow>
     commit x (restore x p c) (suppl p) m = Ok (c, p)"
  by (auto simp: convolve_verify_def res_simps split: if_splits)

lemma verify_complete:
  "valid x \<Longrightarrow> commit x s u m = Ok (c, p) \<Longrightarrow>
     convolve_verify (restore x) suppl (commit x) p m c = Ok ()"
  using recommit by (auto simp: verify_iff)

end

section \<open>Rewriting the first output of a kind\<close>

lemma update_first_Ok:
  "update_first p f e xs = Ok (ys, b) \<longleftrightarrow>
     (\<exists>as x bs y. xs = as @ x # bs \<and> (\<forall>a \<in> set as. \<not> p a) \<and> p x \<and> f x = Ok (y, b) \<and> ys = as @ y # bs)"
proof (induction xs arbitrary: ys)
  case (Cons x xs)
  show ?case
  proof (cases "p x")
    case True
    have "(\<exists>as z bs y. x # xs = as @ z # bs \<and> (\<forall>a \<in> set as. \<not> p a) \<and> p z \<and> f z = Ok (y, b) \<and> ys = as @ y # bs)
        \<longleftrightarrow> (\<exists>y. f x = Ok (y, b) \<and> ys = y # xs)" (is "?L \<longleftrightarrow> ?R")
    proof
      assume ?L
      then obtain as z bs y where l: "x # xs = as @ z # bs" "\<forall>a \<in> set as. \<not> p a" "f z = Ok (y, b)" "ys = as @ y # bs"
        by blast
      then have "as = []" using True by (cases as) auto
      then show ?R using l by simp
    next
      assume ?R
      then show ?L using True by (metis append_Nil emptyE list.set(1))
    qed
    then show ?thesis using True by (auto simp: res_simps)
  next
    case False
    have "(\<exists>as z bs y. x # xs = as @ z # bs \<and> (\<forall>a \<in> set as. \<not> p a) \<and> p z \<and> f z = Ok (y, b) \<and> ys = as @ y # bs)
        \<longleftrightarrow> (\<exists>zs. update_first p f e xs = Ok (zs, b) \<and> ys = x # zs)" (is "?L \<longleftrightarrow> ?R")
    proof
      assume ?L
      then obtain as z bs y where l: "x # xs = as @ z # bs" "\<forall>a \<in> set as. \<not> p a" "p z" "f z = Ok (y, b)" "ys = as @ y # bs"
        by blast
      then obtain as' where "as = x # as'" "xs = as' @ z # bs" using False by (cases as) auto
      then show ?R using l Cons.IH [of "as' @ y # bs"] by auto
    next
      assume ?R
      then obtain zs where "update_first p f e xs = Ok (zs, b)" "ys = x # zs" by blast
      then obtain as z bs y where "xs = as @ z # bs" "\<forall>a \<in> set as. \<not> p a" "p z" "f z = Ok (y, b)"
        "ys = x # as @ y # bs" using Cons.IH [of zs] by auto
      then show ?L using False
        by (intro exI [of _ "x # as"] exI [of _ z] exI [of _ bs] exI [of _ y]) auto
    qed
    then show ?thesis using False by (auto simp: res_simps)
  qed
qed simp

lemma update_first_skip:
  "\<forall>a \<in> set as. \<not> p a \<Longrightarrow> p x \<Longrightarrow>
     update_first p f e (as @ x # bs) = and_then (f x) (\<lambda>(y, b). Ok (as @ y # bs, b))"
  by (induction as; cases "f x") auto

lemma find_first:
  "List.find p xs = Some x \<longleftrightarrow> (\<exists>as bs. xs = as @ x # bs \<and> (\<forall>a \<in> set as. \<not> p a) \<and> p x)" (is "?L \<longleftrightarrow> ?R")
proof
  assume ?L
  then have "dropWhile (\<lambda>y. \<not> p y) xs \<noteq> []" "hd (dropWhile (\<lambda>y. \<not> p y) xs) = x"
    unfolding find_dropWhile comp_def by (cases "dropWhile (\<lambda>y. \<not> p y) xs"; simp)+
  then obtain bs where "xs = takeWhile (\<lambda>y. \<not> p y) xs @ x # bs"
    by (metis list.exhaust_sel takeWhile_dropWhile_id)
  moreover have "p x" using \<open>?L\<close> by (auto simp: find_Some_iff)
  ultimately show ?R using set_takeWhileD by metis
next
  assume ?R
  then obtain as bs where "xs = as @ x # bs" "\<forall>a \<in> set as. \<not> p a" "p x" by blast
  then show ?L by (induction as arbitrary: xs) auto
qed

lemma first_unique:
  assumes "as @ x # bs = as' @ x' # bs'" "\<forall>a \<in> set as. \<not> p a" "p x" "\<forall>a \<in> set as'. \<not> p a" "p x'"
  shows "as = as' \<and> x = x' \<and> bs = bs'"
  using assms
proof (induction as arbitrary: as')
  case Nil
  then show ?case by (cases as') auto
next
  case (Cons a as)
  then show ?case by (cases as') auto
qed

section \<open>Bytes of a hash\<close>

lemma hash_bytes_length [simp]: "length (hash_bytes w) = 32"
  by (simp add: hash_bytes_def)

lemma hash_bytes_inj: "hash_bytes a = hash_bytes b \<Longrightarrow> a = b"
proof (rule bit_word_eqI)
  fix n assume eq: "hash_bytes a = hash_bytes b" and n: "n < LENGTH(256)"
  let ?i = "31 - n div 8"
  have i: "?i < 32" "31 - ?i = n div 8" using n by auto
  have "hash_bytes w ! ?i = ucast (drop_bit (8 * (n div 8)) w)" for w
    using i by (simp add: hash_bytes_def)
  then have "(ucast (drop_bit (8 * (n div 8)) a) :: 8 word) = ucast (drop_bit (8 * (n div 8)) b)"
    using eq by metis
  then have "bit (ucast (drop_bit (8 * (n div 8)) a) :: 8 word) (n mod 8)
      = bit (ucast (drop_bit (8 * (n div 8)) b) :: 8 word) (n mod 8)" by simp
  moreover have "8 * (n div 8) + n mod 8 = n" by simp
  ultimately show "bit a n = bit b n"
    by (simp add: bit_ucast_iff bit_drop_bit_eq)
qed

section \<open>Opret\<close>

lemma btc_okD:
  assumes "btc_ok B"
  shows "is_op_return B s \<longleftrightarrow> (\<exists>t. s = OP_RETURN # t)"
    and "is_p2tr B s \<Longrightarrow> \<not> is_op_return B s"
    and "push_opcode B s c = s @ [c]"
    and "length d = 32 \<Longrightarrow> new_op_return B d = OP_RETURN # 32 # d"
    and "is_p2tr B (new_p2tr B k r)"
    and "is_p2tr B (new_p2tr_tweaked B k)"
    and "new_p2tr_tweaked B k = new_p2tr_tweaked B k' \<Longrightarrow> k = k'"
    and "length (enc_tapret B tc) = 33"
    and "enc_tapret B tc = enc_tapret B tc' \<Longrightarrow> tc = tc'"
    and "d \<noteq> [] \<Longrightarrow> length d \<le> 75 \<Longrightarrow> push_slice B s d = s @ word_of_nat (length d) # d"
    and "node_of_leaf B (tapscript_leaf_hash B s) = from_script B s LeafVersion_TapScript"
    and "from_node_hashes B n1 n2 = from_node_hashes B (min n1 n2) (max n1 n2)"
  using assms unfolding btc_ok_def inj_def by blast+

lemma op_return_msg:
  assumes "btc_ok B"
  shows "is_op_return B (new_op_return B (hash_bytes m))" "length (new_op_return B (hash_bytes m)) = 34"
    "new_op_return B (hash_bytes m) = new_op_return B (hash_bytes m') \<longleftrightarrow> m = m'"
  using btc_okD(1,4) [OF assms] hash_bytes_inj by auto

lemma spk_embed_Ok:
  assumes "btc_ok B"
  shows "spk_embed_commit B s m = Ok (s', p) \<longleftrightarrow>
    s = [OP_RETURN] \<and> s' = new_op_return B (hash_bytes m) \<and> p = OpretProof"
  using btc_okD(1) [OF assms] by (auto simp: spk_embed_commit_def length_Suc_conv split: if_splits)

lemma spk_restore_Ok:
  assumes "btc_ok B"
  shows "spk_restore B p s' = Ok s \<longleftrightarrow> s = [OP_RETURN] \<and> is_op_return B s' \<and> length s' = 34"
  using btc_okD(3) [OF assms] by (auto simp: spk_restore_def)

interpretation opret_spk: embed_scheme btc_ok spk_restore spk_embed_commit
proof
  fix B c m c' p assume B: "btc_ok B" and e: "spk_embed_commit B c m = Ok (c', p)"
  then show "spk_restore B p c' = Ok c"
    by (simp add: spk_embed_Ok [OF B] spk_restore_Ok [OF B] op_return_msg [OF B])
next
  fix B c m c' p m' p'
  assume B: "btc_ok B" and "spk_embed_commit B c m = Ok (c', p)" "spk_embed_commit B c m' = Ok (c', p')"
  then have "new_op_return B (hash_bytes m) = new_op_return B (hash_bytes m')"
    by (simp add: spk_embed_Ok [OF B])
  then show "m = m'" by (simp only: op_return_msg(3) [OF B])
qed

lemma txout_embed_Ok:
  assumes "btc_ok B"
  shows "txout_embed_commit B c m = Ok (c', p) \<longleftrightarrow>
    script_pubkey c = [OP_RETURN] \<and> c' = c\<lparr> script_pubkey := new_op_return B (hash_bytes m) \<rparr> \<and> p = OpretProof"
  by (auto simp: txout_embed_commit_def res_simps spk_embed_Ok [OF assms])

lemma txout_restore_Ok:
  assumes "btc_ok B"
  shows "txout_restore B p c' = Ok c \<longleftrightarrow>
    c = c'\<lparr> script_pubkey := [OP_RETURN] \<rparr> \<and> is_op_return B (script_pubkey c') \<and> length (script_pubkey c') = 34"
  by (auto simp: txout_restore_def res_simps spk_restore_Ok [OF assms])

interpretation opret_txout: embed_scheme btc_ok txout_restore txout_embed_commit
proof
  fix B c m c' p assume B: "btc_ok B" and e: "txout_embed_commit B c m = Ok (c', p)"
  then show "txout_restore B p c' = Ok c"
    by (simp add: txout_embed_Ok [OF B] txout_restore_Ok [OF B] op_return_msg [OF B])
next
  fix B c m c' p m' p'
  assume B: "btc_ok B" and "txout_embed_commit B c m = Ok (c', p)" "txout_embed_commit B c m' = Ok (c', p')"
  then have "script_pubkey (c\<lparr> script_pubkey := new_op_return B (hash_bytes m) \<rparr>)
      = script_pubkey (c\<lparr> script_pubkey := new_op_return B (hash_bytes m') \<rparr>)"
    by (simp only: txout_embed_Ok [OF B])
  then show "m = m'" by (simp add: op_return_msg(3) [OF B])
qed

lemma tx_embed_Ok:
  assumes "btc_ok B"
  shows "tx_embed_commit B tx m = Ok (tx', p) \<longleftrightarrow>
    (\<exists>as x bs. tx_output tx = as @ x # bs \<and> (\<forall>a \<in> set as. \<not> is_op_return B (script_pubkey a))
       \<and> script_pubkey x = [OP_RETURN] \<and> p = OpretProof
       \<and> tx' = tx\<lparr> tx_output := as @ x\<lparr> script_pubkey := new_op_return B (hash_bytes m) \<rparr> # bs \<rparr>)"
proof -
  have "is_op_return B [OP_RETURN]" using btc_okD(1) [OF assms] by blast
  then have "update_first (\<lambda>out. is_op_return B (script_pubkey out)) (\<lambda>out. txout_embed_commit B out m)
      NoOpretOutput (tx_output tx) = Ok (outs, p) \<longleftrightarrow>
    (\<exists>as x bs. tx_output tx = as @ x # bs \<and> (\<forall>a \<in> set as. \<not> is_op_return B (script_pubkey a))
       \<and> script_pubkey x = [OP_RETURN] \<and> p = OpretProof
       \<and> outs = as @ x\<lparr> script_pubkey := new_op_return B (hash_bytes m) \<rparr> # bs)" for outs
    unfolding update_first_Ok txout_embed_Ok [OF assms] by metis
  then show ?thesis unfolding tx_embed_commit_def by (auto simp: res_simps)
qed

lemma tx_restore_Ok:
  assumes "btc_ok B"
  shows "tx_restore B p tx' = Ok tx \<longleftrightarrow>
    (\<exists>as x bs. tx_output tx' = as @ x # bs \<and> (\<forall>a \<in> set as. \<not> is_op_return B (script_pubkey a))
       \<and> is_op_return B (script_pubkey x) \<and> length (script_pubkey x) = 34
       \<and> tx = tx'\<lparr> tx_output := as @ x\<lparr> script_pubkey := [OP_RETURN] \<rparr> # bs \<rparr>)"
proof -
  have "update_first (\<lambda>out. is_op_return B (script_pubkey out))
      (\<lambda>out. and_then (txout_restore B p out) (\<lambda>out'. Ok (out', ()))) (InvalidMessage NoOpretOutput)
      (tx_output tx') = Ok (outs, ()) \<longleftrightarrow>
    (\<exists>as x bs. tx_output tx' = as @ x # bs \<and> (\<forall>a \<in> set as. \<not> is_op_return B (script_pubkey a))
       \<and> is_op_return B (script_pubkey x) \<and> length (script_pubkey x) = 34
       \<and> outs = as @ x\<lparr> script_pubkey := [OP_RETURN] \<rparr> # bs)" for outs
    unfolding update_first_Ok and_then_Inr txout_restore_Ok [OF assms] by auto
  then show ?thesis unfolding tx_restore_def by (auto simp: res_simps)
qed

text \<open>A verified opret proof is the script of the first \<open>OP_RETURN\<close> output.\<close>

definition first_script :: "(bytes \<Rightarrow> bool) \<Rightarrow> Tx \<Rightarrow> bytes option" where
  "first_script p tx = map_option script_pubkey (List.find (\<lambda>out. p (script_pubkey out)) (tx_output tx))"

lemma first_script_Some:
  "first_script p tx = Some s \<longleftrightarrow>
     (\<exists>as x bs. tx_output tx = as @ x # bs \<and> (\<forall>a \<in> set as. \<not> p (script_pubkey a)) \<and> p (script_pubkey x)
        \<and> s = script_pubkey x)"
  by (fastforce simp: first_script_def find_first)


interpretation opret_tx: embed_scheme btc_ok tx_restore tx_embed_commit
proof
  fix B c m c' p assume B: "btc_ok B" and "tx_embed_commit B c m = Ok (c', p)"
  then obtain as x bs where e: "tx_output c = as @ x # bs" "\<forall>a \<in> set as. \<not> is_op_return B (script_pubkey a)"
    "script_pubkey x = [OP_RETURN]"
    "c' = c\<lparr> tx_output := as @ x\<lparr> script_pubkey := new_op_return B (hash_bytes m) \<rparr> # bs \<rparr>"
    by (auto simp: tx_embed_Ok [OF B])
  have x: "x\<lparr> script_pubkey := [OP_RETURN] \<rparr> = x" using e(3) by simp
  have "c = c'\<lparr> tx_output := as @ (x\<lparr> script_pubkey := new_op_return B (hash_bytes m) \<rparr>)
      \<lparr> script_pubkey := [OP_RETURN] \<rparr> # bs \<rparr>"
    using e(1,4) x by simp
  then show "tx_restore B p c' = Ok c"
    unfolding tx_restore_Ok [OF B]
    using e(2,4) op_return_msg [OF B]
    by (intro exI [of _ as] exI [of _ "x\<lparr> script_pubkey := new_op_return B (hash_bytes m) \<rparr>"]
        exI [of _ bs]) auto
next
  fix B c m c' p m' p'
  assume B: "btc_ok B" and e: "tx_embed_commit B c m = Ok (c', p)" "tx_embed_commit B c m' = Ok (c', p')"
  have op: "is_op_return B [OP_RETURN]" using btc_okD(1) [OF B] by blast
  obtain as x bs where 1: "tx_output c = as @ x # bs" "\<forall>a \<in> set as. \<not> is_op_return B (script_pubkey a)"
    "script_pubkey x = [OP_RETURN]"
    "c' = c\<lparr> tx_output := as @ x\<lparr> script_pubkey := new_op_return B (hash_bytes m) \<rparr> # bs \<rparr>"
    using e(1) by (auto simp: tx_embed_Ok [OF B])
  obtain as' x' bs' where 2: "tx_output c = as' @ x' # bs'"
    "\<forall>a \<in> set as'. \<not> is_op_return B (script_pubkey a)" "script_pubkey x' = [OP_RETURN]"
    "c' = c\<lparr> tx_output := as' @ x'\<lparr> script_pubkey := new_op_return B (hash_bytes m') \<rparr> # bs' \<rparr>"
    using e(2) by (auto simp: tx_embed_Ok [OF B])
  have eq: "as = as' \<and> x = x' \<and> bs = bs'"
    using 1(1-3) 2(1-3) op by (intro first_unique [where p = "\<lambda>o'. is_op_return B (script_pubkey o')"]) auto
  have "tx_output (c\<lparr> tx_output := as @ x\<lparr> script_pubkey := new_op_return B (hash_bytes m) \<rparr> # bs \<rparr>)
      = tx_output (c\<lparr> tx_output := as @ x\<lparr> script_pubkey := new_op_return B (hash_bytes m') \<rparr> # bs \<rparr>)"
    using 1(4) 2(4) eq by metis
  then have "script_pubkey (x\<lparr> script_pubkey := new_op_return B (hash_bytes m) \<rparr>)
      = script_pubkey (x\<lparr> script_pubkey := new_op_return B (hash_bytes m') \<rparr>)" by simp
  then show "m = m'" by (simp add: op_return_msg(3) [OF B])
qed

lemma opret_verify_iff:
  assumes B: "btc_ok B"
  shows "opret_verify B pf m tx = Ok () \<longleftrightarrow>
    first_script (is_op_return B) tx = Some (new_op_return B (hash_bytes m))"
proof
  assume "opret_verify B pf m tx = Ok ()"
  then obtain c0 where "tx_embed_commit B c0 m = Ok (tx, pf)"
    by (auto simp: opret_verify_def opret_tx.verify_iff)
  then obtain as x bs where "\<forall>a \<in> set as. \<not> is_op_return B (script_pubkey a)"
    "tx = c0\<lparr> tx_output := as @ x\<lparr> script_pubkey := new_op_return B (hash_bytes m) \<rparr> # bs \<rparr>"
    by (auto simp: tx_embed_Ok [OF B])
  then show "first_script (is_op_return B) tx = Some (new_op_return B (hash_bytes m))"
    unfolding first_script_Some using op_return_msg(1) [OF B]
    by (intro exI [of _ as] exI [of _ "x\<lparr> script_pubkey := new_op_return B (hash_bytes m) \<rparr>"] exI [of _ bs]) simp
next
  assume "first_script (is_op_return B) tx = Some (new_op_return B (hash_bytes m))"
  then obtain as x bs where x: "tx_output tx = as @ x # bs"
    "\<forall>a \<in> set as. \<not> is_op_return B (script_pubkey a)" "script_pubkey x = new_op_return B (hash_bytes m)"
    by (auto simp: first_script_Some)
  have x': "x\<lparr> script_pubkey := new_op_return B (hash_bytes m) \<rparr> = x" using x(3) by simp
  let ?c0 = "tx\<lparr> tx_output := as @ x\<lparr> script_pubkey := [OP_RETURN] \<rparr> # bs \<rparr>"
  have pf: "pf = OpretProof" by (cases pf) simp
  have "tx_embed_commit B ?c0 m = Ok (tx, pf)"
    unfolding tx_embed_Ok [OF B]
    by (intro exI [of _ as] exI [of _ "x\<lparr> script_pubkey := [OP_RETURN] \<rparr>"] exI [of _ bs])
       (simp add: x(1,2) pf x')
  then show "opret_verify B pf m tx = Ok ()"
    unfolding opret_verify_def by (rule opret_tx.verify_complete [OF B])
qed

section \<open>Tapret\<close>

lemma xonly_convolve_proof:
  "xonly_convolve_commit B pk pp m = Ok (k, p) \<Longrightarrow> p = \<lparr> path_proof = pp, internal_pk = pk \<rparr>"
  by (auto simp: xonly_convolve_commit_def Let_def res_simps)

interpretation tapret_key: convolve_scheme btc_ok "\<lambda>B p k. internal_pk p" path_proof xonly_convolve_commit
proof
  fix B s u m c p assume "xonly_convolve_commit B s u m = Ok (c, p)"
  then show "path_proof p = u \<and> xonly_convolve_commit B (internal_pk p) u m = Ok (c, p)"
    using xonly_convolve_proof [of B s u m c p] by simp
qed

interpretation tapret_spk: convolve_scheme btc_ok "\<lambda>B p s. original_pubkey_script B p" "\<lambda>p. p" spk_convolve_commit
  by unfold_locales (auto simp: spk_convolve_commit_def res_simps)

interpretation tapret_txout: convolve_scheme btc_ok txout_convolve_restore "\<lambda>p. p" txout_convolve_commit
  by unfold_locales (auto simp: txout_convolve_commit_def txout_convolve_restore_def res_simps)

text \<open>The output key a proof and a message determine.\<close>

definition tapret_output_key :: "Btc \<Rightarrow> TapretProof \<Rightarrow> Commitment \<Rightarrow> TweakedPublicKey option" where
  "tapret_output_key B pf m =
     (case xonly_convolve_commit B (internal_pk pf) (path_proof pf) m of
        Inr (k, _) \<Rightarrow> Some k | Inl _ \<Rightarrow> None)"

lemma txout_convolve_Ok:
  "txout_convolve_commit B out pf m = Ok (out', pf') \<longleftrightarrow>
     (\<exists>k. tapret_output_key B pf m = Some k \<and> pf' = pf
        \<and> out' = out\<lparr> script_pubkey := new_p2tr_tweaked B k \<rparr>)"
  by (auto simp: txout_convolve_commit_def tapret_output_key_def res_simps split: sum.splits)

lemma tx_convolve_Ok:
  "tx_convolve_commit B tx pf m = Ok (tx', pf') \<longleftrightarrow>
     (\<exists>as x bs k. tx_output tx = as @ x # bs \<and> (\<forall>a \<in> set as. \<not> is_p2tr B (script_pubkey a))
        \<and> is_p2tr B (script_pubkey x) \<and> tapret_output_key B pf m = Some k \<and> pf' = pf
        \<and> tx' = tx\<lparr> tx_output := as @ x\<lparr> script_pubkey := new_p2tr_tweaked B k \<rparr> # bs \<rparr>)"
proof -
  have "update_first (\<lambda>out. is_p2tr B (script_pubkey out))
      (\<lambda>out. map_err KeyEmbedding (txout_convolve_commit B out pf m)) NoTaprootOutput (tx_output tx)
      = Ok (outs, pf') \<longleftrightarrow>
    (\<exists>as x bs k. tx_output tx = as @ x # bs \<and> (\<forall>a \<in> set as. \<not> is_p2tr B (script_pubkey a))
       \<and> is_p2tr B (script_pubkey x) \<and> tapret_output_key B pf m = Some k \<and> pf' = pf
       \<and> outs = as @ x\<lparr> script_pubkey := new_p2tr_tweaked B k \<rparr> # bs)" for outs
    unfolding update_first_Ok map_err_Inr txout_convolve_Ok by metis
  then have "tx_convolve_commit B tx pf m = Ok (tx', pf') \<longleftrightarrow>
    (\<exists>outs. (\<exists>as x bs k. tx_output tx = as @ x # bs \<and> (\<forall>a \<in> set as. \<not> is_p2tr B (script_pubkey a))
       \<and> is_p2tr B (script_pubkey x) \<and> tapret_output_key B pf m = Some k \<and> pf' = pf
       \<and> outs = as @ x\<lparr> script_pubkey := new_p2tr_tweaked B k \<rparr> # bs) \<and> tx' = tx\<lparr> tx_output := outs \<rparr>)"
    unfolding tx_convolve_commit_def by (simp add: and_then_Inr) blast
  then show ?thesis by blast
qed

lemma tx_convolve_restore_at:
  assumes "tx_output tx = as @ x # bs" "\<forall>a \<in> set as. \<not> is_p2tr B (script_pubkey a)" "is_p2tr B (script_pubkey x)"
  shows "tx_convolve_restore B pf tx =
    tx\<lparr> tx_output := as @ x\<lparr> script_pubkey := original_pubkey_script B pf \<rparr> # bs \<rparr>"
proof -
  have "update_first (\<lambda>out. is_p2tr B (script_pubkey out))
      (\<lambda>out. Ok (out\<lparr> script_pubkey := original_pubkey_script B pf \<rparr>, ())) () (tx_output tx)
      = Ok (as @ x\<lparr> script_pubkey := original_pubkey_script B pf \<rparr> # bs, ())"
    unfolding update_first_Ok using assms by blast
  then show ?thesis by (simp add: tx_convolve_restore_def)
qed

lemma original_p2tr: "btc_ok B \<Longrightarrow> is_p2tr B (original_pubkey_script B pf)"
  by (simp add: original_pubkey_script_def btc_okD)

interpretation tapret_tx: convolve_scheme btc_ok tx_convolve_restore "\<lambda>p. p" tx_convolve_commit
proof
  fix B s u m c p assume B: "btc_ok B" and "tx_convolve_commit B s u m = Ok (c, p)"
  then obtain as x bs k where e: "tx_output s = as @ x # bs" "\<forall>a \<in> set as. \<not> is_p2tr B (script_pubkey a)"
    "is_p2tr B (script_pubkey x)" "tapret_output_key B u m = Some k" "p = u"
    "c = s\<lparr> tx_output := as @ x\<lparr> script_pubkey := new_p2tr_tweaked B k \<rparr> # bs \<rparr>"
    by (auto simp: tx_convolve_Ok)
  have r: "tx_convolve_restore B p c =
      c\<lparr> tx_output := as @ x\<lparr> script_pubkey := original_pubkey_script B p \<rparr> # bs \<rparr>"
    using e(2,6) btc_okD(6) [OF B]
      tx_convolve_restore_at [of c as "x\<lparr> script_pubkey := new_p2tr_tweaked B k \<rparr>" bs B p] by simp
  have "tx_convolve_commit B (tx_convolve_restore B p c) u m = Ok (c, p)"
    unfolding tx_convolve_Ok r
    using e(2,4,5,6) original_p2tr [OF B, of p]
    by (intro exI [of _ as] exI [of _ "x\<lparr> script_pubkey := original_pubkey_script B p \<rparr>"]
        exI [of _ bs] exI [of _ k]) simp
  then show "p = u \<and> tx_convolve_commit B (tx_convolve_restore B p c) u m = Ok (c, p)"
    using e(5) by simp
qed

lemma tapret_verify_iff:
  assumes B: "btc_ok B"
  shows "tapret_verify B pf m tx = Ok () \<longleftrightarrow>
    (\<exists>k. tapret_output_key B pf m = Some k \<and> first_script (is_p2tr B) tx = Some (new_p2tr_tweaked B k))"
proof
  assume "tapret_verify B pf m tx = Ok ()"
  then have "tx_convolve_commit B (tx_convolve_restore B pf tx) pf m = Ok (tx, pf)"
    by (simp add: tapret_verify_def tapret_tx.verify_iff)
  then obtain s as x bs k where e: "\<forall>a \<in> set as. \<not> is_p2tr B (script_pubkey a)"
    "tapret_output_key B pf m = Some k"
    "tx = s\<lparr> tx_output := as @ x\<lparr> script_pubkey := new_p2tr_tweaked B k \<rparr> # bs \<rparr>"
    by (auto simp: tx_convolve_Ok)
  then have "first_script (is_p2tr B) tx = Some (new_p2tr_tweaked B k)"
    unfolding first_script_Some using btc_okD(6) [OF B]
    by (intro exI [of _ as] exI [of _ "x\<lparr> script_pubkey := new_p2tr_tweaked B k \<rparr>"] exI [of _ bs]) simp
  then show "\<exists>k. tapret_output_key B pf m = Some k \<and> first_script (is_p2tr B) tx = Some (new_p2tr_tweaked B k)"
    using e(2) by blast
next
  assume "\<exists>k. tapret_output_key B pf m = Some k \<and> first_script (is_p2tr B) tx = Some (new_p2tr_tweaked B k)"
  then obtain k as x bs where x: "tapret_output_key B pf m = Some k" "tx_output tx = as @ x # bs"
    "\<forall>a \<in> set as. \<not> is_p2tr B (script_pubkey a)" "is_p2tr B (script_pubkey x)"
    "script_pubkey x = new_p2tr_tweaked B k"
    by (auto simp: first_script_Some)
  have x': "x\<lparr> script_pubkey := new_p2tr_tweaked B k \<rparr> = x" using x(5) by simp
  have "tx_convolve_commit B tx pf m = Ok (tx, pf)"
    unfolding tx_convolve_Ok
    by (intro exI [of _ as] exI [of _ x] exI [of _ bs] exI [of _ k]) (simp add: x(1-4) x' flip: x(2))
  then show "tapret_verify B pf m tx = Ok ()"
    unfolding tapret_verify_def by (rule tapret_tx.verify_complete [OF B])
qed

end
