(* ===== verification/Dbc_Binding.thy ===== *)
theory Dbc_Binding
  imports Dbc_Schemes
begin

text \<open>
  What a commitment proof pins down.  Whatever proofs are shown for one transaction, an opret
  proof and a tapret proof each admit one message only: for tapret this is what the sibling
  checks of \<open>TapretNodePartner\<close> are for.  The tapret statement lists the values that would have
  to collide under the taproot hashes otherwise.
\<close>

section \<open>The tapret script\<close>

lemma reserved_pushes:
  assumes "btc_ok B"
  shows "foldl (\<lambda>s _. push_opcode B s OP_RESERVED) s xs = s @ replicate (length xs) OP_RESERVED"
proof (induction xs arbitrary: s)
  case (Cons x xs)
  then show ?case by (simp add: btc_okD(3) [OF assms])
qed simp

lemma tapret_commit_script_eq:
  assumes B: "btc_ok B"
  shows "tapret_commit_script B c = TAPRET_SCRIPT_COMMITMENT_PREFIX @ enc_tapret B c"
proof -
  have "length (enc_tapret B c) = 33" by (rule btc_okD(8) [OF B])
  then have "push_slice B s (enc_tapret B c) = s @ 33 # enc_tapret B c" for s
    using btc_okD(10) [OF B, of "enc_tapret B c" s] by (cases "enc_tapret B c") simp_all
  then show ?thesis
    unfolding tapret_commit_script_def reserved_pushes [OF B]
    by (simp add: TAPRET_SCRIPT_COMMITMENT_PREFIX_def btc_okD(3) [OF B])
qed

lemma tapret_prefix_length [simp]: "length TAPRET_SCRIPT_COMMITMENT_PREFIX = 31"
  by (simp add: TAPRET_SCRIPT_COMMITMENT_PREFIX_def)

lemma tapret_commit_script_inj:
  "btc_ok B \<Longrightarrow> tapret_commit_script B c = tapret_commit_script B c' \<longleftrightarrow> c = c'"
  using btc_okD(9) by (auto simp: tapret_commit_script_eq)

lemma commitment_leaf_rejected:
  "btc_ok B \<Longrightarrow> \<not> check_no_commitment (RightLeaf \<lparr> ls_version = v, ls_script = tapret_commit_script B c \<rparr>)"
  by (simp add: tapret_commit_script_eq btc_okD(8))

section \<open>What a proof hashes\<close>

datatype TapInput = TapLeafInput bytes u8 | TapBranchInput TapNodeHash TapNodeHash

fun tap_hash :: "Btc \<Rightarrow> TapInput \<Rightarrow> TapNodeHash" where
  "tap_hash B (TapLeafInput s v) = from_script B s v"
| "tap_hash B (TapBranchInput a b) = from_node_hashes B a b"

definition tap_branch :: "TapNodeHash \<Rightarrow> TapNodeHash \<Rightarrow> TapInput" where
  "tap_branch a b = TapBranchInput (min a b) (max a b)"

fun partner_input :: "TapretNodePartner \<Rightarrow> TapInput list" where
  "partner_input (LeftNode _) = []"
| "partner_input (RightLeaf leaf) = [TapLeafInput (ls_script leaf) (ls_version leaf)]"
| "partner_input (RightBranch br) = [tap_branch (left_node_hash br) (right_node_hash br)]"

definition commit_leaf :: "Btc \<Rightarrow> TapretPathProof \<Rightarrow> Commitment \<Rightarrow> TapInput" where
  "commit_leaf B pp m =
     TapLeafInput (tapret_commit_script B \<lparr> tc_mpc = m, tc_nonce = path_nonce pp \<rparr>) LeafVersion_TapScript"

definition root_input :: "Btc \<Rightarrow> TapretPathProof \<Rightarrow> Commitment \<Rightarrow> TapInput" where
  "root_input B pp m =
     (case partner_node pp of
        None \<Rightarrow> commit_leaf B pp m
      | Some partner \<Rightarrow> tap_branch (tap_hash B (commit_leaf B pp m)) (tap_node_hash B partner))"

definition tap_inputs :: "Btc \<Rightarrow> TapretPathProof \<Rightarrow> Commitment \<Rightarrow> TapInput list" where
  "tap_inputs B pp m =
     [root_input B pp m, commit_leaf B pp m]
       @ (case partner_node pp of None \<Rightarrow> [] | Some partner \<Rightarrow> partner_input partner)"

definition tweak_hash :: "Btc \<Rightarrow> UntweakedPublicKey \<times> TapNodeHash \<Rightarrow> TweakedPublicKey" where
  "tweak_hash B = (\<lambda>(k, r). tap_tweak B k (Some r))"

definition tweak_input :: "Btc \<Rightarrow> TapretProof \<Rightarrow> Commitment \<Rightarrow> UntweakedPublicKey \<times> TapNodeHash" where
  "tweak_input B pf m = (internal_pk pf, tap_hash B (root_input B (path_proof pf) m))"

lemma tap_branch_hash: "btc_ok B \<Longrightarrow> tap_hash B (tap_branch a b) = from_node_hashes B a b"
  by (simp add: tap_branch_def flip: btc_okD(12))

lemma tap_branch_eq: "tap_branch a b = tap_branch c d \<longleftrightarrow> a = c \<and> b = d \<or> a = d \<and> b = c"
  by (auto simp: tap_branch_def min_def max_def split: if_splits)

lemma tap_branch_leaf [simp]: "tap_branch a b \<noteq> TapLeafInput s v" "TapLeafInput s v \<noteq> tap_branch a b"
  by (simp_all add: tap_branch_def)

lemma partner_hash:
  "btc_ok B \<Longrightarrow> tap_node_hash B partner =
     (case partner of LeftNode h \<Rightarrow> h | _ \<Rightarrow> tap_hash B (hd (partner_input partner)))"
  by (cases partner) (simp_all add: branch_node_hash_def tap_branch_hash)

text \<open>A key is produced exactly when the partner passes both checks.\<close>

lemma tapret_output_key_Some:
  assumes B: "btc_ok B"
  shows "tapret_output_key B pf m = Some k \<longleftrightarrow>
    (\<forall>partner. partner_node (path_proof pf) = Some partner \<longrightarrow>
        check_no_commitment partner \<and> check_ordering B partner (tap_hash B (commit_leaf B (path_proof pf) m)))
    \<and> k = tweak_hash B (tweak_input B pf m)"
  using btc_okD(11) [OF B]
  by (auto simp: tapret_output_key_def xonly_convolve_commit_def Let_def commit_leaf_def root_input_def
      tweak_hash_def tweak_input_def tap_branch_hash [OF B] split: option.splits)

section \<open>One message per tapret output\<close>

lemma crossed_partner:
  assumes B: "btc_ok B"
    and p: "check_no_commitment partner" "tap_node_hash B partner = tap_hash B (commit_leaf B pp m)"
  shows "(\<exists>h. partner = LeftNode h) \<or> collision_in (tap_hash B) (commit_leaf B pp m # partner_input partner)"
proof (cases partner)
  case (RightLeaf leaf)
  have "TapLeafInput (ls_script leaf) (ls_version leaf) \<noteq> commit_leaf B pp m"
  proof
    assume "TapLeafInput (ls_script leaf) (ls_version leaf) = commit_leaf B pp m"
    then have "leaf = \<lparr> ls_version = LeafVersion_TapScript,
        ls_script = tapret_commit_script B \<lparr> tc_mpc = m, tc_nonce = path_nonce pp \<rparr> \<rparr>"
      by (simp add: commit_leaf_def)
    then show False using p(1) RightLeaf commitment_leaf_rejected [OF B] by blast
  qed
  then show ?thesis using p(2) RightLeaf by (auto simp: collision_in_def)
next
  case (RightBranch br)
  then have "tap_hash B (tap_branch (left_node_hash br) (right_node_hash br)) = tap_hash B (commit_leaf B pp m)"
    using p(2) by (simp add: tap_branch_hash [OF B] branch_node_hash_def)
  then show ?thesis using RightBranch by (auto simp: collision_in_def commit_leaf_def)
qed simp

lemma tapret_same_tree:
  assumes B: "btc_ok B"
    and t: "tapret_output_key B pf m = Some k" "tapret_output_key B pf' m' = Some k'"
    and r: "root_input B (path_proof pf) m = root_input B (path_proof pf') m'"
    and nc: "\<not> collision_in (tap_hash B) (tap_inputs B (path_proof pf) m @ tap_inputs B (path_proof pf') m')"
  shows "m = m'"
proof -
  let ?l = "commit_leaf B (path_proof pf) m" and ?l' = "commit_leaf B (path_proof pf') m'"
  note eq = collision_inD [OF nc]
  have leaf: "?l = ?l' \<Longrightarrow> m = m'"
    by (simp add: commit_leaf_def tapret_commit_script_inj [OF B])
  show ?thesis
  proof (cases "partner_node (path_proof pf)")
    case None
    then have "partner_node (path_proof pf') = None"
      using r by (auto simp: root_input_def commit_leaf_def split: option.splits)
    then show ?thesis using None r leaf by (simp add: root_input_def)
  next
    case (Some p)
    then obtain p' where p': "partner_node (path_proof pf') = Some p'"
      using r by (auto simp: root_input_def commit_leaf_def split: option.splits)
    note c = t(1) [unfolded tapret_output_key_Some [OF B]] t(2) [unfolded tapret_output_key_Some [OF B]]
    consider "tap_hash B ?l = tap_hash B ?l'"
      | "tap_hash B ?l = tap_node_hash B p'" "tap_node_hash B p = tap_hash B ?l'"
      using r Some p' by (auto simp: root_input_def tap_branch_eq)
    then show ?thesis
    proof cases
      case 1
      then show ?thesis by (intro leaf eq) (simp_all add: tap_inputs_def)
    next
      case 2
      have "\<not> collision_in (tap_hash B) xs"
        if "set xs \<subseteq> {?l, ?l'} \<union> set (partner_input p) \<union> set (partner_input p')" for xs
        by (rule contrapos_nn [OF nc], erule collision_in_mono)
           (use that Some p' in \<open>auto simp: tap_inputs_def\<close>)
      from this [of "?l' # partner_input p"] this [of "?l # partner_input p'"]
      have "\<not> collision_in (tap_hash B) (?l' # partner_input p)" "\<not> collision_in (tap_hash B) (?l # partner_input p')"
        by auto
      then obtain h h' where "p = LeftNode h" "p' = LeftNode h'"
        using crossed_partner [OF B, of p] crossed_partner [OF B, of p'] c Some p' 2 by metis
      then have "tap_hash B ?l = tap_hash B ?l'" using c Some p' 2 by auto
      then show ?thesis by (intro leaf eq) (simp_all add: tap_inputs_def)
    qed
  qed
qed

lemma tapret_key_binds:
  assumes B: "btc_ok B"
    and t: "tapret_output_key B pf m = Some k" "tapret_output_key B pf' m' = Some k"
  shows "m = m' \<or> collision_in (tweak_hash B) [tweak_input B pf m, tweak_input B pf' m']
    \<or> collision_in (tap_hash B) (tap_inputs B (path_proof pf) m @ tap_inputs B (path_proof pf') m')"
proof (cases "collision_in (tweak_hash B) [tweak_input B pf m, tweak_input B pf' m']
    \<or> collision_in (tap_hash B) (tap_inputs B (path_proof pf) m @ tap_inputs B (path_proof pf') m')")
  case False
  then have "tweak_input B pf m = tweak_input B pf' m'"
    using t by (intro collision_inD [of "tweak_hash B" "[tweak_input B pf m, tweak_input B pf' m']"])
       (simp_all add: tapret_output_key_Some [OF B])
  then have "root_input B (path_proof pf) m = root_input B (path_proof pf') m'"
    using False
    by (intro collision_inD [of "tap_hash B" "tap_inputs B (path_proof pf) m @ tap_inputs B (path_proof pf') m'"])
       (simp_all add: tweak_input_def tap_inputs_def)
  then show ?thesis using tapret_same_tree [OF B t] False by blast
qed blast

lemma tapret_verify_binds:
  assumes B: "btc_ok B"
    and t: "tapret_verify B pf m tx = Ok ()" "tapret_verify B pf' m' tx = Ok ()"
  shows "m = m' \<or> collision_in (tweak_hash B) [tweak_input B pf m, tweak_input B pf' m']
    \<or> collision_in (tap_hash B) (tap_inputs B (path_proof pf) m @ tap_inputs B (path_proof pf') m')"
proof -
  obtain k k' where k: "tapret_output_key B pf m = Some k" "tapret_output_key B pf' m' = Some k'"
    "new_p2tr_tweaked B k = new_p2tr_tweaked B k'"
    using t by (auto simp: tapret_verify_iff [OF B])
  then have "k = k'" using btc_okD(7) [OF B] by blast
  then show ?thesis using tapret_key_binds [OF B] k by blast
qed

section \<open>One commitment per closing method\<close>

lemma opret_verify_binds:
  assumes B: "btc_ok B" and o: "opret_verify B pf m tx = Ok ()" "opret_verify B pf' m' tx = Ok ()"
  shows "m = m'"
  using o op_return_msg(3) [OF B] by (simp add: opret_verify_iff [OF B])

fun dbc_collision :: "Btc \<Rightarrow> DbcProof \<Rightarrow> Commitment \<Rightarrow> DbcProof \<Rightarrow> Commitment \<Rightarrow> bool" where
  "dbc_collision B (TapretDbc pf) m (TapretDbc pf') m' =
     (collision_in (tweak_hash B) [tweak_input B pf m, tweak_input B pf' m']
      \<or> collision_in (tap_hash B) (tap_inputs B (path_proof pf) m @ tap_inputs B (path_proof pf') m'))"
| "dbc_collision B _ _ _ _ = False"

lemma dbc_verify_binds:
  assumes B: "btc_ok B" and v: "dbc_verify B pf m tx = Ok ()" "dbc_verify B pf' m' tx = Ok ()"
    and meth: "dbc_method pf = dbc_method pf'"
  shows "m = m' \<or> dbc_collision B pf m pf' m'"
  using v meth tapret_verify_binds [OF B] opret_verify_binds [OF B]
  by (cases pf; cases pf') (auto simp: map_err_Inr)

lemma anchor_verify_Ok:
  "anchor_verify h lh ch verify a pid msg tx = Some (Ok c) \<longleftrightarrow>
     convolve h lh ch (mpc_proof a) pid msg = Some (Ok c) \<and> verify (dbc_proof a) c tx = Ok ()"
  by (auto simp: anchor_verify_def anchor_convolve_def res_simps)

text \<open>The two methods do not exclude each other: both outputs can be present.\<close>

lemma both_methods_verify:
  assumes B: "btc_ok B" and k: "tapret_output_key B pf m = Some k"
    and t: "tx_output tx = [\<lparr> tx_value = v, script_pubkey = new_p2tr_tweaked B k \<rparr>,
      \<lparr> tx_value = v', script_pubkey = new_op_return B (hash_bytes m') \<rparr>]"
  shows "dbc_verify B (TapretDbc pf) m tx = Ok ()" "dbc_verify B (OpretDbc OpretProof) m' tx = Ok ()"
proof -
  have "is_p2tr B (new_p2tr_tweaked B k)" "\<not> is_op_return B (new_p2tr_tweaked B k)"
    "is_op_return B (new_op_return B (hash_bytes m'))"
    using btc_okD(2,6) [OF B] op_return_msg(1) [OF B] by blast+
  then have "first_script (is_p2tr B) tx = Some (new_p2tr_tweaked B k)"
    "first_script (is_op_return B) tx = Some (new_op_return B (hash_bytes m'))"
    by (simp_all add: first_script_def t)
  then show "dbc_verify B (TapretDbc pf) m tx = Ok ()" "dbc_verify B (OpretDbc OpretProof) m' tx = Ok ()"
    using k by (simp_all add: opret_verify_iff [OF B] tapret_verify_iff [OF B] map_err_Inr)
qed

end
