(* ===== verification/Dbc_Properties.thy ===== *)
theory Dbc_Properties
  imports Dbc_Binding Mpc_Inclusion
begin

text \<open>
  What deterministic bitcoin commitments promise: what is committed verifies, only the output
  meant for the commitment changes, and a transaction, a protocol and a closing method admit
  one message.
\<close>

section \<open>A bitcoin library\<close>

text \<open>
  An instance of the bitcoin parameter: scripts as the consensus rules have them, and additive
  stand-ins for the hashes.
\<close>

definition demo_btc :: Btc where
  "demo_btc = \<lparr>
     is_op_return = (\<lambda>s. s \<noteq> [] \<and> hd s = OP_RETURN),
     is_p2tr = (\<lambda>s. length s = 34 \<and> take 2 s = [0x51, 0x20]),
     push_opcode = (\<lambda>s c. s @ [c]),
     push_slice = (\<lambda>s d. s @ word_of_nat (length d) # d),
     new_op_return = (\<lambda>d. OP_RETURN # word_of_nat (length d) # d),
     new_p2tr = (\<lambda>k r. 0x51 # 0x20 # hash_bytes (case r of None \<Rightarrow> k | Some h \<Rightarrow> k + h)),
     new_p2tr_tweaked = (\<lambda>k. 0x51 # 0x20 # hash_bytes k),
     tap_tweak = (\<lambda>k r. case r of None \<Rightarrow> k | Some h \<Rightarrow> k + h),
     from_script = (\<lambda>s v. ucast v),
     from_node_hashes = (\<lambda>a b. a + b),
     tapscript_leaf_hash = (\<lambda>s. ucast (LeafVersion_TapScript)),
     node_of_leaf = (\<lambda>h. h),
     enc_tapret = (\<lambda>c. hash_bytes (tc_mpc c) @ [tc_nonce c]) \<rparr>"

lemma demo_btc_ok: "btc_ok demo_btc"
proof -
  have "\<exists>t. s = OP_RETURN # t" if "s \<noteq> []" "hd s = OP_RETURN" for s :: bytes
    using that by (cases s) auto
  moreover have "inj (enc_tapret demo_btc)"
    by (auto simp: inj_def demo_btc_def dest: hash_bytes_inj)
  moreover have "inj (new_p2tr_tweaked demo_btc)"
    by (auto simp: inj_def demo_btc_def dest: hash_bytes_inj)
  moreover have "\<not> (s \<noteq> [] \<and> hd s = OP_RETURN)" if "take 2 s = [0x51, 0x20]" for s :: bytes
    using that by (cases s) auto
  moreover have "min a b + max a b = a + b" for a b :: bytes32
    by (simp add: min_def max_def add.commute)
  ultimately show ?thesis
    unfolding btc_ok_def by (simp add: demo_btc_def) (metis list.sel(1) list.distinct(1))
qed

definition demo_tx :: "bytes list \<Rightarrow> Tx" where
  "demo_tx scripts = \<lparr> tx_version = 2, lock_time = 0, tx_input = [],
     tx_output = map (\<lambda>s. \<lparr> tx_value = 546, script_pubkey = s \<rparr>) scripts \<rparr>"

definition demo_tapret :: TapretProof where
  "demo_tapret = \<lparr> path_proof = path_root 0, internal_pk = 7 \<rparr>"

lemma demo_embed:
  "tx_embed_commit demo_btc (demo_tx [[0], [OP_RETURN]]) m
     = Ok (demo_tx [[0], OP_RETURN # 32 # hash_bytes m], OpretProof)"
  by (simp add: tx_embed_commit_def txout_embed_commit_def spk_embed_commit_def demo_tx_def demo_btc_def)

lemma demo_convolve:
  "tx_convolve_commit demo_btc (demo_tx [[0], 0x51 # 0x20 # hash_bytes 7]) demo_tapret m
     = Ok (demo_tx [[0], 0x51 # 0x20 # hash_bytes (7 + 0xC0)], demo_tapret)"
  by (simp add: tx_convolve_commit_def txout_convolve_commit_def xonly_convolve_commit_def demo_tx_def
      demo_btc_def demo_tapret_def path_root_def)

text \<open>Two anchors with one closing method for one protocol and one transaction anchor one message.\<close>

lemma anchors_bind:
  assumes "btc_ok B" "dbc_method (dbc_proof a) = dbc_method (dbc_proof a')"
    and "anchor_verify h lh ch (dbc_verify B) a pid msg tx = Some (Ok c)"
    and "anchor_verify h lh ch (dbc_verify B) a' pid msg' tx = Some (Ok c')"
  shows "msg = msg' \<or> dbc_collision B (dbc_proof a) c (dbc_proof a') c'
    \<or> (\<exists>b b'. block_with (mpc_proof a) pid msg = Some (Ok b) \<and> block_with (mpc_proof a') pid msg' = Some (Ok b')
          \<and> block_collision h lh ch b b')"
proof -
  have v: "convolve h lh ch (mpc_proof a) pid msg = Some (Ok c)" "dbc_verify B (dbc_proof a) c tx = Ok ()"
    "convolve h lh ch (mpc_proof a') pid msg' = Some (Ok c')" "dbc_verify B (dbc_proof a') c' tx = Ok ()"
    using assms(3,4) by (simp_all add: anchor_verify_Ok)
  then show ?thesis
    using dbc_verify_binds [OF assms(1) v(2,4) assms(2)] convolve_binds [OF v(1)] by blast
qed

section \<open>Properties\<close>

text \<open>C31: An opret commitment can be verified, holds one message and cannot be overwritten.
  When \<open>embed_commit\<close> succeeds on a transaction, the proof it returns verifies against the
  resulting transaction for the message, for no other message, and a second commitment to the
  transaction is refused.\<close>

theorem opret_commitment:
  assumes "btc_ok B" "tx_embed_commit B tx m = Ok (tx', pf)"
  shows "opret_verify B pf m tx' = Ok () \<and> (\<forall>m'. opret_verify B pf m' tx' = Ok () \<longleftrightarrow> m' = m)
    \<and> (\<forall>m'. tx_embed_commit B tx' m' = Err InvalidOpretScript)"
proof -
  have v: "opret_verify B pf m tx' = Ok ()"
    unfolding opret_verify_def by (rule opret_tx.verify_complete [OF assms])
  have "m' = m" if "opret_verify B pf m' tx' = Ok ()" for m'
    using opret_tx.verify_binds [OF assms(1)] that v unfolding opret_verify_def by blast
  moreover have "tx_embed_commit B tx' m' = Err InvalidOpretScript" for m'
  proof -
    obtain as x bs where "\<forall>a \<in> set as. \<not> is_op_return B (script_pubkey a)"
      "tx' = tx\<lparr> tx_output := as @ x\<lparr> script_pubkey := new_op_return B (hash_bytes m) \<rparr> # bs \<rparr>"
      using assms(2) by (auto simp: tx_embed_Ok [OF assms(1)])
    then show ?thesis
      by (simp add: tx_embed_commit_def update_first_skip txout_embed_commit_def spk_embed_commit_def
          op_return_msg [OF assms(1)])
  qed
  ultimately show ?thesis using v by blast
qed

theorem opret_commitment_witness:
  "opret_verify demo_btc OpretProof 9 (demo_tx [[0], OP_RETURN # 32 # hash_bytes 9]) = Ok ()
   \<and> tx_embed_commit demo_btc (demo_tx [[0], OP_RETURN # 32 # hash_bytes 9]) 10 = Err InvalidOpretScript"
  using opret_commitment [OF demo_btc_ok demo_embed, of 9] by simp

text \<open>C32: A tapret commitment can be verified and touches one output only.  When
  \<open>convolve_commit\<close> succeeds on a transaction, the transaction differs in the script of its
  first taproot output only, and the proof verifies against it for the message.\<close>

theorem tapret_commitment:
  assumes "btc_ok B" "tx_convolve_commit B tx pf m = Ok (tx', pf')"
  shows "tapret_verify B pf' m tx' = Ok () \<and> pf' = pf
    \<and> (\<exists>i < length (tx_output tx).
         is_p2tr B (script_pubkey (tx_output tx ! i)) \<and> is_p2tr B (script_pubkey (tx_output tx' ! i))
         \<and> (\<forall>j < i. \<not> is_p2tr B (script_pubkey (tx_output tx ! j)))
         \<and> tx' = tx\<lparr> tx_output := (tx_output tx)[i := (tx_output tx ! i)
              \<lparr> script_pubkey := script_pubkey (tx_output tx' ! i) \<rparr>] \<rparr>)"
proof -
  obtain as x bs k where e: "tx_output tx = as @ x # bs" "\<forall>a \<in> set as. \<not> is_p2tr B (script_pubkey a)"
    "is_p2tr B (script_pubkey x)" "pf' = pf"
    "tx' = tx\<lparr> tx_output := as @ x\<lparr> script_pubkey := new_p2tr_tweaked B k \<rparr> # bs \<rparr>"
    using assms(2) by (auto simp: tx_convolve_Ok)
  have "\<forall>j < length as. \<not> is_p2tr B (script_pubkey (tx_output tx ! j))"
    using e(1,2) by (simp add: nth_append)
  then have "\<exists>i < length (tx_output tx).
         is_p2tr B (script_pubkey (tx_output tx ! i)) \<and> is_p2tr B (script_pubkey (tx_output tx' ! i))
         \<and> (\<forall>j < i. \<not> is_p2tr B (script_pubkey (tx_output tx ! j)))
         \<and> tx' = tx\<lparr> tx_output := (tx_output tx)[i := (tx_output tx ! i)
              \<lparr> script_pubkey := script_pubkey (tx_output tx' ! i) \<rparr>] \<rparr>"
    using e btc_okD(6) [OF assms(1)] by (intro exI [of _ "length as"]) simp
  then show ?thesis
    using tapret_tx.verify_complete [OF assms] e(4) unfolding tapret_verify_def by blast
qed

theorem tapret_commitment_witness:
  "tapret_verify demo_btc demo_tapret 9 (demo_tx [[0], 0x51 # 0x20 # hash_bytes (7 + 0xC0)]) = Ok ()"
  using tapret_commitment [OF demo_btc_ok demo_convolve, of 9] by simp

text \<open>C29: A taproot output commits to one message.  Two tapret proofs that verify against the
  same transaction carry the same message, whatever script trees they claim; otherwise the key
  tweaks or the taproot hashes of the two proofs collide on the listed values.\<close>

theorem tapret_one_message:
  assumes "btc_ok B" "tapret_verify B pf m tx = Ok ()" "tapret_verify B pf' m' tx = Ok ()"
  shows "m = m' \<or> collision_in (tweak_hash B) [tweak_input B pf m, tweak_input B pf' m']
    \<or> collision_in (tap_hash B) (tap_inputs B (path_proof pf) m @ tap_inputs B (path_proof pf') m')"
  using assms by (rule tapret_verify_binds)

theorem tapret_one_message_witness:
  "\<exists>tx. tapret_verify demo_btc demo_tapret 9 tx = Ok () \<and> tapret_verify demo_btc demo_tapret 10 tx = Ok ()
     \<and> collision_in (tap_hash demo_btc)
         (tap_inputs demo_btc (path_root 0) 9 @ tap_inputs demo_btc (path_root 0) 10)"
proof -
  let ?tx = "demo_tx [[0], 0x51 # 0x20 # hash_bytes (7 + 0xC0)]"
  have v: "tapret_verify demo_btc demo_tapret m ?tx = Ok ()" for m
    unfolding tapret_verify_def by (rule tapret_tx.verify_complete [OF demo_btc_ok demo_convolve])
  have "\<not> collision_in (tweak_hash demo_btc) [tweak_input demo_btc demo_tapret 9, tweak_input demo_btc demo_tapret 10]"
    by (simp add: collision_in_def tweak_input_def root_input_def demo_tapret_def path_root_def commit_leaf_def
        demo_btc_def)
  moreover have "path_proof demo_tapret = path_root 0" by (simp add: demo_tapret_def)
  ultimately show ?thesis using tapret_one_message [OF demo_btc_ok v v, of 9 10] v by auto
qed

text \<open>C30: Anchors bind.  Two anchors with the same closing method that verify for the same
  protocol against the same transaction anchor the same message, unless the hashes of the
  output commitment or of the multi-protocol commitment collide.\<close>

theorem anchor_one_message:
  assumes "btc_ok B" "dbc_method (dbc_proof a) = dbc_method (dbc_proof a')"
    and "anchor_verify h lh ch (dbc_verify B) a pid msg tx = Some (Ok c)"
    and "anchor_verify h lh ch (dbc_verify B) a' pid msg' tx = Some (Ok c')"
  shows "msg = msg' \<or> dbc_collision B (dbc_proof a) c (dbc_proof a') c'
    \<or> (\<exists>b b'. block_with (mpc_proof a) pid msg = Some (Ok b) \<and> block_with (mpc_proof a') pid msg' = Some (Ok b')
          \<and> block_collision h lh ch b b')"
  using assms by (rule anchors_bind)

definition demo_anchor :: "DbcProof Anchor" where
  "demo_anchor = anchor_new one_leaf_proof (OpretDbc OpretProof)"

theorem anchor_one_message_witness:
  "anchor_verify (\<lambda>_. 0) (\<lambda>l. case l of Inhabited _ m \<Rightarrow> m | _ \<Rightarrow> 0) merkle_root (dbc_verify demo_btc) demo_anchor 5 9
       (demo_tx [[0], OP_RETURN # 32 # hash_bytes 9]) = Some (Ok 9)
   \<and> {m. anchor_verify (\<lambda>_. 0) (\<lambda>l. case l of Inhabited _ m \<Rightarrow> m | _ \<Rightarrow> 0) merkle_root (dbc_verify demo_btc) demo_anchor 5 m
            (demo_tx [[0], OP_RETURN # 32 # hash_bytes 9]) = Some (Ok m)}
       \<subseteq> {9} \<union> {m. \<exists>b b'. block_with one_leaf_proof 5 9 = Some (Ok b) \<and> block_with one_leaf_proof 5 m = Some (Ok b')
             \<and> block_collision (\<lambda>_. 0) (\<lambda>l. case l of Inhabited _ m \<Rightarrow> m | _ \<Rightarrow> 0) merkle_root b b'}"
proof -
  have "opret_verify demo_btc OpretProof 9 (demo_tx [[0], OP_RETURN # 32 # hash_bytes 9]) = Ok ()"
    unfolding opret_verify_def by (rule opret_tx.verify_complete [OF demo_btc_ok demo_embed])
  then have v: "anchor_verify (\<lambda>_. 0) (\<lambda>l. case l of Inhabited _ m \<Rightarrow> m | _ \<Rightarrow> 0) merkle_root (dbc_verify demo_btc)
      demo_anchor 5 9 (demo_tx [[0], OP_RETURN # 32 # hash_bytes 9]) = Some (Ok 9)"
    by (simp add: anchor_verify_Ok demo_anchor_def anchor_new_def one_leaf_convolve)
  show ?thesis
    using v anchor_one_message [OF demo_btc_ok refl v] by (auto simp: demo_anchor_def anchor_new_def)
qed

end
