(* ===== verification/Validation.thy ===== *)
theory Validation
  imports Contract_State Bundle Dbc
begin

text \<open>
  Validation reports and schema validation (\<open>rgb-consensus/src/validation/\<close>: \<open>status.rs\<close>,
  \<open>schema.rs\<close>, \<open>logic.rs\<close>).  Every operation of a contract is checked against the schema:
  types and numbers of metadata, global state, inputs and assignments, then the validation
  script.  The type system of the crate \<open>strict_types\<close> is an ordered map from type identifiers
  to the type \<open>'ty\<close>; whether a value deserializes as a type is the parameter \<open>deserializes\<close>.
  Libraries are the type \<open>'lib\<close> and the virtual machine is the parameter \<open>exec_script\<close>, which
  gives the result of the run and the error code in register \<open>a8[0]\<close>, or nothing when the run
  does not return.  The iteration order of a \<open>HashSet\<close> is the parameter \<open>hash_iter\<close>.  Every
  \<open>expect\<close> of the source is a \<open>None\<close> here.
\<close>

section \<open>Reports\<close>

datatype Validity = Valid | Warnings

text \<open>
  The variants of \<open>Failure\<close>, in the groups the source lists them in.
\<close>

datatype SchemaFailure =
    SchemaGlobalSemIdUnknown GlobalStateType SemId
  | SchemaOwnedSemIdUnknown AssignmentType SemId
  | SchemaMetaSemIdUnknown MetaType SemId
  | SchemaOpEmptyInputs OpFullType
  | SchemaOpMetaTypeUnknown OpFullType MetaType
  | SchemaOpGlobalTypeUnknown OpFullType GlobalStateType
  | SchemaOpAssignmentTypeUnknown OpFullType AssignmentType

datatype OperationFailure =
    SchemaUnknownTransitionType OpId TransitionType
  | SchemaUnknownMetaType OpId MetaType
  | SchemaUnknownGlobalStateType OpId GlobalStateType
  | SchemaUnknownAssignmentType OpId AssignmentType
  | SchemaUnknownSealClosingStrategy OpId SealClosingStrategy
  | SchemaGlobalStateOccurrences OpId GlobalStateType OccurrencesMismatch
  | SchemaGlobalStateLimit OpId GlobalStateType u16 "24 word"
  | SchemaNoMetadata OpId MetaType
  | SchemaInvalidMetadata OpId SemId
  | SchemaInvalidGlobalValue OpId GlobalStateType SemId
  | SchemaInvalidOwnedValue OpId AssignmentType SemId
  | SchemaInputOccurrences OpId AssignmentType OccurrencesMismatch
  | SchemaAssignmentOccurrences OpId AssignmentType OccurrencesMismatch

datatype HistoryFailure =
    CyclicGraph Opout
  | ContractMismatch OpId ContractId
  | TransitionIdMismatch OpId OpId
  | WitnessMissingInput BundleId Outpoint Txid
  | InputMapTransitionMismatch BundleId OpId Opout
  | NoPrevState OpId Opout
  | SealNoPubWitness BundleId Txid
  | SealsInvalid BundleId Txid string
  | MpcInvalid BundleId Txid InvalidProof
  | NoDbcOutput Txid
  | InvalidProofType Txid Method

datatype StateFailure =
    StateTypeMismatch OpId AssignmentType StateType StateType
  | FungibleTypeMismatch OpId AssignmentType FungibleType FungibleType
  | ScriptFailure OpId "u8 option" "string option"
  | ContractStateFilled OpId
  | MissingScript OpId LibId
  | ScriptIDMismatch OpId LibId LibId

datatype 'ty Failure =
    ContractChainNetMismatch ChainNet
  | ResolverChainNetMismatch ChainNet
  | SchemaMismatch SchemaId SchemaId
  | TypeSystemMismatch SemId "'ty option" 'ty
  | InSchema SchemaFailure
  | InOperation OperationFailure
  | InHistory HistoryFailure
  | InState StateFailure
  | CustomFailure string

datatype WitnessResolverError =
    IdMismatch Txid Txid
  | ResolverIssue "Txid option" string
  | InvalidResolverData
  | WrongChainNet

datatype 'ty ValidationError =
    InvalidConsignment "'ty Failure"
  | ResolverError WitnessResolverError

abbreviation InvalidSchema :: "SchemaFailure \<Rightarrow> 'ty ValidationError" where
  "InvalidSchema f \<equiv> InvalidConsignment (InSchema f)"

abbreviation InvalidOperation :: "OperationFailure \<Rightarrow> 'ty ValidationError" where
  "InvalidOperation f \<equiv> InvalidConsignment (InOperation f)"

abbreviation InvalidHistory :: "HistoryFailure \<Rightarrow> 'ty ValidationError" where
  "InvalidHistory f \<equiv> InvalidConsignment (InHistory f)"

abbreviation InvalidState :: "StateFailure \<Rightarrow> 'ty ValidationError" where
  "InvalidState f \<equiv> InvalidConsignment (InState f)"

text \<open>Hash maps that are only written and looked up are maps.\<close>

type_synonym UnsafeHistoryMap = "(u32, Txid set) omap"

datatype Warning = UnsafeHistory UnsafeHistoryMap | CustomWarning string

datatype Info = CustomInfo string

record 'd Status =
  warnings :: "Warning list"
  status_info :: "Info list"
  tx_ord_map :: "(Txid, WitnessOrd) omap"
  dag_data_opt :: "'d option"

definition status_new :: "'d Status" where
  "status_new = \<lparr> warnings = [], status_info = [], tx_ord_map = [], dag_data_opt = None \<rparr>"

definition add_warning :: "'d Status \<Rightarrow> Warning \<Rightarrow> 'd Status" where
  "add_warning st w = st\<lparr> warnings := warnings st @ [w] \<rparr>"

definition add_info :: "'d Status \<Rightarrow> Info \<Rightarrow> 'd Status" where
  "add_info st i = st\<lparr> status_info := status_info st @ [i] \<rparr>"

definition validity :: "'d Status \<Rightarrow> Validity" where
  "validity st = (if warnings st \<noteq> [] then Warnings else Valid)"

definition status_add_assign :: "'d Status \<Rightarrow> 'd Status \<Rightarrow> 'd Status" where
  "status_add_assign st rhs =
     st\<lparr> warnings := warnings st @ warnings rhs, status_info := status_info st @ status_info rhs \<rparr>"

section \<open>Schema identifiers\<close>

record SchemaEnc =
  enc_ffv :: "u16 \<Rightarrow> bytes"
  enc_type_name :: "string \<Rightarrow> bytes"
  enc_meta_types :: "(MetaType, MetaDetails) omap \<Rightarrow> bytes"
  enc_global_types :: "(GlobalStateType, GlobalDetails) omap \<Rightarrow> bytes"
  enc_owned_types :: "(AssignmentType, AssignmentDetails) omap \<Rightarrow> bytes"
  enc_genesis_schema :: "GenesisSchema \<Rightarrow> bytes"
  enc_transitions :: "(TransitionType, TransitionDetails) omap \<Rightarrow> bytes"
  enc_opt_assignment :: "AssignmentType option \<Rightarrow> bytes"

definition TAG_schema :: string where
  "TAG_schema = ''urn:lnp-bp:rgb:schema#2024-02-03''"

definition schema_commit_encode :: "Enc \<Rightarrow> SchemaEnc \<Rightarrow> Schema \<Rightarrow> CommitEngine \<Rightarrow> CommitEngine" where
  "schema_commit_encode c se s e =
     (let e = commit_to_serialized (type_fqn c ''Ffv'') (enc_ffv se (ffv s)) e;
          e = commit_to_serialized (type_fqn c ''TypeName'') (enc_type_name se (schema_name s)) e;
          e = commit_to_map 0 255 (type_fqn c ''MetaType'') (type_fqn c ''MetaDetails'')
                (enc_meta_types se (meta_types s)) e;
          e = commit_to_map 0 255 (type_fqn c ''GlobalStateType'') (type_fqn c ''GlobalDetails'')
                (enc_global_types se (global_types s)) e;
          e = commit_to_map 0 255 (type_fqn c ''AssignmentType'') (type_fqn c ''AssignmentDetails'')
                (enc_owned_types se (owned_types s)) e;
          e = commit_to_serialized (type_fqn c ''GenesisSchema'') (enc_genesis_schema se (schema_genesis s)) e;
          e = commit_to_map 0 255 (type_fqn c ''TransitionType'') (type_fqn c ''TransitionDetails'')
                (enc_transitions se (transitions s)) e
      in commit_to_option (type_fqn c ''AssignmentType'') (enc_opt_assignment se (default_assignment s)) e)"

definition schema_id :: "Enc \<Rightarrow> SchemaEnc \<Rightarrow> Schema \<Rightarrow> SchemaId" where
  "schema_id c se s = commit_id c TAG_schema (schema_commit_encode c se s)"

section \<open>Consistency of a schema\<close>

type_synonym 'ty TypeSystem = "(SemId, 'ty) omap"

definition verify_operation :: "Schema \<Rightarrow> OpFullType \<Rightarrow> OpSchema \<Rightarrow> ('ty ValidationError, unit) result" where
  "verify_operation s op_type os =
     and_then
       (try_all (\<lambda>t. ensure (omap_contains (meta_types s) t) (InvalidSchema (SchemaOpMetaTypeUnknown op_type t)))
          (os_metadata os)) (\<lambda>_.
     and_then
       (case os_inputs os of
          Some inputs \<Rightarrow> ensure (inputs \<noteq> []) (InvalidSchema (SchemaOpEmptyInputs op_type))
        | None \<Rightarrow> Ok ()) (\<lambda>_.
     and_then
       (try_all (\<lambda>t. ensure (omap_contains (global_types s) t) (InvalidSchema (SchemaOpGlobalTypeUnknown op_type t)))
          (omap_keys (os_globals os))) (\<lambda>_.
       try_all (\<lambda>t. ensure (omap_contains (owned_types s) t) (InvalidSchema (SchemaOpAssignmentTypeUnknown op_type t)))
         (omap_keys (os_assignments os)))))"

definition schema_verify :: "Schema \<Rightarrow> 'ty TypeSystem \<Rightarrow> ('ty ValidationError, unit) result" where
  "schema_verify s types =
     and_then (verify_operation s GenesisOp (genesis_op_schema (schema_genesis s))) (\<lambda>_.
     and_then
       (try_all (\<lambda>(t, d). verify_operation s (StateTransitionOp t) (transition_op_schema (transition_schema d)))
          (transitions s)) (\<lambda>_.
     and_then
       (try_all (\<lambda>(t, d). ensure (omap_contains types (md_sem_id d))
            (InvalidSchema (SchemaMetaSemIdUnknown t (md_sem_id d)))) (meta_types s)) (\<lambda>_.
     and_then
       (try_all (\<lambda>(t, d). ensure (omap_contains types (gss_sem_id (global_state_schema d)))
            (InvalidSchema (SchemaGlobalSemIdUnknown t (gss_sem_id (global_state_schema d))))) (global_types s)) (\<lambda>_.
       try_all (\<lambda>(t, d). case owned_state_schema d of
            StructuredSchema sid \<Rightarrow>
              ensure (omap_contains types sid) (InvalidSchema (SchemaOwnedSemIdUnknown t sid))
          | _ \<Rightarrow> Ok ()) (owned_types s)))))"

section \<open>Validation of an operation\<close>

record ('ty, 'lib, 's) VmEnv =
  deserializes :: "'ty TypeSystem \<Rightarrow> SemId \<Rightarrow> bytes \<Rightarrow> bool"
  hash_iter :: "AssignmentType list \<Rightarrow> AssignmentType list"
  lib_id :: "'lib \<Rightarrow> LibId"
  exec_script ::
    "LibSite \<Rightarrow> (LibId \<Rightarrow> 'lib option) \<Rightarrow> u16 option \<Rightarrow> 's VmContext \<Rightarrow> (bool \<times> u8 option) option"
  evolve_state :: "'s \<Rightarrow> OrdOpRef \<Rightarrow> 's option"

definition validate_metadata ::
  "('ty, 'lib, 's) VmEnv \<Rightarrow> Schema \<Rightarrow> OpId \<Rightarrow> Metadata \<Rightarrow> MetaSchema \<Rightarrow> 'ty TypeSystem
     \<Rightarrow> ('ty ValidationError, unit) presult" where
  "validate_metadata v s opid md md_schema types =
     p_then
       (p_all (\<lambda>t. if t \<notin> set md_schema then PErr (InvalidOperation (SchemaUnknownMetaType opid t)) else POk ())
          (omap_keys md)) (\<lambda>_.
       p_all (\<lambda>t.
         case omap_get md t of
           None \<Rightarrow> PErr (InvalidOperation (SchemaNoMetadata opid t))
         | Some val \<Rightarrow>
             p_then (expect (omap_get (meta_types s) t)) (\<lambda>d.
               if \<not> deserializes v types (md_sem_id d) val
               then PErr (InvalidOperation (SchemaInvalidMetadata opid (md_sem_id d)))
               else POk ())) md_schema)"

definition validate_global_state ::
  "('ty, 'lib, 's) VmEnv \<Rightarrow> Schema \<Rightarrow> OpId \<Rightarrow> GlobalState \<Rightarrow> GlobalSchema \<Rightarrow> 'ty TypeSystem
     \<Rightarrow> ('ty ValidationError, unit) presult" where
  "validate_global_state v s opid gl gl_schema types =
     p_then
       (p_all (\<lambda>t. if \<not> omap_contains gl_schema t
            then PErr (InvalidOperation (SchemaUnknownGlobalStateType opid t)) else POk ()) (omap_keys gl)) (\<lambda>_.
       p_all (\<lambda>(t, occ).
         let vals = (case omap_get gl t of None \<Rightarrow> [] | Some vs \<Rightarrow> vs);
             count = (word_of_nat (length vals) :: u16) in
         p_then (expect (omap_get (global_types s) t)) (\<lambda>d.
         let sid = gss_sem_id (global_state_schema d); mx = max_items (global_state_schema d) in
         case check occ count of
           Inl err \<Rightarrow> PErr (InvalidOperation (SchemaGlobalStateOccurrences opid t err))
         | Inr _ \<Rightarrow>
             if (ucast count :: u32) > ucast mx
             then PErr (InvalidOperation (SchemaGlobalStateLimit opid t count mx))
             else p_all (\<lambda>dat. if \<not> deserializes v types sid dat
                then PErr (InvalidOperation (SchemaInvalidGlobalValue opid t sid)) else POk ()) vals)) gl_schema)"

definition validate_prev_state ::
  "('ty, 'lib, 's) VmEnv \<Rightarrow> OpId \<Rightarrow> PrevState \<Rightarrow> AssignmentsSchema \<Rightarrow> ('ty ValidationError, unit) presult"
where
  "validate_prev_state v opid prev as_schema =
     p_all (\<lambda>t.
       case omap_get as_schema t of
         None \<Rightarrow> PErr (InvalidOperation (SchemaUnknownAssignmentType opid t))
       | Some occ \<Rightarrow>
           (case check occ (case omap_get prev t of None \<Rightarrow> 0 | Some a \<Rightarrow> word_of_nat (length a)) of
              Inl err \<Rightarrow> PErr (InvalidOperation (SchemaInputOccurrences opid t err))
            | Inr _ \<Rightarrow> POk ()))
       (hash_iter v (remdups (omap_keys prev @ omap_keys as_schema)))"

fun oss_validate ::
  "('ty, 'lib, 's) VmEnv \<Rightarrow> OwnedStateSchema \<Rightarrow> OpId \<Rightarrow> AssignmentType \<Rightarrow> RevealedState \<Rightarrow> 'ty TypeSystem
     \<Rightarrow> ('ty ValidationError, unit) presult" where
  "oss_validate v DeclarativeSchema opid t RVoid types = POk ()"
| "oss_validate v (FungibleSchema ft) opid t (RFungible val) types =
     (if fungible_type val \<noteq> ft
      then PErr (InvalidState (FungibleTypeMismatch opid t ft (fungible_type val)))
      else POk ())"
| "oss_validate v (StructuredSchema sid) opid t (RStructured dat) types =
     (if \<not> deserializes v types sid dat
      then PErr (InvalidOperation (SchemaInvalidOwnedValue opid t sid))
      else POk ())"
| "oss_validate v oss opid t st types =
     PErr (InvalidState (StateTypeMismatch opid t (oss_state_type oss) (revealed_state_type st)))"

fun ta_states :: "'sl TypedAssigns \<Rightarrow> RevealedState list" where
  "ta_states (Declarative l) = map (\<lambda>a. RVoid) l"
| "ta_states (FungibleAssigns l) = map (\<lambda>a. RFungible (as_revealed_state a)) l"
| "ta_states (StructuredAssigns l) = map (\<lambda>a. RStructured (as_revealed_state a)) l"

definition validate_new_state ::
  "('ty, 'lib, 's) VmEnv \<Rightarrow> Schema \<Rightarrow> OpId \<Rightarrow> 'sl Assignments \<Rightarrow> AssignmentsSchema \<Rightarrow> 'ty TypeSystem
     \<Rightarrow> ('ty ValidationError, unit) presult" where
  "validate_new_state v s opid new_state as_schema types =
     p_all (\<lambda>t.
       case omap_get as_schema t of
         None \<Rightarrow> PErr (InvalidOperation (SchemaUnknownAssignmentType opid t))
       | Some occ \<Rightarrow>
           (case check occ (case omap_get new_state t of None \<Rightarrow> 0 | Some ta \<Rightarrow> ta_len_u16 ta) of
              Inl err \<Rightarrow> PErr (InvalidOperation (SchemaAssignmentOccurrences opid t err))
            | Inr _ \<Rightarrow>
                p_then (expect (omap_get (owned_types s) t)) (\<lambda>d.
                  case omap_get new_state t of
                    None \<Rightarrow> POk ()
                  | Some ta \<Rightarrow>
                      p_all (\<lambda>st. oss_validate v (owned_state_schema d) opid t st types) (ta_states ta))))
       (hash_iter v (remdups (omap_keys new_state @ omap_keys as_schema)))"

text \<open>The schema parts an operation is checked against.\<close>

record OpRules =
  or_metadata :: MetaSchema
  or_globals :: GlobalSchema
  or_owned :: InputsSchema
  or_assign :: AssignmentsSchema
  or_validator :: "LibSite option"
  or_ty :: "u16 option"

fun op_rules :: "Schema \<Rightarrow> OpId \<Rightarrow> OrdOpRef \<Rightarrow> ('ty ValidationError, OpRules) result" where
  "op_rules s opid (OrdGenesis g) =
     (if g_seal_closing_strategy g \<noteq> FirstOpretOrTapret
      then Err (InvalidOperation (SchemaUnknownSealClosingStrategy opid (g_seal_closing_strategy g)))
      else Ok \<lparr> or_metadata = gs_metadata (schema_genesis s), or_globals = gs_globals (schema_genesis s),
                or_owned = [], or_assign = gs_assignments (schema_genesis s),
                or_validator = gs_validator (schema_genesis s), or_ty = None \<rparr>)"
| "op_rules s opid (OrdTransition t _ _ _) =
     (case omap_get (transitions s) (t_transition_type t) of
        None \<Rightarrow> Err (InvalidOperation (SchemaUnknownTransitionType opid (t_transition_type t)))
      | Some d \<Rightarrow>
          Ok \<lparr> or_metadata = ts_metadata (transition_schema d), or_globals = ts_globals (transition_schema d),
               or_owned = ts_inputs (transition_schema d), or_assign = ts_assignments (transition_schema d),
               or_validator = ts_validator (transition_schema d), or_ty = Some (t_transition_type t) \<rparr>)"

text \<open>The last step of \<open>validate_state\<close>: the script, and the new contract state when there is one.\<close>

definition run_validator ::
  "('ty, 'lib, 's) VmEnv \<Rightarrow> (LibId, 'lib) omap \<Rightarrow> OpId \<Rightarrow> OpRules \<Rightarrow> OrdOpRef \<Rightarrow> 's VmContext
     \<Rightarrow> ('ty ValidationError, 's) presult" where
  "run_validator v scripts opid r p ctx =
     (case or_validator r of
        None \<Rightarrow> POk (vc_contract_state ctx)
      | Some site \<Rightarrow>
          (case omap_get scripts (site_lib site) of
             None \<Rightarrow> PErr (InvalidState (MissingScript opid (site_lib site)))
           | Some script \<Rightarrow>
               if lib_id v script \<noteq> site_lib site
               then PErr (InvalidState (ScriptIDMismatch opid (site_lib site) (lib_id v script)))
               else
                 (case exec_script v site (omap_get scripts) (or_ty r) ctx of
                    None \<Rightarrow> None
                  | Some (False, code) \<Rightarrow> PErr (InvalidState (ScriptFailure opid code None))
                  | Some (True, _) \<Rightarrow>
                      (case evolve_state v (vc_contract_state ctx) p of
                         None \<Rightarrow> PErr (InvalidState (ContractStateFilled opid))
                       | Some st \<Rightarrow> POk st))))"

definition validate_state ::
  "Enc \<Rightarrow> ('ty, 'lib, 's) VmEnv \<Rightarrow> Schema \<Rightarrow> 'ty TypeSystem \<Rightarrow> (LibId, 'lib) omap \<Rightarrow> Genesis \<Rightarrow> OrdOpRef
     \<Rightarrow> 's \<Rightarrow> PrevState \<Rightarrow> ('ty ValidationError, 's) presult" where
  "validate_state c v s types scripts genesis p st prev =
     p_then (expect (operation_id c (ord_op p))) (\<lambda>opid.
     p_then (Some (op_rules s opid p)) (\<lambda>r.
     p_then (validate_metadata v s opid (op_metadata (ord_op p)) (or_metadata r) types) (\<lambda>_.
     p_then (validate_global_state v s opid (op_globals (ord_op p)) (or_globals r) types) (\<lambda>_.
     p_then (validate_prev_state v opid prev (or_owned r)) (\<lambda>_.
     p_then
       (case op_assignments (ord_op p) of
          GenesisRef a \<Rightarrow> validate_new_state v s opid a (or_assign r) types
        | GraphRef a \<Rightarrow> validate_new_state v s opid a (or_assign r) types) (\<lambda>_.
     p_then (expect (genesis_id c genesis)) (\<lambda>contract_id.
       run_validator v scripts opid r p
         \<lparr> vc_contract_id = contract_id, vc_op_info = op_info_with opid p prev, vc_contract_state = st \<rparr>)))))))"

end
