(* ===== verification/Validator.thy ===== *)
theory Validator
  imports Validation
begin

text \<open>
  Consignment validation (\<open>rgb-consensus/src/validation/\<close>: \<open>validator.rs\<close>, \<open>opouts_dag.rs\<close>,
  \<open>consignment.rs\<close>).  The validator walks through the bundles of a consignment in order; its
  state is the record \<open>Validator\<close>, with the interior-mutable cells of the source as ordinary
  fields.  A run that returns an error discards the state, so a step is a result over the next
  state, and \<open>None\<close> is a panic or a script that does not return.  The witness resolver, the
  transaction hash, the hashes of the multi-protocol commitment and the graph library are
  parameters.
\<close>

section \<open>Graph of operation outputs\<close>

record 'd DagLib =
  dag_new :: 'd
  dag_add_node :: "'d \<Rightarrow> Opout \<Rightarrow> 'd \<times> nat"
  dag_add_edge :: "'d \<Rightarrow> nat \<Rightarrow> nat \<Rightarrow> 'd"

record 'd OpoutsDagInfo =
  od_dag :: 'd
  od_index :: "(Opout, nat) omap"
  cached_outputs :: "(OpId, nat list) omap"

definition dag_info_new :: "'d DagLib \<Rightarrow> 'd OpoutsDagInfo" where
  "dag_info_new L = \<lparr> od_dag = dag_new L, od_index = [], cached_outputs = [] \<rparr>"

definition register_output :: "'d DagLib \<Rightarrow> 'd OpoutsDagInfo \<Rightarrow> Opout \<Rightarrow> 'd OpoutsDagInfo \<times> nat" where
  "register_output L i opout =
     (case omap_get (od_index i) opout of
        Some n \<Rightarrow> (i, n)
      | None \<Rightarrow>
          (let (g, n) = dag_add_node L (od_dag i) opout in
           (i\<lparr> od_dag := g, od_index := omap_insert opout n (od_index i) \<rparr>, n)))"

definition cache_outputs :: "'d OpoutsDagInfo \<Rightarrow> OpId \<Rightarrow> nat list \<Rightarrow> 'd OpoutsDagInfo" where
  "cache_outputs i opid ns = i\<lparr> cached_outputs := omap_insert opid ns (cached_outputs i) \<rparr>"

definition assigns_opouts :: "OpId \<Rightarrow> 's Assignments \<Rightarrow> Opout list" where
  "assigns_opouts opid as =
     concat (map (\<lambda>(ty, ta). map (\<lambda>n. Opout opid ty (word_of_nat n)) [0..<unat (ta_len_u16 ta)]) as)"

definition register_all ::
  "'d DagLib \<Rightarrow> 'd OpoutsDagInfo \<Rightarrow> Opout list \<Rightarrow> 'd OpoutsDagInfo \<times> nat list" where
  "register_all L i os =
     foldl (\<lambda>(i, ns) o'. let (i', n) = register_output L i o' in (i', ns @ [n])) (i, []) os"

definition register_outputs :: "'d DagLib \<Rightarrow> 'd OpoutsDagInfo \<Rightarrow> Operation \<Rightarrow> OpId \<Rightarrow> 'd OpoutsDagInfo" where
  "register_outputs L i p opid =
     (let (i', ns) = register_all L i (assigns_opouts opid (aref_flat (op_assignments p))) in
      cache_outputs i' opid ns)"

definition connect_input_to_outputs_by_opid ::
  "'d DagLib \<Rightarrow> 'd OpoutsDagInfo \<Rightarrow> Opout \<Rightarrow> OpId \<Rightarrow> 'd OpoutsDagInfo" where
  "connect_input_to_outputs_by_opid L i inp opid =
     (case omap_get (od_index i) inp of
        None \<Rightarrow> i
      | Some src \<Rightarrow>
          (case omap_get (cached_outputs i) opid of
             None \<Rightarrow> i
           | Some ns \<Rightarrow> i\<lparr> od_dag := foldl (\<lambda>g dst. dag_add_edge L g src dst) (od_dag i) ns \<rparr>))"

definition connect_transition ::
  "'d DagLib \<Rightarrow> 'd OpoutsDagInfo \<Rightarrow> Transition \<Rightarrow> OpId \<Rightarrow> 'd OpoutsDagInfo" where
  "connect_transition L i t opid =
     foldl (\<lambda>i inp. connect_input_to_outputs_by_opid L i inp opid) i (t_inputs t)"

definition build_dag :: "'d DagLib \<Rightarrow> 'd OpoutsDagInfo \<Rightarrow> KnownTransition list \<Rightarrow> 'd OpoutsDagInfo" where
  "build_dag L i ks =
     foldl (\<lambda>i kt. connect_transition L
        (register_outputs L i (OpTransition (kt_transition kt)) (kt_opid kt)) (kt_transition kt) (kt_opid kt)) i ks"

type_synonym 'd OpoutsDagData = "'d \<times> (Opout, nat) omap"

definition to_opouts_dag_data :: "'d OpoutsDagInfo \<Rightarrow> 'd OpoutsDagData" where
  "to_opouts_dag_data i = (od_dag i, od_index i)"

section \<open>Consignments, resolvers and configuration\<close>

type_synonym EAnchor = "DbcProof Anchor"

record ('ty, 'lib) Consignment =
  c_schema :: Schema
  c_types :: "'ty TypeSystem"
  c_scripts :: "'lib list"
  c_genesis :: Genesis
  bundles_info :: "(TransitionBundle \<times> EAnchor \<times> Txid) list"

definition CONSIGNMENT_MAX_LIBS :: nat where
  "CONSIGNMENT_MAX_LIBS = 1024"

definition bundle_ids :: "Enc \<Rightarrow> ('ty, 'lib) Consignment \<Rightarrow> BundleId set" where
  "bundle_ids c cons = set (map (\<lambda>(b, _, _). bundle_id c b) (bundles_info cons))"

datatype WitnessStatus = Unresolved | Resolved Tx WitnessOrd

fun status_witness_ord :: "WitnessStatus \<Rightarrow> WitnessOrd" where
  "status_witness_ord Unresolved = Archived"
| "status_witness_ord (Resolved _ ord) = ord"

record Resolver =
  rw_resolve :: "Txid \<Rightarrow> (WitnessResolverError, WitnessStatus) result"
  rw_check_chain_net :: "ChainNet \<Rightarrow> (WitnessResolverError, unit) result"

definition checked_resolve_witness ::
  "(Tx \<Rightarrow> Txid) \<Rightarrow> Resolver \<Rightarrow> Txid \<Rightarrow> (WitnessResolverError, WitnessStatus) result" where
  "checked_resolve_witness compute_txid R witness_id =
     and_then (rw_resolve R witness_id) (\<lambda>st.
       case st of
         Resolved tx _ \<Rightarrow>
           if compute_txid tx \<noteq> witness_id then Err (IdMismatch (compute_txid tx) witness_id) else Ok st
       | Unresolved \<Rightarrow> Ok st)"

record 'ty ValidationConfig =
  vcfg_chain_net :: ChainNet
  vcfg_safe_height :: "u32 option"
  trusted_typesystem :: "'ty TypeSystem"
  build_opouts_dag :: bool

section \<open>The validator\<close>

record 'd ChainEnv =
  ce_enc :: Enc
  ce_schema_enc :: SchemaEnc
  ce_btc :: Btc
  ce_node_hash :: "MerkleNode \<Rightarrow> MerkleHash"
  ce_leaf_hash :: "Leaf \<Rightarrow> MerkleHash"
  ce_conceal_hash :: "MerkleConcealed \<Rightarrow> Commitment"
  ce_txid :: "Tx \<Rightarrow> Txid"
  ce_seal_error :: "DbcError VerifyError \<Rightarrow> string"
  ce_dag :: "'d DagLib"

type_synonym RevealedAssign = "(RevealedState, GenesisSeal) Assign"

record ('lib, 's, 'd) Validator =
  v_status :: "'d OpoutsDagData Status"
  v_schema_id :: SchemaId
  v_contract_id :: ContractId
  v_chain_net :: ChainNet
  v_scripts :: "(LibId, 'lib) omap"
  v_contract_state :: 's
  input_opouts :: "Opout set"
  opout_assigns :: "(Opout, RevealedAssign) omap"
  v_safe_height :: "u32 option"
  opouts_dag_info :: "'d OpoutsDagInfo option"

fun dbc_output_scan :: "Btc \<Rightarrow> Method \<Rightarrow> bool \<Rightarrow> TxOut list \<Rightarrow> bool option" where
  "dbc_output_scan B m has [] = (if has then Some False else None)"
| "dbc_output_scan B m has (out # outs) =
     (if is_op_return B (script_pubkey out)
      then (if OpretFirst = m then Some True else dbc_output_scan B m True outs)
      else if is_p2tr B (script_pubkey out)
      then (if TapretFirst = m then Some True else dbc_output_scan B m True outs)
      else dbc_output_scan B m has outs)"

definition dbc_output_matches_method :: "Btc \<Rightarrow> TxOut list \<Rightarrow> Method \<Rightarrow> bool option" where
  "dbc_output_matches_method B outs m = dbc_output_scan B m False outs"

definition validator_init ::
  "('ty, 'lib, 's) VmEnv \<Rightarrow> 'd ChainEnv \<Rightarrow> ('ty, 'lib) Consignment \<Rightarrow> 's \<Rightarrow> 'ty ValidationConfig
     \<Rightarrow> ('ty ValidationError, ('lib, 's, 'd) Validator) presult" where
  "validator_init v E cons st cfg =
     p_then (expect (genesis_id (ce_enc E) (c_genesis cons))) (\<lambda>contract_id.
       let scripts = foldl (\<lambda>m l. omap_insert (lib_id v l) l m) [] (c_scripts cons) in
       if length scripts > CONSIGNMENT_MAX_LIBS then None
       else POk
         \<lparr> v_status = status_new, v_schema_id = g_schema_id (c_genesis cons), v_contract_id = contract_id,
           v_chain_net = g_chain_net (c_genesis cons), v_scripts = scripts, v_contract_state = st,
           input_opouts = {}, opout_assigns = [], v_safe_height = vcfg_safe_height cfg,
           opouts_dag_info = (if build_opouts_dag cfg then Some (dag_info_new (ce_dag E)) else None) \<rparr>)"

definition validate_schema ::
  "('ty, 'lib) Consignment \<Rightarrow> 'ty ValidationConfig \<Rightarrow> ('ty ValidationError, unit) result" where
  "validate_schema cons cfg =
     and_then
       (try_all (\<lambda>(sid, ty). ensure (omap_get (trusted_typesystem cfg) sid = Some ty)
            (InvalidConsignment (TypeSystemMismatch sid (omap_get (trusted_typesystem cfg) sid) ty))) (c_types cons))
       (\<lambda>_. schema_verify (c_schema cons) (c_types cons))"

text \<open>
  \<open>process_assignments\<close> enters the outputs of an operation into the graph and the revealed ones
  into the map of assignments that may be spent.
\<close>

definition assign_revealed ::
  "('sl \<Rightarrow> Txid option \<Rightarrow> GenesisSeal option) \<Rightarrow> OpId \<Rightarrow> Txid option
     \<Rightarrow> (Opout, RevealedAssign) omap \<Rightarrow> AssignmentType \<times> 'sl TypedAssigns \<Rightarrow> (Opout, RevealedAssign) omap" where
  "assign_revealed ww opid w m = (\<lambda>(ty, ta).
     foldl (\<lambda>m n. case to_revealed_assign_at ww ta (word_of_nat n) w of
          Inr a \<Rightarrow> omap_insert (Opout opid ty (word_of_nat n)) a m
        | Inl _ \<Rightarrow> m) m [0..<unat (ta_len_u16 ta)])"

definition process_assignments ::
  "'d DagLib \<Rightarrow> ('sl \<Rightarrow> Txid option \<Rightarrow> GenesisSeal option) \<Rightarrow> ('lib, 's, 'd) Validator \<Rightarrow> OpId \<Rightarrow> Txid option
     \<Rightarrow> 'sl Assignments \<Rightarrow> ('lib, 's, 'd) Validator" where
  "process_assignments L ww V opid w as =
     V\<lparr> opouts_dag_info :=
          map_option (\<lambda>i. let (i', ns) = register_all L i (assigns_opouts opid as) in cache_outputs i' opid ns)
            (opouts_dag_info V),
        opout_assigns := foldl (assign_revealed ww opid w) (opout_assigns V) as \<rparr>"

definition validate_genesis ::
  "('ty, 'lib, 's) VmEnv \<Rightarrow> 'd ChainEnv \<Rightarrow> ('ty, 'lib) Consignment \<Rightarrow> ('lib, 's, 'd) Validator
     \<Rightarrow> ('ty ValidationError, ('lib, 's, 'd) Validator) presult" where
  "validate_genesis v E cons V =
     (let sid = schema_id (ce_enc E) (ce_schema_enc E) (c_schema cons) in
      if sid \<noteq> v_schema_id V then PErr (InvalidConsignment (SchemaMismatch (v_schema_id V) sid))
      else
        p_then
          (validate_state (ce_enc E) v (c_schema cons) (c_types cons) (v_scripts V) (c_genesis cons)
             (OrdGenesis (c_genesis cons)) (v_contract_state V) []) (\<lambda>st.
        p_then (expect (genesis_id (ce_enc E) (c_genesis cons))) (\<lambda>gid.
          POk (process_assignments (ce_dag E) genesis_with_witness_id (V\<lparr> v_contract_state := st \<rparr>) gid None
                 (g_assignments (c_genesis cons))))))"

definition validator_resolve_witness ::
  "'d ChainEnv \<Rightarrow> Resolver \<Rightarrow> ('lib, 's, 'd) Validator \<Rightarrow> BundleId \<Rightarrow> Txid
     \<Rightarrow> ('ty ValidationError, ('lib, 's, 'd) Validator \<times> Tx \<times> WitnessOrd) result" where
  "validator_resolve_witness E R V bid witness_id =
     (case checked_resolve_witness (ce_txid E) R witness_id of
        Inl err \<Rightarrow> Err (ResolverError err)
      | Inr (Resolved tx ord) \<Rightarrow>
          if ord \<noteq> Archived
          then Ok (V\<lparr> v_status := (v_status V)\<lparr> tx_ord_map := omap_insert (ce_txid E tx) ord (tx_ord_map (v_status V)) \<rparr> \<rparr>,
                   tx, ord)
          else Err (InvalidHistory (SealNoPubWitness bid witness_id))
      | Inr Unresolved \<Rightarrow> Err (InvalidHistory (SealNoPubWitness bid witness_id)))"

definition validate_seal_closing ::
  "'d ChainEnv \<Rightarrow> ContractId \<Rightarrow> GenesisSeal list \<Rightarrow> BundleId \<Rightarrow> DbcProof SealWitness \<Rightarrow> MerkleProof
     \<Rightarrow> ('ty ValidationError, unit) presult" where
  "validate_seal_closing E contract_id seals bid w mpf =
     (case anchor_convolve (ce_node_hash E) (ce_leaf_hash E) (ce_conceal_hash E) (anchor_new mpf (sw_proof w))
             contract_id bid of
        None \<Rightarrow> None
      | Some (Inl err) \<Rightarrow> PErr (InvalidHistory (MpcInvalid bid (sw_txid w) err))
      | Some (Inr commitment) \<Rightarrow>
          (case dbc_output_matches_method (ce_btc E) (tx_output (sw_tx w)) (dbc_method (sw_proof w)) of
             None \<Rightarrow> PErr (InvalidHistory (NoDbcOutput (sw_txid w)))
           | Some False \<Rightarrow> PErr (InvalidHistory (InvalidProofType (sw_txid w) (dbc_method (sw_proof w))))
           | Some True \<Rightarrow>
               Some (map_err (\<lambda>err. InvalidHistory (SealsInvalid bid (sw_txid w) (ce_seal_error E err)))
                 (verify_many_seals (dbc_verify (ce_btc E)) w (map (bs_outpoint txid_map_to_outpoint) seals)
                    commitment))))"

text \<open>The ordered set of seals: by transaction, output and blinding.\<close>

definition seal_less :: "GenesisSeal \<Rightarrow> GenesisSeal \<Rightarrow> bool" where
  "seal_less a b \<longleftrightarrow>
     bs_txid a < bs_txid b \<or> bs_txid a = bs_txid b \<and> (bs_vout a < bs_vout b
       \<or> bs_vout a = bs_vout b \<and> blinding a < blinding b)"

fun seals_push :: "GenesisSeal \<Rightarrow> GenesisSeal list \<Rightarrow> GenesisSeal list" where
  "seals_push x [] = [x]"
| "seals_push x (y # ys) =
     (if seal_less x y then x # y # ys else if x = y then y # ys else y # seals_push x ys)"

text \<open>The loop over the inputs of a transition.\<close>

record InputScan =
  is_assigns :: "(Opout, RevealedAssign) omap"
  is_spent :: "Opout set"
  is_states :: PrevState
  is_seals :: "GenesisSeal list"

definition scan_input ::
  "BundleId \<Rightarrow> TransitionBundle \<Rightarrow> OpId \<Rightarrow> InputScan \<Rightarrow> Opout \<Rightarrow> ('ty ValidationError, InputScan) result" where
  "scan_input bid bundle opid sc inp =
     (if omap_get (input_map bundle) inp \<noteq> Some opid
      then Err (InvalidHistory (InputMapTransitionMismatch bid opid inp))
      else
        (case Option.bind (omap_get (is_assigns sc) inp) as_revealed of
           None \<Rightarrow> Err (InvalidHistory (NoPrevState opid inp))
         | Some (seal, st) \<Rightarrow>
             if inp \<in> is_spent sc then Err (InvalidHistory (CyclicGraph inp))
             else Ok
               \<lparr> is_assigns = omap_remove inp (is_assigns sc),
                 is_spent = insert inp (is_spent sc),
                 is_states = omap_insert (opout_ty inp)
                   ((case omap_get (is_states sc) (opout_ty inp) of None \<Rightarrow> [] | Some ss \<Rightarrow> ss) @ [st]) (is_states sc),
                 is_seals = seals_push seal (is_seals sc) \<rparr>))"

definition validate_transition ::
  "('ty, 'lib, 's) VmEnv \<Rightarrow> 'd ChainEnv \<Rightarrow> ('ty, 'lib) Consignment \<Rightarrow> ('lib, 's, 'd) Validator \<Rightarrow> KnownTransition
     \<Rightarrow> TransitionBundle \<Rightarrow> Tx \<Rightarrow> WitnessOrd \<Rightarrow> EAnchor \<Rightarrow> ('ty ValidationError, ('lib, 's, 'd) Validator) presult" where
  "validate_transition v E cons V kt bundle tx ord anchor =
     p_then (expect (transition_id (ce_enc E) (kt_transition kt))) (\<lambda>tid.
     if kt_opid kt \<noteq> tid then PErr (InvalidHistory (TransitionIdMismatch (kt_opid kt) tid))
     else if t_contract_id (kt_transition kt) \<noteq> v_contract_id V
     then PErr (InvalidHistory (ContractMismatch (kt_opid kt) (t_contract_id (kt_transition kt))))
     else
       (let bid = bundle_id (ce_enc E) bundle in
        p_then
          (Some (try_fold (scan_input bid bundle (kt_opid kt))
             \<lparr> is_assigns = opout_assigns V, is_spent = input_opouts V, is_states = [], is_seals = [] \<rparr>
             (t_inputs (kt_transition kt)))) (\<lambda>sc.
        let w = witness_with (ce_txid E) tx (dbc_proof anchor) in
        p_then (validate_seal_closing E (v_contract_id V) (is_seals sc) bid w (mpc_proof anchor)) (\<lambda>_.
        p_then
          (validate_state (ce_enc E) v (c_schema cons) (c_types cons) (v_scripts V) (c_genesis cons)
             (OrdTransition (kt_transition kt) (sw_txid w) ord bid) (v_contract_state V) (is_states sc)) (\<lambda>st.
          POk (V\<lparr> opout_assigns := is_assigns sc, input_opouts := is_spent sc, v_contract_state := st \<rparr>))))))"

definition unsafe_entry :: "u32 option \<Rightarrow> WitnessOrd \<Rightarrow> Txid \<Rightarrow> UnsafeHistoryMap \<Rightarrow> UnsafeHistoryMap" where
  "unsafe_entry safe ord witness_id m =
     (let add = (\<lambda>h. omap_insert h (insert witness_id (case omap_get m h of None \<Rightarrow> {} | Some ws \<Rightarrow> ws)) m) in
      case safe of
        None \<Rightarrow> m
      | Some safe_height \<Rightarrow>
          (case ord of
             Mined pos \<Rightarrow> if wp_height pos > safe_height then add (wp_height pos) else m
           | _ \<Rightarrow> add 0))"

definition validate_known ::
  "('ty, 'lib, 's) VmEnv \<Rightarrow> 'd ChainEnv \<Rightarrow> ('ty, 'lib) Consignment \<Rightarrow> TransitionBundle \<Rightarrow> EAnchor \<Rightarrow> Txid \<Rightarrow> Tx
     \<Rightarrow> WitnessOrd \<Rightarrow> ('lib, 's, 'd) Validator \<Rightarrow> KnownTransition
     \<Rightarrow> ('ty ValidationError, ('lib, 's, 'd) Validator) presult" where
  "validate_known v E cons bundle anchor witness_id tx ord V kt =
     p_then (validate_transition v E cons V kt bundle tx ord anchor) (\<lambda>V1.
       let V2 = process_assignments (ce_dag E) graph_with_witness_id V1 (kt_opid kt) (Some witness_id)
                  (t_assignments (kt_transition kt)) in
       POk (V2\<lparr> opouts_dag_info :=
                  map_option (\<lambda>i. connect_transition (ce_dag E) i (kt_transition kt) (kt_opid kt)) (opouts_dag_info V2) \<rparr>))"

definition validate_bundle ::
  "('ty, 'lib, 's) VmEnv \<Rightarrow> 'd ChainEnv \<Rightarrow> ('ty, 'lib) Consignment \<Rightarrow> Resolver
     \<Rightarrow> ('lib, 's, 'd) Validator \<times> UnsafeHistoryMap \<Rightarrow> TransitionBundle \<times> EAnchor \<times> Txid
     \<Rightarrow> ('ty ValidationError, ('lib, 's, 'd) Validator \<times> UnsafeHistoryMap) presult" where
  "validate_bundle v E cons R = (\<lambda>(V, unsafe) (bundle, anchor, witness_id).
     p_then (Some (validator_resolve_witness E R V (bundle_id (ce_enc E) bundle) witness_id)) (\<lambda>(V1, tx, ord).
     p_then
       (p_fold (validate_known v E cons bundle anchor witness_id tx ord) V1 (known_transitions bundle))
       (\<lambda>V2. POk (V2, unsafe_entry (v_safe_height V1) ord witness_id unsafe))))"

definition validate_bundles ::
  "('ty, 'lib, 's) VmEnv \<Rightarrow> 'd ChainEnv \<Rightarrow> ('ty, 'lib) Consignment \<Rightarrow> Resolver \<Rightarrow> ('lib, 's, 'd) Validator
     \<Rightarrow> ('ty ValidationError, ('lib, 's, 'd) Validator) presult" where
  "validate_bundles v E cons R V =
     p_then (p_fold (validate_bundle v E cons R) (V, []) (bundles_info cons)) (\<lambda>(V1, unsafe).
       let V2 = (if v_safe_height V1 \<noteq> None \<and> unsafe \<noteq> []
                 then V1\<lparr> v_status := add_warning (v_status V1) (UnsafeHistory unsafe) \<rparr> else V1) in
       POk (case opouts_dag_info V2 of
              None \<Rightarrow> V2
            | Some i \<Rightarrow> V2\<lparr> v_status := (v_status V2)\<lparr> dag_data_opt := Some (to_opouts_dag_data i) \<rparr> \<rparr>))"

text \<open>
  \<open>validate\<close> returns the status; \<open>validate_run\<close> is the same run with the final state, which the
  statements about the run speak about.
\<close>

definition validate_run ::
  "('ty, 'lib, 's) VmEnv \<Rightarrow> 'd ChainEnv \<Rightarrow> ('ty, 'lib) Consignment \<Rightarrow> Resolver \<Rightarrow> 's \<Rightarrow> 'ty ValidationConfig
     \<Rightarrow> ('ty ValidationError, ('lib, 's, 'd) Validator) presult" where
  "validate_run v E cons R st cfg =
     p_then (validator_init v E cons st cfg) (\<lambda>V.
     if v_chain_net V \<noteq> vcfg_chain_net cfg
     then PErr (InvalidConsignment (ContractChainNetMismatch (vcfg_chain_net cfg)))
     else
       p_then (Some (map_err ResolverError (rw_check_chain_net R (vcfg_chain_net cfg)))) (\<lambda>_.
       p_then (Some (validate_schema cons cfg)) (\<lambda>_.
       p_then (validate_genesis v E cons V) (\<lambda>V1. validate_bundles v E cons R V1))))"

definition validate ::
  "('ty, 'lib, 's) VmEnv \<Rightarrow> 'd ChainEnv \<Rightarrow> ('ty, 'lib) Consignment \<Rightarrow> Resolver \<Rightarrow> 's \<Rightarrow> 'ty ValidationConfig
     \<Rightarrow> ('ty ValidationError, 'd OpoutsDagData Status) presult" where
  "validate v E cons R st cfg =
     p_then (validate_run v E cons R st cfg) (\<lambda>V. POk (v_status V))"

end
