(* ===== verification/Validator_History.thy ===== *)
theory Validator_History
  imports Validator Dbc_Binding
begin

text \<open>
  What a successful validation run has checked.  The locale \<open>run_invariant\<close> carries an
  invariant over the steps of a run, one step per known transition of a bundle, in the order
  of the consignment.  It is interpreted on \<open>history_inv\<close>: every input is spent once, every
  spendable output was assigned by the genesis or an earlier transition, and every transition
  is bound to a resolved witness transaction that closes the seals of its inputs.
\<close>

section \<open>Steps of a run\<close>

type_synonym HistoryStep = "TransitionBundle \<times> EAnchor \<times> Txid \<times> KnownTransition"

definition bundle_steps :: "TransitionBundle \<times> EAnchor \<times> Txid \<Rightarrow> HistoryStep list" where
  "bundle_steps = (\<lambda>(b, an, w). map (\<lambda>kt. (b, an, w, kt)) (known_transitions b))"

definition history :: "('ty, 'lib) Consignment \<Rightarrow> HistoryStep list" where
  "history cons = concat (map bundle_steps (bundles_info cons))"

definition step_inputs :: "HistoryStep \<Rightarrow> Opout list" where
  "step_inputs = (\<lambda>(b, an, w, kt). t_inputs (kt_transition kt))"

definition spent :: "HistoryStep list \<Rightarrow> Opout list" where
  "spent h = concat (map step_inputs h)"

lemma spent_simps [simp]: "spent [] = []" "spent (h @ [x]) = spent h @ step_inputs x"
  by (simp_all add: spent_def)

lemma concat_singleton: "concat (map (\<lambda>x. [f x]) xs) = map f xs"
  by (induction xs) auto

locale run_invariant =
  fixes I :: "('ty, 'lib, 's) VmEnv \<Rightarrow> 'd ChainEnv \<Rightarrow> ('ty, 'lib) Consignment \<Rightarrow> Resolver \<Rightarrow> HistoryStep list
      \<Rightarrow> ('lib, 's, 'd) Validator \<Rightarrow> bool"
  assumes status: "I v E cons R h V \<Longrightarrow> I v E cons R h (V\<lparr> v_status := st \<rparr>)"
    and start: "validator_init v E cons s cfg = POk V \<Longrightarrow> validate_genesis v E cons V = POk V' \<Longrightarrow> I v E cons R [] V'"
    and step: "I v E cons R h V \<Longrightarrow> (b, an, w) \<in> set (bundles_info cons) \<Longrightarrow> kt \<in> set (known_transitions b)
      \<Longrightarrow> checked_resolve_witness (ce_txid E) R w = Ok (Resolved tx ord)
      \<Longrightarrow> ord \<noteq> Archived \<Longrightarrow> validate_known v E cons b an w tx ord V kt = POk V'
      \<Longrightarrow> I v E cons R (h @ [(b, an, w, kt)]) V'"
begin

lemma one_bundle:
  assumes "I v E cons R h V" "validate_bundle v E cons R (V, u) x = POk (V', u')" "x \<in> set (bundles_info cons)"
  shows "I v E cons R (h @ bundle_steps x) V'"
proof -
  obtain b an w where x: "x = (b, an, w)" by (cases x)
  obtain V1 tx ord where r: "validator_resolve_witness E R V (bundle_id (ce_enc E) b) w
      = (Ok (V1, tx, ord) :: ('ty ValidationError, _) result)"
    and f: "p_fold (validate_known v E cons b an w tx ord) V1 (known_transitions b) = POk V'"
    using assms(2) by (auto simp: validate_bundle_def x res_simps)
  have w: "checked_resolve_witness (ce_txid E) R w = Ok (Resolved tx ord)" "ord \<noteq> Archived"
    and "I v E cons R h V1"
    using r assms(1) status
    by (auto simp: validator_resolve_witness_def split: sum.splits WitnessStatus.splits if_splits)
  have "I v E cons R (h @ concat (map (\<lambda>kt. [(b, an, w, kt)]) (known_transitions b))) V'"
    using f \<open>I v E cons R h V1\<close> by (rule p_fold_trace) (rule step [OF _ assms(3) [unfolded x] _ w])
  then show ?thesis by (simp add: x bundle_steps_def concat_singleton)
qed

lemma all_bundles:
  assumes "I v E cons R [] V" "validate_bundles v E cons R V = POk V'"
  shows "I v E cons R (history cons) V'"
proof -
  obtain V1 u where f: "p_fold (validate_bundle v E cons R) (V, []) (bundles_info cons) = POk (V1, u)"
    and V': "\<exists>st st'. V' = V1 \<or> V' = V1\<lparr> v_status := st \<rparr> \<or> V' = V1\<lparr> v_status := st, v_status := st' \<rparr>"
    using assms(2) by (auto simp: validate_bundles_def res_simps Let_def split: option.splits if_splits)
  have "(\<lambda>h (V, u). I v E cons R h V) ([] @ concat (map bundle_steps (bundles_info cons))) (V1, u)"
    using f by (rule p_fold_trace) (use assms(1) one_bundle in auto)
  then have "I v E cons R (history cons) V1" by (simp add: history_def)
  then show ?thesis using V' status by fastforce
qed

lemma run:
  assumes "validate_run v E cons R s cfg = POk V"
  shows "I v E cons R (history cons) V"
proof -
  obtain V0 V1 where "validator_init v E cons s cfg = POk V0" "validate_genesis v E cons V0 = POk V1"
    "validate_bundles v E cons R V1 = POk V"
    using assms by (auto simp: validate_run_def res_simps split: if_splits)
  then show ?thesis using start all_bundles by blast
qed

end

section \<open>Scanning the inputs of a transition\<close>

lemma set_seals_push [simp]: "set (seals_push x ys) = insert x (set ys)"
  by (induction x ys rule: seals_push.induct) auto

definition revealed_in :: "(Opout, RevealedAssign) omap \<Rightarrow> Opout \<Rightarrow> GenesisSeal \<Rightarrow> RevealedState \<Rightarrow> bool" where
  "revealed_in m o' seal st \<longleftrightarrow> (\<exists>a. omap_get m o' = Some a \<and> as_revealed a = Some (seal, st))"

lemma scan_input_Ok:
  "scan_input bid b opid sc inp = Ok sc' \<longleftrightarrow>
     omap_get (input_map b) inp = Some opid \<and> inp \<notin> is_spent sc
     \<and> (\<exists>seal st. revealed_in (is_assigns sc) inp seal st
         \<and> sc' = \<lparr> is_assigns = omap_remove inp (is_assigns sc), is_spent = insert inp (is_spent sc),
                   is_states = omap_insert (opout_ty inp)
                     ((case omap_get (is_states sc) (opout_ty inp) of None \<Rightarrow> [] | Some ss \<Rightarrow> ss) @ [st]) (is_states sc),
                   is_seals = seals_push seal (is_seals sc) \<rparr>)"
  unfolding scan_input_def revealed_in_def
  by (auto simp: bind_eq_Some_conv split: option.splits if_splits)

definition scan_ok :: "TransitionBundle \<Rightarrow> OpId \<Rightarrow> Opout list \<Rightarrow> InputScan \<Rightarrow> InputScan \<Rightarrow> bool" where
  "scan_ok b opid ins sc sc' \<longleftrightarrow>
     is_spent sc' = is_spent sc \<union> set ins \<and> distinct ins \<and> set ins \<inter> is_spent sc = {}
     \<and> omap_get (is_assigns sc') = (omap_get (is_assigns sc)) |` (- set ins)
     \<and> set (is_seals sc) \<subseteq> set (is_seals sc')
     \<and> (\<forall>inp \<in> set ins. omap_get (input_map b) inp = Some opid
          \<and> (\<exists>seal st. revealed_in (is_assigns sc) inp seal st \<and> seal \<in> set (is_seals sc')))
     \<and> (omap_ok (is_assigns sc) \<longrightarrow> omap_ok (is_assigns sc'))"

lemma restrict_remove: "omap_get (omap_remove x m) |` (- A) = omap_get m |` (- insert x A)"
  by (auto simp: restrict_map_def fun_eq_iff)

lemma revealed_in_remove: "revealed_in (omap_remove x m) o' seal st \<longleftrightarrow> o' \<noteq> x \<and> revealed_in m o' seal st"
  by (auto simp: revealed_in_def)

lemma scan_inputs:
  "try_fold (scan_input bid b opid) sc ins = (Ok sc' :: ('ty ValidationError, _) result) \<Longrightarrow> scan_ok b opid ins sc sc'"
proof (induction ins arbitrary: sc)
  case Nil
  then show ?case by (simp add: scan_ok_def restrict_map_def)
next
  case (Cons inp ins)
  obtain sc1 where 0: "scan_input bid b opid sc inp = (Ok sc1 :: ('ty ValidationError, _) result)"
    "try_fold (scan_input bid b opid) sc1 ins = (Ok sc' :: ('ty ValidationError, _) result)" using Cons.prems by (auto simp: res_simps)
  note 1 = 0(1) Cons.IH [OF 0(2)]
  obtain seal st where s: "omap_get (input_map b) inp = Some opid" "inp \<notin> is_spent sc"
    "revealed_in (is_assigns sc) inp seal st" "is_assigns sc1 = omap_remove inp (is_assigns sc)"
    "is_spent sc1 = insert inp (is_spent sc)" "is_seals sc1 = seals_push seal (is_seals sc)"
    using 1(1) by (auto simp: scan_input_Ok)
  have "omap_get (is_assigns sc') = omap_get (is_assigns sc) |` (- set (inp # ins))"
    using 1(2) s(4) restrict_remove [of inp "is_assigns sc" "set ins"] by (simp add: scan_ok_def)
  then show ?case
    using 1(2) s unfolding scan_ok_def by (auto simp: revealed_in_remove)
qed

section \<open>Outputs of processed operations\<close>

lemma assign_revealed_get:
  assumes "omap_ok m"
  shows "omap_ok (assign_revealed ww opid w m (ty, ta))"
    and "omap_get (assign_revealed ww opid w m (ty, ta)) o' = Some a \<Longrightarrow>
      omap_get m o' = Some a \<or> opout_op o' = opid \<and> opout_ty o' = ty \<and> to_revealed_assign_at ww ta (opout_no o') w = Ok a"
proof -
  let ?f = "\<lambda>m n. case to_revealed_assign_at ww ta (word_of_nat n) w of
      Inr a \<Rightarrow> omap_insert (Opout opid ty (word_of_nat n)) a m | Inl _ \<Rightarrow> m"
  have "omap_ok (foldl ?f m ns) \<and> (omap_get (foldl ?f m ns) o' = Some a \<longrightarrow>
      omap_get m o' = Some a \<or> opout_op o' = opid \<and> opout_ty o' = ty \<and> to_revealed_assign_at ww ta (opout_no o') w = Ok a)"
    for ns
    using assms
  proof (induction ns arbitrary: m)
    case (Cons n ns)
    show ?case
    proof (cases "to_revealed_assign_at ww ta (word_of_nat n) w")
      case (Inl e)
      then show ?thesis using Cons.IH [OF Cons.prems] by simp
    next
      case (Inr b)
      then show ?thesis
        using Cons.IH [of "omap_insert (Opout opid ty (word_of_nat n)) b m"] Cons.prems by (auto split: if_splits)
    qed
  qed simp
  from this [of "[0..<unat (ta_len_u16 ta)]"]
  show "omap_ok (assign_revealed ww opid w m (ty, ta))"
    and "omap_get (assign_revealed ww opid w m (ty, ta)) o' = Some a \<Longrightarrow>
      omap_get m o' = Some a \<or> opout_op o' = opid \<and> opout_ty o' = ty \<and> to_revealed_assign_at ww ta (opout_no o') w = Ok a"
    by (simp_all add: assign_revealed_def)
qed

lemma assigns_revealed_get:
  assumes "omap_ok m"
  shows "omap_ok (foldl (assign_revealed ww opid w) m as)
    \<and> (omap_get (foldl (assign_revealed ww opid w) m as) o' = Some a \<longrightarrow>
         omap_get m o' = Some a
         \<or> opout_op o' = opid \<and> (\<exists>ta. (opout_ty o', ta) \<in> set as \<and> to_revealed_assign_at ww ta (opout_no o') w = Ok a))"
  using assms
proof (induction as arbitrary: m)
  case (Cons x as)
  obtain ty ta where x: "x = (ty, ta)" by (cases x)
  show ?case
    using Cons.IH [of "assign_revealed ww opid w m x"] assign_revealed_get [OF Cons.prems, of ww opid w ty ta]
    by (auto simp: x)
qed simp

text \<open>An output was assigned by the genesis or by a step of the history.\<close>

definition assigned_by :: "'d ChainEnv \<Rightarrow> ('ty, 'lib) Consignment \<Rightarrow> HistoryStep list \<Rightarrow> Opout \<Rightarrow> RevealedAssign \<Rightarrow> bool"
where
  "assigned_by E cons h o' a \<longleftrightarrow>
     genesis_id (ce_enc E) (c_genesis cons) = Some (opout_op o')
       \<and> (\<exists>ta. (opout_ty o', ta) \<in> set (g_assignments (c_genesis cons))
             \<and> to_revealed_assign_at genesis_with_witness_id ta (opout_no o') None = Ok a)
     \<or> (\<exists>(b, an, w, kt) \<in> set h. kt_opid kt = opout_op o'
          \<and> (\<exists>ta. (opout_ty o', ta) \<in> set (t_assignments (kt_transition kt))
                \<and> to_revealed_assign_at graph_with_witness_id ta (opout_no o') (Some w) = Ok a))"

lemma assigned_by_mono: "assigned_by E cons h o' a \<Longrightarrow> set h \<subseteq> set h' \<Longrightarrow> assigned_by E cons h' o' a"
  unfolding assigned_by_def by blast

section \<open>The invariant of a run\<close>

definition step_closed ::
  "'d ChainEnv \<Rightarrow> ('ty, 'lib) Consignment \<Rightarrow> Resolver \<Rightarrow> HistoryStep list \<Rightarrow> HistoryStep \<Rightarrow> bool" where
  "step_closed E cons R h = (\<lambda>(b, an, w, kt).
     \<exists>tx ord cid c.
       checked_resolve_witness (ce_txid E) R w = Ok (Resolved tx ord) \<and> ord \<noteq> Archived
       \<and> genesis_id (ce_enc E) (c_genesis cons) = Some cid \<and> t_contract_id (kt_transition kt) = cid
       \<and> transition_id (ce_enc E) (kt_transition kt) = Some (kt_opid kt)
       \<and> anchor_verify (ce_node_hash E) (ce_leaf_hash E) (ce_conceal_hash E) (dbc_verify (ce_btc E)) an cid
           (bundle_id (ce_enc E) b) tx = Some (Ok c)
       \<and> (\<forall>inp \<in> set (t_inputs (kt_transition kt)).
            omap_get (input_map b) inp = Some (kt_opid kt)
            \<and> (\<exists>a seal st. assigned_by E cons h inp a \<and> as_revealed a = Some (seal, st)
                 \<and> to_outpoint seal \<in> previous_output ` set (tx_input tx))))"

definition history_inv ::
  "('ty, 'lib, 's) VmEnv \<Rightarrow> 'd ChainEnv \<Rightarrow> ('ty, 'lib) Consignment \<Rightarrow> Resolver \<Rightarrow> HistoryStep list
     \<Rightarrow> ('lib, 's, 'd) Validator \<Rightarrow> bool" where
  "history_inv v E cons R h V \<longleftrightarrow>
     genesis_id (ce_enc E) (c_genesis cons) = Some (v_contract_id V)
     \<and> input_opouts V = set (spent h) \<and> distinct (spent h)
     \<and> omap_ok (opout_assigns V)
     \<and> (\<forall>o' a. omap_get (opout_assigns V) o' = Some a \<longrightarrow> assigned_by E cons h o' a)
     \<and> (\<forall>i < length h. step_closed E cons R (take i h) (h ! i))"

lemma process_assignments_fields [simp]:
  "v_contract_id (process_assignments L ww V opid w as) = v_contract_id V"
  "input_opouts (process_assignments L ww V opid w as) = input_opouts V"
  "v_safe_height (process_assignments L ww V opid w as) = v_safe_height V"
  "v_status (process_assignments L ww V opid w as) = v_status V"
  "opout_assigns (process_assignments L ww V opid w as) = foldl (assign_revealed ww opid w) (opout_assigns V) as"
  by (simp_all add: process_assignments_def)

lemma seal_closing_Ok:
  "validate_seal_closing E cid seals bid w mpf = POk () \<longleftrightarrow>
     (\<exists>c. convolve (ce_node_hash E) (ce_leaf_hash E) (ce_conceal_hash E) mpf cid bid = Some (Ok c)
        \<and> dbc_output_matches_method (ce_btc E) (tx_output (sw_tx w)) (dbc_method (sw_proof w)) = Some True
        \<and> dbc_verify (ce_btc E) (sw_proof w) c (sw_tx w) = Ok ()
        \<and> (\<forall>s \<in> set seals. to_outpoint s \<in> previous_output ` set (tx_input (sw_tx w))))"
  unfolding validate_seal_closing_def anchor_convolve_def anchor_new_def
  by (auto simp: verify_many_seals_Ok map_err_Inr bs_outpoint_def txid_map_to_outpoint_def to_outpoint_def
      split: option.splits sum.splits bool.splits)

lemma validate_transition_Ok:
  fixes v :: "('ty, 'lib, 's) VmEnv"
  assumes "validate_transition v E cons V kt b tx ord an = POk V'"
  obtains sc c st where "transition_id (ce_enc E) (kt_transition kt) = Some (kt_opid kt)"
    "t_contract_id (kt_transition kt) = v_contract_id V"
    "try_fold (scan_input (bundle_id (ce_enc E) b) b (kt_opid kt))
       \<lparr> is_assigns = opout_assigns V, is_spent = input_opouts V, is_states = [], is_seals = [] \<rparr>
       (t_inputs (kt_transition kt)) = (Ok sc :: ('ty ValidationError, InputScan) result)"
    "convolve (ce_node_hash E) (ce_leaf_hash E) (ce_conceal_hash E) (mpc_proof an) (v_contract_id V)
       (bundle_id (ce_enc E) b) = Some (Ok c)"
    "dbc_verify (ce_btc E) (dbc_proof an) c tx = Ok ()"
    "\<forall>s \<in> set (is_seals sc). to_outpoint s \<in> previous_output ` set (tx_input tx)"
    "validate_state (ce_enc E) v (c_schema cons) (c_types cons) (v_scripts V) (c_genesis cons)
       (OrdTransition (kt_transition kt) (ce_txid E tx) ord (bundle_id (ce_enc E) b)) (v_contract_state V) (is_states sc)
         = POk st"
    "V' = V\<lparr> opout_assigns := is_assigns sc, input_opouts := is_spent sc, v_contract_state := st \<rparr>"
proof -
  let ?bid = "bundle_id (ce_enc E) b" and ?w = "witness_with (ce_txid E) tx (dbc_proof an)"
  have w: "sw_tx ?w = tx" "sw_txid ?w = ce_txid E tx" "sw_proof ?w = dbc_proof an"
    by (simp_all add: witness_with_def)
  obtain sc st where f: "transition_id (ce_enc E) (kt_transition kt) = Some (kt_opid kt)"
    "t_contract_id (kt_transition kt) = v_contract_id V"
    "try_fold (scan_input ?bid b (kt_opid kt))
       \<lparr> is_assigns = opout_assigns V, is_spent = input_opouts V, is_states = [], is_seals = [] \<rparr>
       (t_inputs (kt_transition kt)) = (Ok sc :: ('ty ValidationError, InputScan) result)"
    "validate_seal_closing E (v_contract_id V) (is_seals sc) ?bid ?w (mpc_proof an)
       = (POk () :: ('ty ValidationError, unit) presult)"
    "validate_state (ce_enc E) v (c_schema cons) (c_types cons) (v_scripts V) (c_genesis cons)
       (OrdTransition (kt_transition kt) (sw_txid ?w) ord ?bid) (v_contract_state V) (is_states sc) = POk st"
    "V\<lparr> opout_assigns := is_assigns sc, input_opouts := is_spent sc, v_contract_state := st \<rparr> = V'"
    using assms by (simp add: validate_transition_def Let_def res_simps split: if_split_asm) blast
  obtain c where "convolve (ce_node_hash E) (ce_leaf_hash E) (ce_conceal_hash E) (mpc_proof an) (v_contract_id V) ?bid
      = Some (Ok c)" "dbc_verify (ce_btc E) (dbc_proof an) c tx = Ok ()"
    "\<forall>s \<in> set (is_seals sc). to_outpoint s \<in> previous_output ` set (tx_input tx)"
    using f(4) unfolding seal_closing_Ok w by blast
  then show ?thesis by (rule that [OF f(1-3) _ _ _ f(5) [unfolded w] f(6) [symmetric]])
qed

lemma history_inv_step:
  fixes v :: "('ty, 'lib, 's) VmEnv"
  assumes I: "history_inv v E cons R h V" and r: "checked_resolve_witness (ce_txid E) R w = Ok (Resolved tx ord)"
    and "ord \<noteq> Archived" and k: "validate_known v E cons b an w tx ord V kt = POk V'"
  shows "history_inv v E cons R (h @ [(b, an, w, kt)]) V'"
proof -
  let ?t = "kt_transition kt" and ?h = "h @ [(b, an, w, kt)]"
  obtain V1 where V1: "validate_transition v E cons V kt b tx ord an = POk V1"
    and V': "v_contract_id V' = v_contract_id V1" "input_opouts V' = input_opouts V1"
      "opout_assigns V' = foldl (assign_revealed graph_with_witness_id (kt_opid kt) (Some w)) (opout_assigns V1) (t_assignments ?t)"
    using k by (auto simp: validate_known_def Let_def res_simps)
  obtain sc c st where t: "transition_id (ce_enc E) ?t = Some (kt_opid kt)" "t_contract_id ?t = v_contract_id V"
    and sc: "try_fold (scan_input (bundle_id (ce_enc E) b) b (kt_opid kt))
       \<lparr> is_assigns = opout_assigns V, is_spent = input_opouts V, is_states = [], is_seals = [] \<rparr> (t_inputs ?t)
         = (Ok sc :: ('ty ValidationError, InputScan) result)"
    and c: "convolve (ce_node_hash E) (ce_leaf_hash E) (ce_conceal_hash E) (mpc_proof an) (v_contract_id V)
       (bundle_id (ce_enc E) b) = Some (Ok c)" "dbc_verify (ce_btc E) (dbc_proof an) c tx = Ok ()"
    and seals: "\<forall>s \<in> set (is_seals sc). to_outpoint s \<in> previous_output ` set (tx_input tx)"
    and "V1 = V\<lparr> opout_assigns := is_assigns sc, input_opouts := is_spent sc, v_contract_state := st \<rparr>"
    using V1 by (rule validate_transition_Ok)
  then have V1': "v_contract_id V1 = v_contract_id V" "input_opouts V1 = is_spent sc" "opout_assigns V1 = is_assigns sc"
    by simp_all
  note sok = scan_inputs [OF sc, unfolded scan_ok_def, simplified]
  have gid: "genesis_id (ce_enc E) (c_genesis cons) = Some (v_contract_id V)"
    and own: "\<And>o' a. omap_get (opout_assigns V) o' = Some a \<Longrightarrow> assigned_by E cons h o' a"
    and old: "input_opouts V = set (spent h)" "distinct (spent h)" "omap_ok (opout_assigns V)"
      "\<forall>i < length h. step_closed E cons R (take i h) (h ! i)"
    using I by (auto simp: history_inv_def)
  have ins: "\<forall>inp \<in> set (t_inputs ?t). omap_get (input_map b) inp = Some (kt_opid kt)
      \<and> (\<exists>a seal st. assigned_by E cons h inp a \<and> as_revealed a = Some (seal, st)
           \<and> to_outpoint seal \<in> previous_output ` set (tx_input tx))"
    using sok own seals unfolding revealed_in_def by meson
  have "step_closed E cons R h (b, an, w, kt)"
    unfolding step_closed_def prod.case anchor_verify_Ok
    by (rule exI [of _ tx], rule exI [of _ ord], rule exI [of _ "v_contract_id V"], rule exI [of _ c])
       (use r assms(3) gid t c ins in simp)
  then have "\<forall>i < length ?h. step_closed E cons R (take i ?h) (?h ! i)"
    using old(4) by (auto simp: nth_append less_Suc_eq)
  moreover have "distinct (spent ?h)" "input_opouts V' = set (spent ?h)"
    using sok old(1,2) V'(2) V1'(2) by (auto simp: step_inputs_def)
  moreover have "omap_ok (opout_assigns V') \<and> (omap_get (opout_assigns V') o' = Some a \<longrightarrow> assigned_by E cons ?h o' a)"
    for o' a
  proof -
    have ok: "omap_ok (is_assigns sc)" using sok old(3) by blast
    have "assigned_by E cons ?h o' a" if "omap_get (is_assigns sc) o' = Some a"
      using that sok own assigned_by_mono [of E cons h o' a ?h] by (auto simp: restrict_map_def split: if_splits)
    moreover have "assigned_by E cons ?h o' a"
      if "opout_op o' = kt_opid kt" "(opout_ty o', ta) \<in> set (t_assignments ?t)"
        "to_revealed_assign_at graph_with_witness_id ta (opout_no o') (Some w) = Ok a" for ta
      using that unfolding assigned_by_def by auto
    ultimately show ?thesis
      using assigns_revealed_get [OF ok, of graph_with_witness_id "kt_opid kt" "Some w" "t_assignments ?t" o' a]
      unfolding V'(3) V1'(3) by blast
  qed
  ultimately show ?thesis
    using gid V'(1) V1'(1) unfolding history_inv_def by auto
qed

lemma history_inv_start:
  assumes "validator_init v E cons s cfg = POk V" "validate_genesis v E cons V = POk V'"
  shows "history_inv v E cons R [] V'"
proof -
  have g: "genesis_id (ce_enc E) (c_genesis cons) = Some (v_contract_id V)" "input_opouts V = {}" "opout_assigns V = []"
    using assms(1) by (auto simp: validator_init_def res_simps Let_def split: if_splits)
  have V': "v_contract_id V' = v_contract_id V" "input_opouts V' = input_opouts V"
    "opout_assigns V' = foldl (assign_revealed genesis_with_witness_id (v_contract_id V) None) (opout_assigns V)
      (g_assignments (c_genesis cons))"
    using assms(2) g by (auto simp: validate_genesis_def Let_def res_simps split: if_splits)
  have "omap_ok (opout_assigns V') \<and> (omap_get (opout_assigns V') o' = Some a \<longrightarrow> assigned_by E cons [] o' a)" for o' a
    using assigns_revealed_get [of "opout_assigns V" genesis_with_witness_id "v_contract_id V" None
        "g_assignments (c_genesis cons)" o' a] g
    unfolding V'(3) by (auto simp: assigned_by_def)
  then show ?thesis using g V' by (auto simp: history_inv_def)
qed

interpretation hist: run_invariant history_inv
proof
  show "history_inv v E cons R h (V\<lparr> v_status := st \<rparr>)" if "history_inv v E cons R h V" for v E cons R h V st
    using that by (simp add: history_inv_def)
qed (blast intro: history_inv_start history_inv_step)+

end
