(* ===== verification/Validator_Spec.thy ===== *)
theory Validator_Spec
  imports Validator_History Mpc_Inclusion
begin

text \<open>
  Specification of schema validation.  \<open>op_conforms\<close> says declaratively when an operation obeys
  its schema, and \<open>validate_state\<close> decides it.  Within the size bounds of its collections,
  validation of a consignment always returns.
\<close>

section \<open>Conformance to a schema\<close>

definition counts_fit :: "(u16, Occurrences) omap \<Rightarrow> u16 set \<Rightarrow> (u16 \<Rightarrow> u16) \<Rightarrow> bool" where
  "counts_fit sch present count \<longleftrightarrow>
     present \<subseteq> fst ` set sch
     \<and> (\<forall>t occ. omap_get sch t = Some occ \<longrightarrow> min_value occ \<le> count t \<and> count t \<le> max_value occ)"

fun state_fits :: "('ty, 'lib, 's) VmEnv \<Rightarrow> 'ty TypeSystem \<Rightarrow> OwnedStateSchema \<Rightarrow> RevealedState \<Rightarrow> bool" where
  "state_fits v types DeclarativeSchema RVoid = True"
| "state_fits v types (FungibleSchema ft) (RFungible val) = (fungible_type val = ft)"
| "state_fits v types (StructuredSchema sid) (RStructured dat) = deserializes v types sid dat"
| "state_fits v types _ _ = False"

definition metadata_fits :: "('ty, 'lib, 's) VmEnv \<Rightarrow> Schema \<Rightarrow> 'ty TypeSystem \<Rightarrow> MetaSchema \<Rightarrow> Metadata \<Rightarrow> bool" where
  "metadata_fits v s types ms md \<longleftrightarrow>
     fst ` set md = set ms
     \<and> (\<forall>t \<in> set ms. \<exists>val d. omap_get md t = Some val \<and> omap_get (meta_types s) t = Some d
          \<and> deserializes v types (md_sem_id d) val)"

definition globals_fit :: "('ty, 'lib, 's) VmEnv \<Rightarrow> Schema \<Rightarrow> 'ty TypeSystem \<Rightarrow> GlobalSchema \<Rightarrow> GlobalState \<Rightarrow> bool" where
  "globals_fit v s types gsch gl \<longleftrightarrow>
     fst ` set gl \<subseteq> fst ` set gsch
     \<and> (\<forall>(t, occ) \<in> set gsch. let vals = (case omap_get gl t of None \<Rightarrow> [] | Some vs \<Rightarrow> vs) in
          \<exists>d. omap_get (global_types s) t = Some d
            \<and> min_value occ \<le> word_of_nat (length vals) \<and> word_of_nat (length vals) \<le> max_value occ
            \<and> (ucast (word_of_nat (length vals) :: u16) :: u32) \<le> ucast (max_items (global_state_schema d))
            \<and> (\<forall>dat \<in> set vals. deserializes v types (gss_sem_id (global_state_schema d)) dat))"

definition assigns_fit ::
  "('ty, 'lib, 's) VmEnv \<Rightarrow> Schema \<Rightarrow> 'ty TypeSystem \<Rightarrow> AssignmentsSchema \<Rightarrow> 'sl Assignments \<Rightarrow> bool" where
  "assigns_fit v s types asch as \<longleftrightarrow>
     counts_fit asch (fst ` set as) (\<lambda>t. case omap_get as t of None \<Rightarrow> 0 | Some ta \<Rightarrow> ta_len_u16 ta)
     \<and> (\<forall>t \<in> fst ` set asch. \<exists>d. omap_get (owned_types s) t = Some d
          \<and> (\<forall>ta. omap_get as t = Some ta \<longrightarrow> (\<forall>st \<in> set (ta_states ta). state_fits v types (owned_state_schema d) st)))"

fun aref_fit ::
  "('ty, 'lib, 's) VmEnv \<Rightarrow> Schema \<Rightarrow> 'ty TypeSystem \<Rightarrow> AssignmentsSchema \<Rightarrow> AssignmentsRef \<Rightarrow> bool" where
  "aref_fit v s types asch (GenesisRef a) = assigns_fit v s types asch a"
| "aref_fit v s types asch (GraphRef a) = assigns_fit v s types asch a"

definition script_accepts ::
  "('ty, 'lib, 's) VmEnv \<Rightarrow> (LibId, 'lib) omap \<Rightarrow> OpRules \<Rightarrow> OrdOpRef \<Rightarrow> 's VmContext \<Rightarrow> 's \<Rightarrow> bool" where
  "script_accepts v scripts r p ctx st' \<longleftrightarrow>
     (case or_validator r of
        None \<Rightarrow> st' = vc_contract_state ctx
      | Some site \<Rightarrow>
          (\<exists>script code. omap_get scripts (site_lib site) = Some script \<and> lib_id v script = site_lib site
             \<and> exec_script v site (omap_get scripts) (or_ty r) ctx = Some (True, code)
             \<and> evolve_state v (vc_contract_state ctx) p = Some st'))"

definition op_conforms ::
  "('ty, 'lib, 's) VmEnv \<Rightarrow> Schema \<Rightarrow> 'ty TypeSystem \<Rightarrow> OpRules \<Rightarrow> OrdOpRef \<Rightarrow> PrevState \<Rightarrow> bool" where
  "op_conforms v s types r p prev \<longleftrightarrow>
     metadata_fits v s types (or_metadata r) (op_metadata (ord_op p))
     \<and> globals_fit v s types (or_globals r) (op_globals (ord_op p))
     \<and> counts_fit (or_owned r) (fst ` set prev)
         (\<lambda>t. case omap_get prev t of None \<Rightarrow> 0 | Some a \<Rightarrow> word_of_nat (length a))
     \<and> aref_fit v s types (or_assign r) (op_assignments (ord_op p))"

text \<open>A hash set is iterated over in some order: the order has its elements.\<close>

definition hash_iter_ok :: "('ty, 'lib, 's) VmEnv \<Rightarrow> bool" where
  "hash_iter_ok v \<longleftrightarrow> (\<forall>xs. set (hash_iter v xs) = set xs)"

lemma if_PErr [res_simps]: "(if b then PErr e else r) = POk x \<longleftrightarrow> \<not> b \<and> r = POk x"
  by simp

lemma case_PErr [res_simps]:
  "(case y of None \<Rightarrow> PErr e | Some z \<Rightarrow> f z) = POk x \<longleftrightarrow> (\<exists>z. y = Some z \<and> f z = POk x)"
  by (cases y) auto

lemma case_check [res_simps]:
  "(case check occ n of Inl e \<Rightarrow> PErr (f e) | Inr u \<Rightarrow> r u) = POk x
     \<longleftrightarrow> min_value occ \<le> n \<and> n \<le> max_value occ \<and> r () = POk x"
  using check_Ok_iff [of occ n] by (cases "check occ n") auto

lemma map_of_key: "map_of m k = Some x \<Longrightarrow> k \<in> fst ` set m"
  by (force dest: map_of_SomeD)

lemma validate_metadata_Ok:
  "validate_metadata v s opid md ms types = POk () \<longleftrightarrow> metadata_fits v s types ms md"
proof -
  have "validate_metadata v s opid md ms types = POk () \<longleftrightarrow>
      fst ` set md \<subseteq> set ms
      \<and> (\<forall>t \<in> set ms. \<exists>val d. omap_get md t = Some val \<and> omap_get (meta_types s) t = Some d
          \<and> deserializes v types (md_sem_id d) val)"
    by (simp add: validate_metadata_def res_simps omap_keys_def image_subset_iff)
  also have "\<dots> \<longleftrightarrow> metadata_fits v s types ms md"
    unfolding metadata_fits_def using map_of_key [of md] by blast
  finally show ?thesis .
qed

lemma validate_global_state_Ok:
  "validate_global_state v s opid gl gsch types = POk () \<longleftrightarrow> globals_fit v s types gsch gl"
  unfolding validate_global_state_def globals_fit_def
  by (simp add: res_simps omap_keys_def omap_contains_iff Let_def not_less image_subset_iff split_def)

lemma ex_Some_iff: "(\<exists>y. m x = Some y \<and> Q y) \<longleftrightarrow> x \<in> dom m \<and> Q (the (m x))"
  by (cases "m x") auto

lemma all_Some_iff: "(\<forall>x y. m x = Some y \<longrightarrow> Q x y) \<longleftrightarrow> (\<forall>x \<in> dom m. Q x (the (m x)))"
  unfolding dom_def by force

lemma ball_Un_iff: "(\<forall>t \<in> A \<union> B. t \<in> B \<and> q t \<and> P t) \<longleftrightarrow> (A \<subseteq> B \<and> (\<forall>t \<in> B. q t)) \<and> (\<forall>t \<in> B. P t)"
  by blast

lemma counts_fit_all:
  assumes "hash_iter_ok v"
  shows "(\<forall>t \<in> set (hash_iter v (remdups (omap_keys m @ omap_keys sch))).
        \<exists>occ. omap_get sch t = Some occ \<and> min_value occ \<le> count t \<and> count t \<le> max_value occ \<and> P t)
      \<longleftrightarrow> counts_fit sch (fst ` set m) count \<and> (\<forall>t \<in> fst ` set sch. P t)" (is "?l \<longleftrightarrow> ?r")
proof -
  let ?q = "\<lambda>t. min_value (the (omap_get sch t)) \<le> count t \<and> count t \<le> max_value (the (omap_get sch t))"
  note keys = ex_Some_iff [of "omap_get sch", unfolded dom_map_of_conv_image_fst]
  note all = all_Some_iff [of "omap_get sch", unfolded dom_map_of_conv_image_fst]
  have "?l \<longleftrightarrow> (\<forall>t \<in> fst ` set m \<union> fst ` set sch. t \<in> fst ` set sch \<and> ?q t \<and> P t)"
    using assms by (simp only: hash_iter_ok_def omap_keys_def set_remdups set_append set_map keys conj_assoc)
  also have "\<dots> \<longleftrightarrow> ?r" unfolding counts_fit_def all ball_Un_iff ..
  finally show ?thesis .
qed

lemma validate_prev_state_Ok:
  assumes "hash_iter_ok v"
  shows "validate_prev_state v opid prev sch = POk () \<longleftrightarrow>
    counts_fit sch (fst ` set prev) (\<lambda>t. case omap_get prev t of None \<Rightarrow> 0 | Some a \<Rightarrow> word_of_nat (length a))"
  using counts_fit_all [OF assms, of prev sch _ "\<lambda>_. True"]
  by (simp add: validate_prev_state_def res_simps)

lemma oss_validate_Ok: "oss_validate v oss opid t st types = POk () \<longleftrightarrow> state_fits v types oss st"
  by (cases "(v, oss, opid, t, st, types)" rule: oss_validate.cases) auto

lemma validate_new_state_Ok:
  assumes "hash_iter_ok v"
  shows "validate_new_state v s opid as sch types = POk () \<longleftrightarrow> assigns_fit v s types sch as"
proof -
  have "validate_new_state v s opid as sch types = POk () \<longleftrightarrow>
    (\<forall>t \<in> set (hash_iter v (remdups (omap_keys as @ omap_keys sch))).
        \<exists>occ. omap_get sch t = Some occ
          \<and> min_value occ \<le> (case omap_get as t of None \<Rightarrow> 0 | Some ta \<Rightarrow> ta_len_u16 ta)
          \<and> (case omap_get as t of None \<Rightarrow> 0 | Some ta \<Rightarrow> ta_len_u16 ta) \<le> max_value occ
          \<and> (\<exists>d. omap_get (owned_types s) t = Some d
              \<and> (\<forall>ta. omap_get as t = Some ta \<longrightarrow> (\<forall>st \<in> set (ta_states ta). state_fits v types (owned_state_schema d) st))))"
    by (simp add: validate_new_state_def res_simps oss_validate_Ok split: option.split)
  then show ?thesis unfolding counts_fit_all [OF assms] assigns_fit_def .
qed

lemma run_validator_Ok: "run_validator v scripts opid r p ctx = POk st' \<longleftrightarrow> script_accepts v scripts r p ctx st'"
  unfolding run_validator_def script_accepts_def
  by (auto simp: res_simps split: option.splits bool.splits)

lemma validate_state_Ok:
  fixes v :: "('ty, 'lib, 's) VmEnv"
  assumes "hash_iter_ok v"
  shows "validate_state c v s types scripts genesis p st prev = POk st' \<longleftrightarrow>
    (\<exists>opid r cid. operation_id c (ord_op p) = Some opid \<and> op_rules s opid p = (Ok r :: ('ty ValidationError, _) result)
       \<and> op_conforms v s types r p prev \<and> genesis_id c genesis = Some cid
       \<and> script_accepts v scripts r p
           \<lparr> vc_contract_id = cid, vc_op_info = op_info_with opid p prev, vc_contract_state = st \<rparr> st')"
proof -
  have "(case op_assignments (ord_op p) of
          GenesisRef a \<Rightarrow> validate_new_state v s opid a sch types
        | GraphRef a \<Rightarrow> validate_new_state v s opid a sch types) = POk () \<longleftrightarrow>
      aref_fit v s types sch (op_assignments (ord_op p))" for opid sch
    by (cases "op_assignments (ord_op p)") (simp_all add: validate_new_state_Ok [OF assms])
  then show ?thesis
    by (simp add: validate_state_def op_conforms_def res_simps run_validator_Ok validate_metadata_Ok
        validate_global_state_Ok validate_prev_state_Ok [OF assms])
qed

section \<open>Validation returns\<close>

lemma p_fold_total:
  assumes "\<And>x s. x \<in> set xs \<Longrightarrow> f s x \<noteq> None"
  shows "p_fold f s xs \<noteq> None"
  using assms by (induction xs arbitrary: s) (auto simp: res_simps)

lemma p_then_total: "r \<noteq> None \<Longrightarrow> (\<And>x. r = POk x \<Longrightarrow> f x \<noteq> None) \<Longrightarrow> p_then r f \<noteq> None"
  by (cases "(r, f)" rule: p_then.cases) auto

lemma expect_total: "x \<noteq> None \<Longrightarrow> expect x \<noteq> None"
  by (cases x) auto

lemma if_PErr_total: "(\<not> b \<Longrightarrow> r \<noteq> None) \<Longrightarrow> (if b then PErr e else r) \<noteq> None"
  by simp

lemma case_PErr_total: "(\<And>z. y = Some z \<Longrightarrow> f z \<noteq> None) \<Longrightarrow> (case y of None \<Rightarrow> PErr e | Some z \<Rightarrow> f z) \<noteq> None"
  by (cases y) auto

lemma case_check_total: "r () \<noteq> None \<Longrightarrow> (case check occ n of Inl e \<Rightarrow> PErr (f e) | Inr u \<Rightarrow> r u) \<noteq> None"
  by (cases "check occ n") auto

lemmas total_intros = p_then_total p_all_total p_fold_total expect_total if_PErr_total case_PErr_total case_check_total
  option.distinct(2)

text \<open>A verified schema defines every type its operations mention.\<close>

definition rules_known :: "Schema \<Rightarrow> OpRules \<Rightarrow> bool" where
  "rules_known s r \<longleftrightarrow>
     (\<forall>t \<in> set (or_metadata r). omap_get (meta_types s) t \<noteq> None)
     \<and> (\<forall>t \<in> fst ` set (or_globals r). omap_get (global_types s) t \<noteq> None)
     \<and> (\<forall>t \<in> fst ` set (or_assign r). omap_get (owned_types s) t \<noteq> None)"

lemma verify_operation_Ok:
  "verify_operation s ot os = Ok () \<longleftrightarrow>
     (\<forall>t \<in> set (os_metadata os). omap_get (meta_types s) t \<noteq> None) \<and> os_inputs os \<noteq> Some []
     \<and> (\<forall>t \<in> fst ` set (os_globals os). omap_get (global_types s) t \<noteq> None)
     \<and> (\<forall>t \<in> fst ` set (os_assignments os). omap_get (owned_types s) t \<noteq> None)"
  by (cases "os_inputs os")
     (simp_all add: verify_operation_def res_simps omap_contains_def omap_keys_def)

lemma rules_known:
  assumes "schema_verify s types = (Ok () :: ('ty ValidationError, _) result)"
    and "op_rules s opid p = (Ok r :: ('ty ValidationError, _) result)"
  shows "rules_known s r"
proof -
  have g: "verify_operation s GenesisOp (genesis_op_schema (schema_genesis s)) = (Ok () :: ('ty ValidationError, _) result)"
    and t: "\<forall>(t, d) \<in> set (transitions s). verify_operation s (StateTransitionOp t)
      (transition_op_schema (transition_schema d)) = (Ok () :: ('ty ValidationError, _) result)"
    using assms(1) by (auto simp: schema_verify_def res_simps)
  show ?thesis
  proof (cases p)
    case (OrdGenesis x)
    then show ?thesis
      using assms(2) g by (auto simp: rules_known_def verify_operation_Ok genesis_op_schema_def split: if_splits)
  next
    case (OrdTransition tr w ord b)
    then obtain d where "omap_get (transitions s) (t_transition_type tr) = Some d"
      "or_metadata r = ts_metadata (transition_schema d)" "or_globals r = ts_globals (transition_schema d)"
      "or_assign r = ts_assignments (transition_schema d)"
      using assms(2) by (auto split: option.splits)
    moreover from this(1) have "verify_operation s (StateTransitionOp (t_transition_type tr))
        (transition_op_schema (transition_schema d)) = (Ok () :: ('ty ValidationError, _) result)"
      using t map_of_SomeD by fast
    ultimately show ?thesis
      by (simp add: rules_known_def verify_operation_Ok transition_op_schema_def)
  qed
qed

definition scripts_return :: "('ty, 'lib, 's) VmEnv \<Rightarrow> bool" where
  "scripts_return v \<longleftrightarrow> (\<forall>site libs ty ctx. exec_script v site libs ty ctx \<noteq> None)"

lemma oss_validate_total: "oss_validate v oss opid t st types \<noteq> None"
  by (cases "(v, oss, opid, t, st, types)" rule: oss_validate.cases) auto

lemma validate_metadata_total:
  "\<forall>t \<in> set ms. omap_get (meta_types s) t \<noteq> None \<Longrightarrow> validate_metadata v s opid md ms types \<noteq> None"
  unfolding validate_metadata_def by (intro total_intros) blast+

lemma validate_global_state_total:
  "\<forall>t \<in> fst ` set sch. omap_get (global_types s) t \<noteq> None \<Longrightarrow> validate_global_state v s opid gl sch types \<noteq> None"
  unfolding validate_global_state_def Let_def case_prod_unfold by (intro total_intros) blast+

lemma validate_prev_state_total: "validate_prev_state v opid prev sch \<noteq> None"
  unfolding validate_prev_state_def by (intro total_intros)

lemma validate_new_state_total:
  "\<forall>t \<in> fst ` set sch. omap_get (owned_types s) t \<noteq> None \<Longrightarrow> validate_new_state v s opid as sch types \<noteq> None"
proof -
  assume k: "\<forall>t \<in> fst ` set sch. omap_get (owned_types s) t \<noteq> None"
  have "(case x of None \<Rightarrow> POk () | Some ta \<Rightarrow> p_all (\<lambda>st. oss_validate v oss opid t st types) (ta_states ta)) \<noteq> None"
    for x oss t
    by (cases x) (auto intro!: p_all_total oss_validate_total simp del: not_None_eq)
  note c = this
  have o': "omap_get (owned_types s) t \<noteq> None" if "omap_get sch t = Some occ" for t occ
    using k map_of_key [OF that] by blast
  show ?thesis
    unfolding validate_new_state_def by (intro total_intros c) (rule o')
qed

lemma run_validator_total: "scripts_return v \<Longrightarrow> run_validator v scripts opid r p ctx \<noteq> None"
proof -
  assume "scripts_return v"
  then obtain x where "exec_script v (the (or_validator r)) (omap_get scripts) (or_ty r) ctx = Some x"
    unfolding scripts_return_def by blast
  then show ?thesis
    by (cases x) (auto simp: run_validator_def split: option.splits bool.splits)
qed

lemma validate_state_total:
  assumes "schema_verify s types = (Ok () :: ('ty ValidationError, _) result)"
    and "operation_id c (ord_op p) = Some opid" "genesis_id c genesis = Some cid" "scripts_return v"
  shows "validate_state c (v :: ('ty, 'lib, 's) VmEnv) s types scripts genesis p st prev \<noteq> None"
proof (cases "op_rules s opid p :: ('ty ValidationError, _) result")
  case (Inl e)
  then show ?thesis using assms(2) by (simp add: validate_state_def)
next
  case (Inr r)
  have k: "rules_known s r" by (rule rules_known [OF assms(1) Inr])
  have "(case op_assignments (ord_op p) of
          GenesisRef a \<Rightarrow> validate_new_state v s opid a (or_assign r) types
        | GraphRef a \<Rightarrow> validate_new_state v s opid a (or_assign r) types) \<noteq> None"
    by (cases "op_assignments (ord_op p)")
       (simp_all only: AssignmentsRef.case not_False_eq_True
         validate_new_state_total [OF conjunct2 [OF conjunct2 [OF k [unfolded rules_known_def]]]])
  moreover have "validate_metadata v s opid (op_metadata (ord_op p)) (or_metadata r) types \<noteq> None"
    by (rule validate_metadata_total) (rule conjunct1 [OF k [unfolded rules_known_def]])
  moreover have "validate_global_state v s opid (op_globals (ord_op p)) (or_globals r) types \<noteq> None"
    by (rule validate_global_state_total) (rule conjunct1 [OF conjunct2 [OF k [unfolded rules_known_def]]])
  ultimately show ?thesis
    unfolding validate_state_def assms(2,3) expect.simps p_then.simps Inr
    by (intro p_then_total validate_prev_state_total run_validator_total [OF assms(4)])
qed

text \<open>A consignment whose collections are within their confined sizes.\<close>

definition consignment_ok :: "('ty, 'lib) Consignment \<Rightarrow> bool" where
  "consignment_ok cons \<longleftrightarrow>
     genesis_ok (c_genesis cons) \<and> length (c_scripts cons) \<le> CONSIGNMENT_MAX_LIBS
     \<and> (\<forall>(b, an, w) \<in> set (bundles_info cons). length (mp_path (mpc_proof an)) \<le> 32
          \<and> (\<forall>kt \<in> set (known_transitions b). transition_ok (kt_transition kt)))"

definition proofs_below_32 :: "('ty, 'lib) Consignment \<Rightarrow> bool" where
  "proofs_below_32 cons \<longleftrightarrow> (\<forall>(b, an, w) \<in> set (bundles_info cons). length (mp_path (mpc_proof an)) < 32)"

lemma length_scripts_le: "length (foldl (\<lambda>m l. omap_insert (f l) l m) m ls) \<le> length m + length ls"
proof (induction ls arbitrary: m)
  case (Cons l ls)
  have "length (omap_insert (f l) l m) \<le> Suc (length m)"
    by (induction "f l" l m rule: omap_insert.induct) auto
  then show ?case using Cons [of "omap_insert (f l) l m"] by simp
qed simp

lemma validate_seal_closing_total:
  assumes "length (mp_path mpf) < 32"
  shows "validate_seal_closing E cid seals bid w mpf \<noteq> None"
  using convolve_total [of mpf "ce_node_hash E" "ce_leaf_hash E" "ce_conceal_hash E" cid bid] assms
  by (auto simp: validate_seal_closing_def anchor_convolve_def anchor_new_def split: option.splits sum.splits bool.splits)

lemma validate_known_total:
  assumes "schema_verify (c_schema cons) (c_types cons) = (Ok () :: ('ty ValidationError, _) result)"
    and "transition_ok (kt_transition kt)" "genesis_ok (c_genesis cons)" "scripts_return v"
    and "length (mp_path (mpc_proof an)) < 32"
  shows "validate_known (v :: ('ty, 'lib, 's) VmEnv) E cons b an w tx ord V kt \<noteq> None"
proof -
  obtain tid gid where t: "transition_id (ce_enc E) (kt_transition kt) = Some tid"
    and g: "genesis_id (ce_enc E) (c_genesis cons) = Some gid"
    using transition_id_total [OF assms(2)] genesis_id_total [OF assms(3)] by blast
  have o': "operation_id (ce_enc E) (ord_op (OrdTransition (kt_transition kt) x y z)) = Some tid" for x y z
    using t by simp
  show ?thesis
    unfolding validate_known_def validate_transition_def Let_def t
    by (intro total_intros validate_seal_closing_total [OF assms(5)] validate_state_total [OF assms(1) o' g assms(4)])
qed

lemma validate_bundles_total:
  assumes "schema_verify (c_schema cons) (c_types cons) = (Ok () :: ('ty ValidationError, _) result)"
    and "consignment_ok cons" "proofs_below_32 cons" "scripts_return v"
  shows "validate_bundles (v :: ('ty, 'lib, 's) VmEnv) E cons R V \<noteq> None"
proof -
  have "validate_known v E cons b an w tx ord V kt \<noteq> None"
    if "(b, an, w) \<in> set (bundles_info cons)" "kt \<in> set (known_transitions b)" for b an w tx ord V kt
    using that assms(2,3) by (intro validate_known_total [OF assms(1) _ _ assms(4)])
      (auto simp: consignment_ok_def proofs_below_32_def)
  then show ?thesis
    unfolding validate_bundles_def validate_bundle_def Let_def case_prod_unfold
    by (intro total_intros) (metis prod.collapse)
qed

lemma validate_run_total:
  assumes "consignment_ok cons" "proofs_below_32 cons" "scripts_return v"
  shows "validate_run (v :: ('ty, 'lib, 's) VmEnv) E cons R st cfg \<noteq> None"
proof -
  obtain gid where g: "genesis_id (ce_enc E) (c_genesis cons) = Some gid"
    using genesis_id_total assms(1) unfolding consignment_ok_def by blast
  have "length (foldl (\<lambda>m l. omap_insert (lib_id v l) l m) [] (c_scripts cons)) \<le> CONSIGNMENT_MAX_LIBS"
    using length_scripts_le [of "lib_id v" "[]" "c_scripts cons"] assms(1) by (simp add: consignment_ok_def)
  then have "validator_init v E cons st cfg \<noteq> None"
    using g by (simp add: validator_init_def Let_def)
  moreover have "validate_genesis v E cons V \<noteq> None"
    if "validate_schema cons cfg = (Ok () :: ('ty ValidationError, _) result)" for V
  proof -
    have sv: "schema_verify (c_schema cons) (c_types cons) = (Ok () :: ('ty ValidationError, _) result)"
      using that by (auto simp: validate_schema_def res_simps)
    have "operation_id (ce_enc E) (ord_op (OrdGenesis (c_genesis cons))) = Some gid" using g by simp
    note st = validate_state_total [OF sv this g assms(3)]
    show ?thesis unfolding validate_genesis_def Let_def g by (intro total_intros st)
  qed
  moreover have "validate_bundles v E cons R V \<noteq> None"
    if "validate_schema cons cfg = (Ok () :: ('ty ValidationError, _) result)" for V
    using that by (intro validate_bundles_total [OF _ assms]) (auto simp: validate_schema_def res_simps)
  ultimately show ?thesis unfolding validate_run_def by (intro total_intros) auto
qed

end
