(* ===== verification/Validator_Report.thy ===== *)
theory Validator_Report
  imports Validator_Spec
begin

text \<open>
  The report of a validation run: which witnesses it lists, and when it warns about history
  that is not buried below the safe height.
\<close>

text \<open>The height an unsafe witness is listed under; \<open>0\<close> for one that is not mined.\<close>

fun unsafe_at :: "u32 \<Rightarrow> WitnessOrd \<Rightarrow> u32 option" where
  "unsafe_at safe (Mined pos) = (if wp_height pos > safe then Some (wp_height pos) else None)"
| "unsafe_at safe _ = Some 0"

definition resolves_to :: "'d ChainEnv \<Rightarrow> Resolver \<Rightarrow> Txid \<Rightarrow> WitnessOrd \<Rightarrow> bool" where
  "resolves_to E R w ord \<longleftrightarrow> (\<exists>tx. checked_resolve_witness (ce_txid E) R w = Ok (Resolved tx ord))"

definition unsafe_witnesses ::
  "'d ChainEnv \<Rightarrow> Resolver \<Rightarrow> u32 option \<Rightarrow> (TransitionBundle \<times> EAnchor \<times> Txid) list \<Rightarrow> u32 \<Rightarrow> Txid set" where
  "unsafe_witnesses E R safe bs h =
     {w. w \<in> (snd \<circ> snd) ` set bs \<and> (\<exists>s ord. safe = Some s \<and> resolves_to E R w ord \<and> unsafe_at s ord = Some h)}"

definition report_inv ::
  "'d ChainEnv \<Rightarrow> Resolver \<Rightarrow> u32 option \<Rightarrow> (TransitionBundle \<times> EAnchor \<times> Txid) list
     \<Rightarrow> ('lib, 's, 'd) Validator \<times> UnsafeHistoryMap \<Rightarrow> bool" where
  "report_inv E R safe bs = (\<lambda>(V, u).
     v_safe_height V = safe \<and> warnings (v_status V) = [] \<and> omap_ok u \<and> omap_ok (tx_ord_map (v_status V))
     \<and> (\<forall>h. (case omap_get u h of None \<Rightarrow> {} | Some ws \<Rightarrow> ws) = unsafe_witnesses E R safe bs h)
     \<and> (\<forall>h. omap_get u h \<noteq> Some {})
     \<and> (\<forall>w ord. omap_get (tx_ord_map (v_status V)) w = Some ord \<longleftrightarrow> w \<in> (snd \<circ> snd) ` set bs \<and> resolves_to E R w ord))"

lemma resolves_to_iff: "resolves_to E R w ord \<Longrightarrow> resolves_to E R w ord' \<longleftrightarrow> ord' = ord"
  by (auto simp: resolves_to_def)

lemma unsafe_entry_eq:
  "unsafe_entry safe ord w m =
     (case Option.bind safe (\<lambda>s. unsafe_at s ord) of
        None \<Rightarrow> m
      | Some h \<Rightarrow> omap_insert h (insert w (case omap_get m h of None \<Rightarrow> {} | Some ws \<Rightarrow> ws)) m)"
  by (cases safe; cases ord) (auto simp: unsafe_entry_def Let_def)

lemma unsafe_witnesses_snoc:
  assumes "resolves_to E R w ord"
  shows "unsafe_witnesses E R safe (bs @ [(b, an, w)]) h =
    unsafe_witnesses E R safe bs h \<union> (if Option.bind safe (\<lambda>s. unsafe_at s ord) = Some h then {w} else {})"
  by (auto simp: unsafe_witnesses_def bind_eq_Some_conv resolves_to_iff [OF assms])

lemma validate_known_status:
  assumes "validate_known v E cons b an w tx ord V kt = POk V'"
  shows "v_status V' = v_status V" "v_safe_height V' = v_safe_height V"
proof -
  obtain V1 where 1: "validate_transition v E cons V kt b tx ord an = POk V1"
    and V': "v_status V' = v_status V1" "v_safe_height V' = v_safe_height V1"
    using assms by (auto simp: validate_known_def Let_def res_simps)
  obtain sc :: InputScan and st where "V1 = V\<lparr> opout_assigns := is_assigns sc, input_opouts := is_spent sc, v_contract_state := st \<rparr>"
    using 1 by (rule validate_transition_Ok) (rule that, assumption)
  then show "v_status V' = v_status V" "v_safe_height V' = v_safe_height V" using V' by simp_all
qed

lemma resolved_txid: "checked_resolve_witness tid R w = Ok (Resolved tx ord) \<Longrightarrow> tid tx = w"
  unfolding checked_resolve_witness_def and_then_Inr
  by (elim exE conjE) (simp split: WitnessStatus.split_asm if_split_asm)

lemma report_inv_bundle:
  fixes v :: "('ty, 'lib, 's) VmEnv"
  assumes I: "report_inv E R safe bs (V, u)" and "validate_bundle v E cons R (V, u) (b, an, w) = POk (V', u')"
  shows "report_inv E R safe (bs @ [(b, an, w)]) (V', u')"
proof -
  obtain V1 tx ord where r: "validator_resolve_witness E R V (bundle_id (ce_enc E) b) w
      = (Ok (V1, tx, ord) :: ('ty ValidationError, _) result)"
    and f: "p_fold (validate_known v E cons b an w tx ord) V1 (known_transitions b) = POk V'"
    and u': "u' = unsafe_entry (v_safe_height V1) ord w u"
    using assms(2) by (auto simp: validate_bundle_def res_simps)
  have c: "checked_resolve_witness (ce_txid E) R w = Ok (Resolved tx ord)"
    and V1: "V1 = V\<lparr> v_status := (v_status V)\<lparr> tx_ord_map := omap_insert (ce_txid E tx) ord (tx_ord_map (v_status V)) \<rparr> \<rparr>"
    using r by (auto simp: validator_resolve_witness_def split: sum.splits WitnessStatus.splits if_splits)
  have ro: "resolves_to E R w ord" using c by (auto simp: resolves_to_def)
  have V': "v_status V' = v_status V1" "v_safe_height V' = v_safe_height V1"
    using p_fold_invariant [OF f, of "\<lambda>V. v_status V = v_status V1 \<and> v_safe_height V = v_safe_height V1"] validate_known_status
    by fastforce+
  have I: "v_safe_height V = safe" "warnings (v_status V) = []" "omap_ok u" "omap_ok (tx_ord_map (v_status V))"
    "\<And>h. (case omap_get u h of None \<Rightarrow> {} | Some ws \<Rightarrow> ws) = unsafe_witnesses E R safe bs h"
    "\<And>h. omap_get u h \<noteq> Some {}"
    "\<And>w ord. omap_get (tx_ord_map (v_status V)) w = Some ord \<longleftrightarrow> w \<in> (snd \<circ> snd) ` set bs \<and> resolves_to E R w ord"
    using I by (auto simp: report_inv_def)
  have u: "u' = (case Option.bind safe (\<lambda>s. unsafe_at s ord) of None \<Rightarrow> u
      | Some h \<Rightarrow> omap_insert h (insert w (case omap_get u h of None \<Rightarrow> {} | Some ws \<Rightarrow> ws)) u)"
    using I(1) by (simp add: u' V1 unsafe_entry_eq)
  have "omap_ok u' \<and> (case omap_get u' h of None \<Rightarrow> {} | Some ws \<Rightarrow> ws) = unsafe_witnesses E R safe (bs @ [(b, an, w)]) h
      \<and> omap_get u' h \<noteq> Some {}" for h
  proof (cases "Option.bind safe (\<lambda>s. unsafe_at s ord)")
    case None
    then show ?thesis using I(3,6) I(5) [of h] by (simp add: u unsafe_witnesses_snoc [OF ro])
  next
    case (Some k)
    then show ?thesis
      using I(3,6) I(5) [of h] by (cases "h = k") (auto simp: u unsafe_witnesses_snoc [OF ro])
  qed
  moreover have "omap_get (tx_ord_map (v_status V')) w' = Some ord'
      \<longleftrightarrow> w' \<in> (snd \<circ> snd) ` set (bs @ [(b, an, w)]) \<and> resolves_to E R w' ord'" for w' ord'
    using I(4) I(7) [of w' ord'] 
    by (auto simp: V' V1 resolved_txid [OF c] resolves_to_iff [OF ro])
  ultimately show ?thesis using I(1,2,4) by (simp add: report_inv_def V' V1)
qed

lemma report:
  fixes v :: "('ty, 'lib, 's) VmEnv"
  assumes "validate v E cons R st cfg = POk rpt"
  shows "(warnings rpt = [] \<longleftrightarrow> (\<forall>h. unsafe_witnesses E R (vcfg_safe_height cfg) (bundles_info cons) h = {}))
    \<and> (\<forall>w ord. omap_get (tx_ord_map rpt) w = Some ord
         \<longleftrightarrow> w \<in> (snd \<circ> snd) ` set (bundles_info cons) \<and> resolves_to E R w ord)"
proof -
  obtain V where run: "validate_run v E cons R st cfg = POk V" and rpt: "rpt = v_status V"
    using assms by (auto simp: validate_def res_simps)
  obtain V0 V1 where init: "validator_init v E cons st cfg = POk V0" and gen: "validate_genesis v E cons V0 = POk V1"
    and bs: "validate_bundles v E cons R V1 = POk V"
    using run by (auto simp: validate_run_def res_simps split: if_splits)
  have V0: "v_safe_height V0 = vcfg_safe_height cfg" "v_status V0 = status_new"
    using init by (auto simp: validator_init_def res_simps Let_def split: if_splits)
  have V1: "v_safe_height V1 = vcfg_safe_height cfg" "v_status V1 = status_new"
    using gen V0 by (auto simp: validate_genesis_def Let_def res_simps split: if_splits)
  obtain V2 u where f: "p_fold (validate_bundle v E cons R) (V1, []) (bundles_info cons) = POk (V2, u)"
    and V: "warnings (v_status V) = warnings (v_status V2) @
        (if v_safe_height V2 \<noteq> None \<and> u \<noteq> [] then [UnsafeHistory u] else [])"
      "tx_ord_map (v_status V) = tx_ord_map (v_status V2)"
    using bs by (auto simp: validate_bundles_def res_simps Let_def add_warning_def split: option.splits if_splits)
  have "report_inv E R (vcfg_safe_height cfg) [] (V1, [])"
    by (simp add: report_inv_def V1 status_new_def unsafe_witnesses_def)
  then have "report_inv E R (vcfg_safe_height cfg) ([] @ concat (map (\<lambda>x. [x]) (bundles_info cons))) (V2, u)"
    by (rule p_fold_trace [OF f]) (auto intro: report_inv_bundle)
  then have I: "v_safe_height V2 = vcfg_safe_height cfg" "warnings (v_status V2) = []" "omap_ok u"
    "\<And>h. (case omap_get u h of None \<Rightarrow> {} | Some ws \<Rightarrow> ws) = unsafe_witnesses E R (vcfg_safe_height cfg) (bundles_info cons) h"
    "\<And>h. omap_get u h \<noteq> Some {}"
    "\<And>w ord. omap_get (tx_ord_map (v_status V2)) w = Some ord
       \<longleftrightarrow> w \<in> (snd \<circ> snd) ` set (bundles_info cons) \<and> resolves_to E R w ord"
    by (auto simp: report_inv_def)
  have "u = [] \<longleftrightarrow> (\<forall>h. omap_get u h = None)" by (cases u) auto
  also have "\<dots> \<longleftrightarrow> (\<forall>h. unsafe_witnesses E R (vcfg_safe_height cfg) (bundles_info cons) h = {})"
    using I(4,5) by (metis option.case_eq_if option.collapse)
  finally have u: "u = [] \<longleftrightarrow> (\<forall>h. unsafe_witnesses E R (vcfg_safe_height cfg) (bundles_info cons) h = {})" .
  moreover have "u = []" if "vcfg_safe_height cfg = None" using u that by (simp add: unsafe_witnesses_def)
  ultimately show ?thesis using V I(1,2,6) by (auto simp: rpt)
qed

end
