(* ===== verification/Ledger.thy ===== *)
theory Ledger
  imports Rgb_Prelude
begin

text \<open>
  An abstract ledger: a map of unspent outputs, and steps that consume distinct unspent outputs
  no earlier step has consumed and create new ones.  It is the specification a validation run
  refines; the value of what is unspent never grows when no step creates more than it consumes.
\<close>


inductive ledger_run ::
  "('x \<Rightarrow> 'o list) \<Rightarrow> ('x \<Rightarrow> 'o \<rightharpoonup> 'a) \<Rightarrow> (('o \<rightharpoonup> 'a) \<Rightarrow> 'x \<Rightarrow> bool) \<Rightarrow> ('o \<rightharpoonup> 'a) \<Rightarrow> 'x list \<Rightarrow> ('o \<rightharpoonup> 'a) \<Rightarrow> bool"
  for ins outs ok U0 where
  genesis: "ledger_run ins outs ok U0 [] U0"
| step: "ledger_run ins outs ok U0 h U \<Longrightarrow> distinct (ins x) \<Longrightarrow> set (ins x) \<subseteq> dom U
    \<Longrightarrow> set (ins x) \<inter> set (concat (map ins h)) = {} \<Longrightarrow> ok U x
    \<Longrightarrow> ledger_run ins outs ok U0 (h @ [x]) ((U |` (- set (ins x))) ++ outs x)"

lemma ledger_run_distinct: "ledger_run ins outs ok U0 h U \<Longrightarrow> distinct (concat (map ins h))"
  by (induction rule: ledger_run.induct) auto

text \<open>The total value of a ledger does not grow when no step creates more than it consumes.\<close>

definition total_value :: "('o \<Rightarrow> 'a \<Rightarrow> nat) \<Rightarrow> ('o \<rightharpoonup> 'a) \<Rightarrow> nat" where
  "total_value f U = (\<Sum>o' \<in> dom U. f o' (the (U o')))"

lemma total_value_add:
  assumes "finite (dom U)" "finite (dom W)"
  shows "total_value f (U ++ W) \<le> total_value f U + total_value f W"
proof -
  have "total_value f (U ++ W) = (\<Sum>o' \<in> dom W. f o' (the (W o'))) + (\<Sum>o' \<in> dom U - dom W. f o' (the (U o')))"
  proof -
    have "dom (U ++ W) = dom W \<union> (dom U - dom W)" by auto
    then have "total_value f (U ++ W) = (\<Sum>o' \<in> dom W. f o' (the ((U ++ W) o'))) + (\<Sum>o' \<in> dom U - dom W. f o' (the ((U ++ W) o')))"
      unfolding total_value_def using assms by (simp only:, subst sum.union_disjoint) auto
    moreover have "(U ++ W) o' = W o'" if "o' \<in> dom W" for o' using that by auto
    moreover have "(U ++ W) o' = U o'" if "o' \<in> dom U - dom W" for o'
      using that by (auto simp: map_add_def dom_def split: option.splits)
    ultimately show ?thesis by simp
  qed
  also have "\<dots> \<le> total_value f W + total_value f U"
    unfolding total_value_def using assms by (intro add_left_mono sum_mono2) auto
  finally show ?thesis by simp
qed

lemma total_value_restrict:
  assumes "finite (dom U)" "set xs \<subseteq> dom U" "distinct xs"
  shows "total_value f (U |` (- set xs)) + sum_list (map (\<lambda>o'. f o' (the (U o'))) xs) = total_value f U"
proof -
  have "dom U = (dom U - set xs) \<union> set xs" using assms(2) by auto
  then have "total_value f U = (\<Sum>o' \<in> dom U - set xs. f o' (the (U o'))) + (\<Sum>o' \<in> set xs. f o' (the (U o')))"
    unfolding total_value_def using assms(1,2)
    by (metis (no_types, lifting) add.commute sum.subset_diff)
  moreover have "dom (U |` (- set xs)) = dom U - set xs" by auto
  moreover have "(\<Sum>o' \<in> dom U - set xs. f o' (the ((U |` (- set xs)) o'))) = (\<Sum>o' \<in> dom U - set xs. f o' (the (U o')))"
    by (rule sum.cong) auto
  ultimately show ?thesis using assms(3) by (simp add: total_value_def sum_list_distinct_conv_sum_set)
qed

lemma ledger_supply:
  assumes "ledger_run ins outs ok U0 h U" "finite (dom U0)" "\<And>x. finite (dom (outs x))"
    and "\<And>o' a. U0 o' = Some a \<Longrightarrow> P a" "\<And>x o' a. outs x o' = Some a \<Longrightarrow> P a"
    and "\<And>U x. ok U x \<Longrightarrow> set (ins x) \<subseteq> dom U \<Longrightarrow> \<forall>o' a. U o' = Some a \<longrightarrow> P a
      \<Longrightarrow> total_value f (outs x) \<le> sum_list (map (\<lambda>o'. f o' (the (U o'))) (ins x))"
  shows "finite (dom U) \<and> (\<forall>o' a. U o' = Some a \<longrightarrow> P a) \<and> total_value f U \<le> total_value f U0"
  using assms(1)
proof (induction rule: ledger_run.induct)
  case genesis
  then show ?case using assms(2,4) by simp
next
  case (step h U x)
  have "total_value f ((U |` (- set (ins x))) ++ outs x) \<le> total_value f (U |` (- set (ins x))) + total_value f (outs x)"
    using step assms(3) by (intro total_value_add) auto
  also have "\<dots> \<le> total_value f U"
    using total_value_restrict [of U "ins x" f] step assms(6) [of U x] by simp
  finally have "total_value f ((U |` (- set (ins x))) ++ outs x) \<le> total_value f U0" using step by simp
  moreover have "P a" if "((U |` (- set (ins x))) ++ outs x) o' = Some a" for o' a
    using that step.IH assms(5) [of x o' a] by (auto simp: map_add_Some_iff restrict_map_def split: if_splits)
  ultimately show ?case using step assms(3) by auto
qed

end
