(* ===== verification/Validator_Ledger.thy ===== *)
theory Validator_Ledger
  imports Validator_Report Ledger
begin

text \<open>
  A validation run refines the abstract ledger: the outputs the validator may still spend are
  the unspent outputs of the ledger, and every validated transition is a ledger step that
  conforms to the schema on the states of the outputs it consumes.
\<close>

section \<open>Outputs of an operation\<close>

definition op_outputs ::
  "('sl \<Rightarrow> Txid option \<Rightarrow> GenesisSeal option) \<Rightarrow> OpId \<Rightarrow> Txid option \<Rightarrow> 'sl Assignments \<Rightarrow> Opout \<rightharpoonup> RevealedAssign" where
  "op_outputs ww opid w as = (\<lambda>o'.
     if opout_op o' = opid
     then (case omap_get as (opout_ty o') of
             None \<Rightarrow> None
           | Some ta \<Rightarrow> (case to_revealed_assign_at ww ta (opout_no o') w of Inr a \<Rightarrow> Some a | Inl _ \<Rightarrow> None))
     else None)"

definition ta_outputs ::
  "('sl \<Rightarrow> Txid option \<Rightarrow> GenesisSeal option) \<Rightarrow> OpId \<Rightarrow> Txid option \<Rightarrow> AssignmentType \<Rightarrow> 'sl TypedAssigns \<Rightarrow> nat
     \<Rightarrow> Opout \<rightharpoonup> RevealedAssign" where
  "ta_outputs ww opid w ty ta n = (\<lambda>o'.
     if opout_op o' = opid \<and> opout_ty o' = ty \<and> unat (opout_no o') < n
     then (case to_revealed_assign_at ww ta (opout_no o') w of Inr a \<Rightarrow> Some a | Inl _ \<Rightarrow> None) else None)"

lemma unat_u16: "n < 65536 \<Longrightarrow> unat (word_of_nat n :: u16) = n"
  by (simp add: unsigned_of_nat take_bit_nat_eq_self)

lemma revealed_at_bound:
  assumes "to_revealed_assign_at ww ta i w = Ok a"
  shows "unat i < ta_len ta"
proof -
  obtain seal where "revealed_seal_at ta i = Ok (Some seal)" using assms by (rule to_revealed_assign_at_Ok)
  then show ?thesis by (cases ta) (auto simp: res_simps vec_get_def split: if_splits)
qed

lemma assign_revealed_fold:
  assumes "omap_ok m" "n \<le> 65536"
  shows "omap_ok (foldl (\<lambda>m n. case to_revealed_assign_at ww ta (word_of_nat n) w of
        Inr a \<Rightarrow> omap_insert (Opout opid ty (word_of_nat n)) a m | Inl _ \<Rightarrow> m) m [0..<n])
    \<and> omap_get (foldl (\<lambda>m n. case to_revealed_assign_at ww ta (word_of_nat n) w of
        Inr a \<Rightarrow> omap_insert (Opout opid ty (word_of_nat n)) a m | Inl _ \<Rightarrow> m) m [0..<n])
      = omap_get m ++ ta_outputs ww opid w ty ta n"
  using assms(2)
proof (induction n)
  case 0
  then show ?case using assms(1) by (auto simp: ta_outputs_def map_add_def fun_eq_iff)
next
  case (Suc n)
  let ?i = "word_of_nat n :: u16"
  have i: "unat o' < Suc n \<longleftrightarrow> unat o' < n \<or> o' = ?i" for o' :: u16
    using Suc.prems by (auto simp: less_Suc_eq unat_u16 word_unat_eq_iff)
  have no: "\<not> unat ?i < n" using Suc.prems by (simp add: unat_u16)
  have step: "ta_outputs ww opid w ty ta (Suc n) = (case to_revealed_assign_at ww ta ?i w of
      Inr a \<Rightarrow> (ta_outputs ww opid w ty ta n)(Opout opid ty ?i \<mapsto> a) | Inl _ \<Rightarrow> ta_outputs ww opid w ty ta n)"
    unfolding ta_outputs_def i by (rule ext) (auto simp: no Opout.expand split: sum.splits)
  show ?case
    using Suc by (cases "to_revealed_assign_at ww ta ?i w") (simp_all add: step, simp add: map_add_def fun_eq_iff)
qed

lemma assign_revealed_outputs:
  assumes "omap_ok m" "ta_len ta \<le> max_u16"
  shows "omap_ok (assign_revealed ww opid w m (ty, ta))
    \<and> omap_get (assign_revealed ww opid w m (ty, ta)) = omap_get m ++ ta_outputs ww opid w ty ta (ta_len ta)"
proof -
  have "unat (ta_len_u16 ta) = ta_len ta" "ta_len ta \<le> 65536"
    using assms(2) by (simp_all add: ta_len_u16_def unat_u16)
  then show ?thesis using assign_revealed_fold [OF assms(1), of "ta_len ta"] by (simp add: assign_revealed_def)
qed

lemma op_outputs_Cons:
  assumes "ty \<notin> fst ` set as"
  shows "op_outputs ww opid w ((ty, ta) # as) = ta_outputs ww opid w ty ta (ta_len ta) ++ op_outputs ww opid w as"
proof
  fix o'
  have "omap_get as ty = None" using assms by (simp add: map_of_eq_None_iff)
  then show "op_outputs ww opid w ((ty, ta) # as) o' = (ta_outputs ww opid w ty ta (ta_len ta) ++ op_outputs ww opid w as) o'"
    using revealed_at_bound [of ww ta "opout_no o'" w]
    by (auto simp: op_outputs_def ta_outputs_def map_add_def split: option.splits sum.splits)
qed

lemma assigns_revealed_outputs:
  assumes "omap_ok m" "omap_ok as" "\<forall>ta \<in> snd ` set as. ta_len ta \<le> max_u16"
  shows "omap_ok (foldl (assign_revealed ww opid w) m as)
    \<and> omap_get (foldl (assign_revealed ww opid w) m as) = omap_get m ++ op_outputs ww opid w as"
  using assms
proof (induction as arbitrary: m)
  case Nil
  then show ?case by (auto simp: op_outputs_def map_add_def fun_eq_iff)
next
  case (Cons x as)
  obtain ty ta where x: "x = (ty, ta)" by (cases x)
  note s = assign_revealed_outputs [of m ta ww opid w ty]
  have "ty \<notin> fst ` set as" "omap_ok as" using Cons.prems(2) unfolding x by (auto simp: less_le)
  then show ?case
    using Cons.IH [of "assign_revealed ww opid w m (ty, ta)"] Cons.prems s op_outputs_Cons [of ty as ww opid w ta]
    by (simp add: x)
qed

definition step_outputs :: "HistoryStep \<Rightarrow> Opout \<rightharpoonup> RevealedAssign" where
  "step_outputs = (\<lambda>(b, an, w, kt). op_outputs graph_with_witness_id (kt_opid kt) (Some w) (t_assignments (kt_transition kt)))"

definition genesis_outputs :: "'d ChainEnv \<Rightarrow> ('ty, 'lib) Consignment \<Rightarrow> Opout \<rightharpoonup> RevealedAssign" where
  "genesis_outputs E cons =
     (case genesis_id (ce_enc E) (c_genesis cons) of
        None \<Rightarrow> Map.empty
      | Some gid \<Rightarrow> op_outputs genesis_with_witness_id gid None (g_assignments (c_genesis cons)))"

section \<open>States of consumed outputs\<close>

definition state_of :: "(Opout \<rightharpoonup> RevealedAssign) \<Rightarrow> Opout \<Rightarrow> RevealedState" where
  "state_of U o' = snd (the (as_revealed (the (U o'))))"

definition push_state :: "(Opout \<rightharpoonup> RevealedAssign) \<Rightarrow> PrevState \<Rightarrow> Opout \<Rightarrow> PrevState" where
  "push_state U m o' = omap_insert (opout_ty o')
     ((case omap_get m (opout_ty o') of None \<Rightarrow> [] | Some ss \<Rightarrow> ss) @ [state_of U o']) m"

definition prev_of :: "(Opout \<rightharpoonup> RevealedAssign) \<Rightarrow> Opout list \<Rightarrow> PrevState" where
  "prev_of U ins = foldl (push_state U) [] ins"

lemma foldl_push_state_cong:
  "(\<And>x. x \<in> set ins \<Longrightarrow> U x = U' x) \<Longrightarrow> foldl (push_state U) m ins = foldl (push_state U') m ins"
  by (intro foldl_cong) (simp_all add: push_state_def state_of_def)

lemma scan_states:
  "try_fold (scan_input bid b opid) sc ins = (Ok sc' :: ('ty ValidationError, _) result)
     \<Longrightarrow> is_states sc' = foldl (push_state (omap_get (is_assigns sc))) (is_states sc) ins"
proof (induction ins arbitrary: sc)
  case (Cons inp ins)
  obtain sc1 where 1: "scan_input bid b opid sc inp = (Ok sc1 :: ('ty ValidationError, _) result)"
    "try_fold (scan_input bid b opid) sc1 ins = (Ok sc' :: ('ty ValidationError, _) result)"
    using Cons.prems by (auto simp: res_simps)
  obtain seal st where s: "revealed_in (is_assigns sc) inp seal st" "is_assigns sc1 = omap_remove inp (is_assigns sc)"
    "is_states sc1 = omap_insert (opout_ty inp)
       ((case omap_get (is_states sc) (opout_ty inp) of None \<Rightarrow> [] | Some ss \<Rightarrow> ss) @ [st]) (is_states sc)"
    using 1(1) by (auto simp: scan_input_Ok)
  have "inp \<notin> set ins" using scan_inputs [OF Cons.prems] by (simp add: scan_ok_def)
  then have "foldl (push_state (omap_get (is_assigns sc1))) (is_states sc1) ins
      = foldl (push_state (omap_get (is_assigns sc))) (is_states sc1) ins"
    by (intro foldl_push_state_cong) (auto simp: s(2))
  moreover have "is_states sc1 = push_state (omap_get (is_assigns sc)) (is_states sc) inp"
    using s(1,3) by (auto simp: push_state_def state_of_def revealed_in_def)
  ultimately show ?case using Cons.IH [OF 1(2)] by simp
qed simp

lemma prev_of_get:
  "omap_ok (prev_of U ins) \<and> omap_get (prev_of U ins) ty =
     (case filter (\<lambda>o'. opout_ty o' = ty) ins of [] \<Rightarrow> None | os \<Rightarrow> Some (map (state_of U) os))"
proof (induction ins rule: rev_induct)
  case (snoc o' ins)
  then show ?case
    by (auto simp: prev_of_def push_state_def split: option.splits list.splits)
qed (simp add: prev_of_def)

section \<open>The simulation\<close>

definition consignment_scripts :: "('ty, 'lib, 's) VmEnv \<Rightarrow> ('ty, 'lib) Consignment \<Rightarrow> (LibId, 'lib) omap" where
  "consignment_scripts v cons = foldl (\<lambda>m l. omap_insert (lib_id v l) l m) [] (c_scripts cons)"

definition ledger_step_ok ::
  "('ty, 'lib, 's) VmEnv \<Rightarrow> 'd ChainEnv \<Rightarrow> ('ty, 'lib) Consignment \<Rightarrow> Resolver
     \<Rightarrow> (Opout \<rightharpoonup> RevealedAssign) \<Rightarrow> HistoryStep \<Rightarrow> bool" where
  "ledger_step_ok v E cons R U = (\<lambda>(b, an, w, kt).
     \<exists>tx ord cid r st st'. checked_resolve_witness (ce_txid E) R w = Ok (Resolved tx ord)
       \<and> genesis_id (ce_enc E) (c_genesis cons) = Some cid
       \<and> (let p = OrdTransition (kt_transition kt) w ord (bundle_id (ce_enc E) b);
              prev = prev_of U (t_inputs (kt_transition kt)) in
          op_rules (c_schema cons) (kt_opid kt) p = (Ok r :: ('ty ValidationError, _) result)
          \<and> op_conforms v (c_schema cons) (c_types cons) r p prev
          \<and> script_accepts v (consignment_scripts v cons) r p
              \<lparr> vc_contract_id = cid, vc_op_info = op_info_with (kt_opid kt) p prev, vc_contract_state = st \<rparr> st'))"

definition ledger_inv ::
  "('ty, 'lib, 's) VmEnv \<Rightarrow> 'd ChainEnv \<Rightarrow> ('ty, 'lib) Consignment \<Rightarrow> Resolver \<Rightarrow> HistoryStep list
     \<Rightarrow> ('lib, 's, 'd) Validator \<Rightarrow> bool" where
  "ledger_inv v E cons R h V \<longleftrightarrow> (consignment_ok cons \<longrightarrow> hash_iter_ok v \<longrightarrow>
     v_scripts V = consignment_scripts v cons \<and> omap_ok (opout_assigns V) \<and> input_opouts V = set (spent h)
     \<and> ledger_run step_inputs step_outputs (ledger_step_ok v E cons R) (genesis_outputs E cons) h
         (omap_get (opout_assigns V)))"

lemma process_assignments_scripts [simp]:
  "v_scripts (process_assignments L ww V opid w as) = v_scripts V"
  by (simp add: process_assignments_def)

lemma ledger_inv_step:
  fixes v :: "('ty, 'lib, 's) VmEnv"
  assumes I: "ledger_inv v E cons R h V" and x: "(b, an, w) \<in> set (bundles_info cons)" "kt \<in> set (known_transitions b)"
    and r: "checked_resolve_witness (ce_txid E) R w = Ok (Resolved tx ord)"
    and k: "validate_known v E cons b an w tx ord V kt = POk V'"
  shows "ledger_inv v E cons R (h @ [(b, an, w, kt)]) V'"
  unfolding ledger_inv_def
proof (intro impI)
  assume ok: "consignment_ok cons" and hi: "hash_iter_ok v"
  let ?t = "kt_transition kt" and ?U = "omap_get (opout_assigns V)" and ?s = "(b, an, w, kt)"
  have I: "v_scripts V = consignment_scripts v cons" "omap_ok (opout_assigns V)" "input_opouts V = set (spent h)"
    "ledger_run step_inputs step_outputs (ledger_step_ok v E cons R) (genesis_outputs E cons) h ?U"
    using I ok hi by (auto simp: ledger_inv_def)
  obtain V1 where V1: "validate_transition v E cons V kt b tx ord an = POk V1"
    and V': "v_scripts V' = v_scripts V1" "input_opouts V' = input_opouts V1"
      "opout_assigns V' = foldl (assign_revealed graph_with_witness_id (kt_opid kt) (Some w)) (opout_assigns V1) (t_assignments ?t)"
    using k by (auto simp: validate_known_def Let_def res_simps)
  obtain sc c st where t: "transition_id (ce_enc E) ?t = Some (kt_opid kt)"
    and sc: "try_fold (scan_input (bundle_id (ce_enc E) b) b (kt_opid kt))
       \<lparr> is_assigns = opout_assigns V, is_spent = input_opouts V, is_states = [], is_seals = [] \<rparr> (t_inputs ?t)
         = (Ok sc :: ('ty ValidationError, InputScan) result)"
    and st: "validate_state (ce_enc E) v (c_schema cons) (c_types cons) (v_scripts V) (c_genesis cons)
       (OrdTransition ?t (ce_txid E tx) ord (bundle_id (ce_enc E) b)) (v_contract_state V) (is_states sc) = POk st"
    and "V1 = V\<lparr> opout_assigns := is_assigns sc, input_opouts := is_spent sc, v_contract_state := st \<rparr>"
    using V1 by (rule validate_transition_Ok)
  then have V1': "v_scripts V1 = v_scripts V" "input_opouts V1 = is_spent sc" "opout_assigns V1 = is_assigns sc" by simp_all
  note sok = scan_inputs [OF sc, unfolded scan_ok_def, simplified]
  have prev: "is_states sc = prev_of ?U (t_inputs ?t)" using scan_states [OF sc] by (simp add: prev_of_def)
  have "ledger_step_ok v E cons R ?U ?s"
    using st r t unfolding validate_state_Ok [OF hi] resolved_txid [OF r] prev I(1)
    by (auto simp: ledger_step_ok_def Let_def)
  moreover have "transition_ok ?t" using ok x by (auto simp: consignment_ok_def)
  then have outs: "omap_ok (opout_assigns V') \<and> omap_get (opout_assigns V') = omap_get (is_assigns sc) ++ step_outputs ?s"
    unfolding V'(3) V1'(3) step_outputs_def prod.case
    using sok I(2) by (intro assigns_revealed_outputs) (auto simp: transition_ok_def assignments_ok_def)
  moreover have "set (t_inputs ?t) \<subseteq> dom ?U" using sok unfolding revealed_in_def by (blast intro: domI)
  ultimately have "ledger_run step_inputs step_outputs (ledger_step_ok v E cons R) (genesis_outputs E cons) (h @ [?s])
      (omap_get (opout_assigns V'))"
    using ledger_run.step [OF I(4), of ?s] sok I(3) by (simp add: step_inputs_def spent_def)
  then show "v_scripts V' = consignment_scripts v cons \<and> omap_ok (opout_assigns V') \<and> input_opouts V' = set (spent (h @ [?s]))
     \<and> ledger_run step_inputs step_outputs (ledger_step_ok v E cons R) (genesis_outputs E cons) (h @ [?s])
         (omap_get (opout_assigns V'))"
    using outs sok I(1,3) V' V1' by (simp add: step_inputs_def)
qed

lemma ledger_inv_start:
  assumes "validator_init v E cons s cfg = POk V" "validate_genesis v E cons V = POk V'"
  shows "ledger_inv v E cons R [] V'"
  unfolding ledger_inv_def
proof (intro impI)
  assume ok: "consignment_ok cons"
  have g: "genesis_id (ce_enc E) (c_genesis cons) = Some (v_contract_id V)" "input_opouts V = {}" "opout_assigns V = []"
    "v_scripts V = consignment_scripts v cons"
    using assms(1) by (auto simp: validator_init_def consignment_scripts_def res_simps Let_def split: if_splits)
  have V': "v_scripts V' = v_scripts V" "input_opouts V' = input_opouts V"
    "opout_assigns V' = foldl (assign_revealed genesis_with_witness_id (v_contract_id V) None) (opout_assigns V)
      (g_assignments (c_genesis cons))"
    using assms(2) g by (auto simp: validate_genesis_def Let_def res_simps split: if_splits)
  have "omap_ok (opout_assigns V') \<and> omap_get (opout_assigns V') = omap_get [] ++ genesis_outputs E cons"
    unfolding V'(3) g(3) genesis_outputs_def g(1) option.case
    using ok by (intro assigns_revealed_outputs) (auto simp: consignment_ok_def genesis_ok_def assignments_ok_def)
  moreover have "omap_get [] ++ genesis_outputs E cons = genesis_outputs E cons"
    by (simp add: map_add_def fun_eq_iff split: option.splits)
  ultimately show "v_scripts V' = consignment_scripts v cons \<and> omap_ok (opout_assigns V') \<and> input_opouts V' = set (spent [])
     \<and> ledger_run step_inputs step_outputs (ledger_step_ok v E cons R) (genesis_outputs E cons) [] (omap_get (opout_assigns V'))"
    using g V' by (simp add: ledger_run.genesis)
qed

interpretation ledger: run_invariant ledger_inv
proof
  show "ledger_inv v E cons R h (V\<lparr> v_status := st \<rparr>)" if "ledger_inv v E cons R h V" for v E cons R h V st
    using that by (simp add: ledger_inv_def)
qed (blast intro: ledger_inv_start ledger_inv_step)+

section \<open>Amounts\<close>

fun amount :: "RevealedState \<Rightarrow> nat" where
  "amount (RFungible val) = unat (as_u64 val)"
| "amount _ = 0"

definition type_value :: "AssignmentType \<Rightarrow> Opout \<Rightarrow> RevealedAssign \<Rightarrow> nat" where
  "type_value ty o' a = (if opout_ty o' = ty then (case as_revealed a of None \<Rightarrow> 0 | Some (seal, st) \<Rightarrow> amount st) else 0)"

definition assigned_amount :: "AssignmentType \<Rightarrow> 'sl Assignments \<Rightarrow> nat" where
  "assigned_amount ty as = (case omap_get as ty of None \<Rightarrow> 0 | Some ta \<Rightarrow> sum_list (map amount (ta_states ta)))"

definition prev_amount :: "AssignmentType \<Rightarrow> PrevState \<Rightarrow> nat" where
  "prev_amount ty prev = (case omap_get prev ty of None \<Rightarrow> 0 | Some ss \<Rightarrow> sum_list (map amount ss))"

lemma as_revealed_state_of: "as_revealed a = Some (seal, st) \<Longrightarrow> as_revealed_state a = st"
  by (cases a) auto

lemma to_revealed_assign_state:
  assumes "to_revealed_assign_at ww ta i w = Ok a"
  shows "unat i < length (ta_states ta) \<and> (\<exists>seal. as_revealed a = Some (seal, ta_states ta ! unat i))"
  using assms
  by (cases ta) (auto simp: to_revealed_assign_at_def revealed_at_def res_simps bind_eq_Some_conv vec_get_def
      dest: as_revealed_state_of split: if_splits)

lemma finite_op_outputs: "finite (dom (op_outputs ww opid w as))"
proof (rule finite_subset)
  show "dom (op_outputs ww opid w as) \<subseteq> range (\<lambda>(ty, no). Opout opid ty no)"
  proof
    fix o' assume "o' \<in> dom (op_outputs ww opid w as)"
    then have "o' = (\<lambda>(ty, no). Opout opid ty no) (opout_ty o', opout_no o')"
      by (auto simp: op_outputs_def Opout.expand split: if_splits)
    then show "o' \<in> range (\<lambda>(ty, no). Opout opid ty no)" by blast
  qed
qed simp

lemma op_outputs_amount: "total_value (type_value ty) (op_outputs ww opid w as) \<le> assigned_amount ty as"
proof -
  let ?W = "op_outputs ww opid w as" and ?D = "{o' \<in> dom (op_outputs ww opid w as). opout_ty o' = ty}"
  have "total_value (type_value ty) ?W = (\<Sum>o' \<in> ?D. type_value ty o' (the (?W o')))"
    unfolding total_value_def using finite_op_outputs
    by (intro sum.mono_neutral_right) (auto simp: type_value_def)
  also have "\<dots> \<le> assigned_amount ty as"
  proof (cases "omap_get as ty")
    case None
    have "?D = {}" using None by (auto simp: op_outputs_def split: if_splits)
    show ?thesis unfolding \<open>?D = {}\<close> sum.empty by simp
  next
    case (Some ta)
    let ?n = "\<lambda>o'. unat (opout_no o')" and ?l = "map amount (ta_states ta)"
    have v: "?n o' < length ?l \<and> type_value ty o' (the (?W o')) = ?l ! ?n o'" if D: "o' \<in> ?D" for o'
    proof -
      obtain a where a: "?W o' = Some a" using D by auto
      have "opout_ty o' = ty" using D by simp
      then have "to_revealed_assign_at ww ta (opout_no o') w = Ok a"
        using a Some by (auto simp: op_outputs_def split: if_splits sum.splits)
      then show ?thesis using a to_revealed_assign_state [of ww ta "opout_no o'" w a] D by (auto simp: type_value_def)
    qed
    have inj: "inj_on ?n ?D"
      by (auto simp: inj_on_def op_outputs_def Opout.expand word_unat_eq_iff split: if_splits)
    have "(\<Sum>o' \<in> ?D. type_value ty o' (the (?W o'))) = (\<Sum>o' \<in> ?D. ?l ! ?n o')" by (rule sum.cong) (use v in auto)
    also have "\<dots> = (\<Sum>i \<in> ?n ` ?D. ?l ! i)" by (simp add: sum.reindex [OF inj])
    also have "\<dots> \<le> (\<Sum>i \<in> {0..<length ?l}. ?l ! i)" using conjunct1 [OF v] by (intro sum_mono2) (auto simp only: atLeast0LessThan lessThan_iff finite_lessThan)
    also have "\<dots> = sum_list ?l" by (simp add: sum_list_sum_nth)
    finally show ?thesis by (simp add: assigned_amount_def Some)
  qed
  finally show ?thesis .
qed

lemma prev_of_amount:
  assumes "\<forall>o' \<in> set ins. \<exists>a seal st. U o' = Some a \<and> as_revealed a = Some (seal, st)"
  shows "prev_amount ty (prev_of U ins) = sum_list (map (\<lambda>o'. type_value ty o' (the (U o'))) ins)"
proof -
  have "sum_list (map (amount \<circ> state_of U) (filter (\<lambda>o'. opout_ty o' = ty) ins))
      = sum_list (map (\<lambda>o'. type_value ty o' (the (U o'))) ins)"
    using assms by (induction ins) (auto simp: type_value_def state_of_def)
  moreover have "prev_amount ty (prev_of U ins) = sum_list (map (amount \<circ> state_of U) (filter (\<lambda>o'. opout_ty o' = ty) ins))"
    using prev_of_get [of U ins ty] by (auto simp: prev_amount_def split: list.splits)
  ultimately show ?thesis by simp
qed

lemma op_outputs_revealed:
  "op_outputs ww opid w as o' = Some a \<Longrightarrow> \<exists>seal st. as_revealed a = Some (seal, st)"
  by (auto simp: op_outputs_def dest: to_revealed_assign_state split: if_splits option.splits sum.splits)

text \<open>
  When no transition assigns more of a type than it consumes, what can still be spent of it is
  bounded by what the genesis assigned.
\<close>

lemma unspent_bounded:
  fixes v :: "('ty, 'lib, 's) VmEnv"
  assumes "validate_run v E cons R s cfg = POk V" "consignment_ok cons" "hash_iter_ok v"
    and conserve: "\<And>U b an w kt. ledger_step_ok v E cons R U (b, an, w, kt)
      \<Longrightarrow> assigned_amount ty (t_assignments (kt_transition kt)) \<le> prev_amount ty (prev_of U (t_inputs (kt_transition kt)))"
  shows "total_value (type_value ty) (omap_get (opout_assigns V)) \<le> assigned_amount ty (g_assignments (c_genesis cons))"
proof -
  have run: "ledger_run step_inputs step_outputs (ledger_step_ok v E cons R) (genesis_outputs E cons) (history cons)
      (omap_get (opout_assigns V))"
    using ledger.run [OF assms(1)] assms(2,3) by (simp add: ledger_inv_def)
  have rev: "\<exists>seal st. as_revealed a = Some (seal, st)" if "genesis_outputs E cons o' = Some a \<or> step_outputs x o' = Some a" for o' a x
    using that by (cases x)
      (auto simp: genesis_outputs_def step_outputs_def dest: op_outputs_revealed split: option.splits)
  have fin: "finite (dom (step_outputs x))" for x
    using finite_op_outputs by (cases x) (auto simp: step_outputs_def)
  have g: "finite (dom (genesis_outputs E cons))
      \<and> total_value (type_value ty) (genesis_outputs E cons) \<le> assigned_amount ty (g_assignments (c_genesis cons))"
    by (cases "genesis_id (ce_enc E) (c_genesis cons)")
       (simp_all add: genesis_outputs_def finite_op_outputs op_outputs_amount, simp add: total_value_def)
  have "total_value (type_value ty) (step_outputs x) \<le> sum_list (map (\<lambda>o'. type_value ty o' (the (U o'))) (step_inputs x))"
    if "ledger_step_ok v E cons R U x" "set (step_inputs x) \<subseteq> dom U"
      "\<forall>o' a. U o' = Some a \<longrightarrow> (\<exists>seal st. as_revealed a = Some (seal, st))" for U x
  proof -
    obtain b an w kt where x: "x = (b, an, w, kt)" by (cases x)
    have "total_value (type_value ty) (step_outputs x) \<le> assigned_amount ty (t_assignments (kt_transition kt))"
      using op_outputs_amount by (simp add: x step_outputs_def)
    also have "\<dots> \<le> prev_amount ty (prev_of U (t_inputs (kt_transition kt)))" by (rule conserve) (use that x in simp)
    also have "\<dots> = sum_list (map (\<lambda>o'. type_value ty o' (the (U o'))) (t_inputs (kt_transition kt)))"
      using that(2,3) by (intro prev_of_amount) (fastforce simp: x step_inputs_def)
    finally show ?thesis by (simp add: x step_inputs_def)
  qed
  then have "total_value (type_value ty) (omap_get (opout_assigns V)) \<le> total_value (type_value ty) (genesis_outputs E cons)"
    using ledger_supply [OF run conjunct1 [OF g] fin, of "\<lambda>a. \<exists>seal st. as_revealed a = Some (seal, st)" "type_value ty"] rev
    by blast
  then show ?thesis using g by simp
qed

end
