(* ===== verification/Validator_Demo.thy ===== *)
theory Validator_Demo
  imports Validator_Ledger Operation_Properties Dbc_Properties
begin

text \<open>
  A contract to instantiate statements about validation with: a genesis that assigns ten units to
  one seal, and one transition that passes them on, committed to by an opret output of the
  transaction that spends the seal.  Hashes and encodings are stand-ins that tell the operations
  apart; the virtual machine is left open.
\<close>

definition demo_id_enc :: Enc where
  "demo_id_enc = demo_enc\<lparr> sha256 := (\<lambda>bs. ucast (last bs)), enc_input_map := (\<lambda>m. [word_of_nat (length m) + 8]) \<rparr>"

definition demo_schema_enc :: SchemaEnc where
  "demo_schema_enc =
     \<lparr> enc_ffv = (\<lambda>_. []), enc_type_name = (\<lambda>_. []), enc_meta_types = (\<lambda>_. []), enc_global_types = (\<lambda>_. []),
       enc_owned_types = (\<lambda>_. []), enc_genesis_schema = (\<lambda>_. []), enc_transitions = (\<lambda>_. []),
       enc_opt_assignment = (\<lambda>_. [5]) \<rparr>"

definition unit_dag :: "unit DagLib" where
  "unit_dag = \<lparr> dag_new = (), dag_add_node = (\<lambda>_ _. ((), 0)), dag_add_edge = (\<lambda>_ _ _. ()) \<rparr>"

definition demo_chain :: "unit ChainEnv" where
  "demo_chain =
     \<lparr> ce_enc = demo_id_enc, ce_schema_enc = demo_schema_enc, ce_btc = demo_btc, ce_node_hash = (\<lambda>_. 0),
       ce_leaf_hash = (\<lambda>l. case l of Inhabited _ m \<Rightarrow> m | _ \<Rightarrow> 0), ce_conceal_hash = merkle_root,
       ce_txid = (\<lambda>tx. ucast (lock_time tx)), ce_seal_error = (\<lambda>_. []), ce_dag = unit_dag \<rparr>"

definition demo_site :: LibSite where
  "demo_site = \<lparr> site_lib = 3, site_pos = 0 \<rparr>"

definition demo_schema :: Schema where
  "demo_schema =
     \<lparr> ffv = 0, schema_name = ''Demo'', meta_types = [], global_types = [],
       owned_types = [(4000, \<lparr> owned_state_schema = FungibleSchema Unsigned64Bit, ad_name = ''asset'', default_transition = 10000 \<rparr>)],
       schema_genesis = \<lparr> gs_metadata = [], gs_globals = [], gs_assignments = [(4000, OnceOrMore)], gs_validator = None \<rparr>,
       transitions = [(10000, \<lparr> transition_schema =
         \<lparr> ts_metadata = [], ts_globals = [], ts_inputs = [(4000, OnceOrMore)], ts_assignments = [(4000, OnceOrMore)],
           ts_validator = Some demo_site \<rparr>, td_name = ''transfer'' \<rparr>)],
       default_assignment = Some 4000 \<rparr>"

definition demo_genesis :: Genesis where
  "demo_genesis =
     \<lparr> g_ffv = 0, g_schema_id = 5, g_timestamp = 0, g_issuer = [], g_chain_net = BitcoinRegtest,
       g_seal_closing_strategy = FirstOpretOrTapret, g_metadata = [], g_globals = [],
       g_assignments = [(4000, FungibleAssigns [Revealed (with_blinding 1 0 0) (Bits64 10)])] \<rparr>"

definition demo_transfer :: Transition where
  "demo_transfer =
     \<lparr> t_ffv = 0, t_contract_id = 255, t_nonce = 2, t_transition_type = 10000, t_metadata = [], t_globals = [],
       t_inputs = [Opout 255 4000 0],
       t_assignments = [(4000, FungibleAssigns [Revealed (with_blinded_vout 0 0) (Bits64 4), ConfidentialSeal 66 (Bits64 6)])],
       t_signature = None \<rparr>"

definition demo_tx_bundle :: TransitionBundle where
  "demo_tx_bundle =
     \<lparr> input_map = [(Opout 255 4000 0, 2)], known_transitions = [\<lparr> kt_opid = 2, kt_transition = demo_transfer \<rparr>] \<rparr>"

definition demo_witness :: Tx where
  "demo_witness = (demo_tx [[0], OP_RETURN # 32 # hash_bytes 9])
     \<lparr> lock_time := 77, tx_input := [\<lparr> previous_output = outpoint_new 1 0 \<rparr>] \<rparr>"

definition demo_ord :: WitnessOrd where
  "demo_ord = Mined \<lparr> wp_layer1 = Bitcoin, wp_height = 100, wp_timestamp = 1300000000 \<rparr>"

definition demo_resolver :: Resolver where
  "demo_resolver = \<lparr> rw_resolve = (\<lambda>_. Ok (Resolved demo_witness demo_ord)), rw_check_chain_net = (\<lambda>_. Ok ()) \<rparr>"

definition demo_config :: "u32 option \<Rightarrow> 'ty ValidationConfig" where
  "demo_config safe = \<lparr> vcfg_chain_net = BitcoinRegtest, vcfg_safe_height = safe, trusted_typesystem = [], build_opouts_dag = False \<rparr>"

definition demo_consignment :: "'lib \<Rightarrow> ('ty, 'lib) Consignment" where
  "demo_consignment l =
     \<lparr> c_schema = demo_schema, c_types = [], c_scripts = [l], c_genesis = demo_genesis,
       bundles_info = [(demo_tx_bundle, demo_anchor, 77)] \<rparr>"

definition demo_op :: OrdOpRef where
  "demo_op = OrdTransition demo_transfer 77 demo_ord 9"

definition demo_prev :: PrevState where
  "demo_prev = [(4000, [RFungible (Bits64 10)])]"

definition demo_context :: "'s \<Rightarrow> 's VmContext" where
  "demo_context s = \<lparr> vc_contract_id = 255, vc_op_info = op_info_with 2 demo_op demo_prev, vc_contract_state = s \<rparr>"

section \<open>Identifiers\<close>

lemma demo_transfer_ok: "transition_ok demo_transfer"
  by (simp add: transition_ok_def demo_transfer_def inputs_ok_def assignments_ok_def global_state_ok_def omap_ok_def)

lemma demo_genesis_ok: "genesis_ok demo_genesis"
  by (simp add: genesis_ok_def demo_genesis_def assignments_ok_def global_state_ok_def omap_ok_def)

lemma demo_op_hash: "op_hash demo_id_enc oc = ucast (ucast (oc_nonce oc) :: u8)"
  by (simp add: op_hash_def commit_id_serialized demo_id_enc_def demo_enc_def)

lemma demo_transfer_id: "transition_id demo_id_enc demo_transfer = Some 2"
proof -
  obtain i where i: "transition_id demo_id_enc demo_transfer = Some i" using transition_id_total [OF demo_transfer_ok] by blast
  then obtain oc where "transition_commit demo_id_enc demo_transfer = Some oc" "i = op_hash demo_id_enc oc"
    by (auto simp: transition_id_def)
  moreover from this(1) have "oc_nonce oc = 2"
    by (auto simp: transition_commit_def bind_eq_Some_conv demo_transfer_def)
  ultimately show ?thesis using i by (simp add: demo_op_hash)
qed

lemma demo_genesis_id: "genesis_id demo_id_enc demo_genesis = Some 255"
proof -
  obtain i where i: "genesis_id demo_id_enc demo_genesis = Some i" using genesis_id_total [OF demo_genesis_ok] by blast
  then obtain oc where "genesis_commit demo_id_enc demo_genesis = Some oc" "i = op_hash demo_id_enc oc"
    by (auto simp: genesis_id_def)
  moreover from this(1) have "oc_nonce oc = - 1"
    by (auto simp: genesis_commit_def bind_eq_Some_conv u64_MAX_def)
  moreover have "(ucast (ucast (- 1 :: u64) :: u8) :: bytes32) = 255" by code_simp
  ultimately show ?thesis using i by (simp add: demo_op_hash)
qed

lemma demo_bundle_id: "bundle_id demo_id_enc demo_tx_bundle = 9"
  by (simp add: bundle_id_def demo_tx_bundle_def commit_id_def engine_defs demo_id_enc_def demo_enc_def)

lemma demo_schema_id: "schema_id demo_id_enc demo_schema_enc s = 5"
  by (simp add: schema_id_def schema_commit_encode_def commit_id_def engine_defs demo_id_enc_def demo_enc_def
      demo_schema_enc_def Let_def)

section \<open>A run\<close>

definition demo_seal :: GenesisSeal where
  "demo_seal = with_blinding 1 0 0"

definition demo_start :: "'lib \<Rightarrow> 's \<Rightarrow> u32 option \<Rightarrow> (Opout, RevealedAssign) omap \<Rightarrow> ('lib, 's, unit) Validator" where
  "demo_start l s safe as =
     \<lparr> v_status = status_new, v_schema_id = 5, v_contract_id = 255, v_chain_net = BitcoinRegtest, v_scripts = [(3, l)],
       v_contract_state = s, input_opouts = {}, opout_assigns = as, v_safe_height = safe, opouts_dag_info = None \<rparr>"

lemma demo_genesis_fields:
  "g_schema_id demo_genesis = 5" "g_chain_net demo_genesis = BitcoinRegtest"
  by (simp_all add: demo_genesis_def)

lemma demo_chain_fields:
  "ce_enc demo_chain = demo_id_enc" "ce_schema_enc demo_chain = demo_schema_enc" "ce_dag demo_chain = unit_dag"
  "ce_txid demo_chain = (\<lambda>tx. ucast (lock_time tx))"
  by (simp_all add: demo_chain_def)

lemmas demo_simps = demo_chain_fields demo_consignment_def demo_config_def demo_genesis_id demo_transfer_id demo_bundle_id
  demo_schema_id

lemma demo_init:
  "lib_id v l = 3 \<Longrightarrow> validator_init v demo_chain (demo_consignment l) s (demo_config safe) = POk (demo_start l s safe [])"
  by (simp add: validator_init_def demo_simps demo_start_def CONSIGNMENT_MAX_LIBS_def demo_genesis_fields Let_def)

lemma demo_validate_schema: "validate_schema (demo_consignment l) (demo_config safe) = Ok ()"
  by (simp add: validate_schema_def schema_verify_def verify_operation_def demo_simps demo_schema_def genesis_op_schema_def
      transition_op_schema_def omap_contains_def omap_keys_def ensure_def)

lemma demo_fits:
  "assigns_fit v demo_schema [] [(4000, OnceOrMore)] (g_assignments demo_genesis)"
  "assigns_fit v demo_schema [] [(4000, OnceOrMore)] (t_assignments demo_transfer)"
  by (simp_all add: assigns_fit_def counts_fit_def demo_genesis_def demo_transfer_def demo_schema_def ta_len_u16_def)

lemma demo_genesis_state:
  assumes "hash_iter_ok v"
  shows "validate_state demo_id_enc v demo_schema [] scripts demo_genesis (OrdGenesis demo_genesis) s [] = POk s"
  unfolding validate_state_Ok [OF assms]
  using demo_fits(1) [of v]
  by (simp add: demo_genesis_id op_conforms_def metadata_fits_def globals_fit_def counts_fit_def script_accepts_def)
     (simp add: demo_genesis_def demo_schema_def)

definition demo_rules :: OpRules where
  "demo_rules =
     \<lparr> or_metadata = [], or_globals = [], or_owned = [(4000, OnceOrMore)], or_assign = [(4000, OnceOrMore)],
       or_validator = Some demo_site, or_ty = Some 10000 \<rparr>"

lemma demo_transfer_state:
  fixes v :: "('ty, 'lib, 's) VmEnv"
  assumes "hash_iter_ok v" "lib_id v l = 3"
    and "exec_script v demo_site (omap_get [(3, l)]) (Some 10000) (demo_context s) = Some (True, code)"
    and "evolve_state v s demo_op = Some s'"
  shows "validate_state demo_id_enc v demo_schema [] [(3, l)] demo_genesis demo_op s demo_prev = POk s'"
proof -
  have "op_conforms v demo_schema [] demo_rules demo_op demo_prev"
    using demo_fits(2) [of v]
    by (simp add: op_conforms_def metadata_fits_def globals_fit_def counts_fit_def demo_op_def demo_prev_def demo_rules_def)
       (simp add: demo_transfer_def)
  moreover have "op_rules demo_schema 2 demo_op = (Ok demo_rules :: ('ty ValidationError, _) result)"
    by (simp add: demo_op_def demo_transfer_def demo_schema_def demo_rules_def)
  moreover have "operation_id demo_id_enc (ord_op demo_op) = Some 2" by (simp add: demo_op_def demo_transfer_id)
  moreover have "script_accepts v [(3, l)] demo_rules demo_op (demo_context s) s'"
  proof -
    have r: "or_validator demo_rules = Some demo_site" "or_ty demo_rules = Some 10000" "site_lib demo_site = 3"
      "vc_contract_state (demo_context s) = s"
      by (simp_all add: demo_rules_def demo_site_def demo_context_def)
    have "omap_get [(3, l)] 3 = Some l" by simp
    then show ?thesis unfolding script_accepts_def r option.case using assms(2-4) by blast
  qed
  ultimately show ?thesis
    unfolding validate_state_Ok [OF assms(1)] demo_context_def using demo_genesis_id by blast
qed

lemma demo_validate_genesis:
  assumes "hash_iter_ok v"
  shows "validate_genesis v demo_chain (demo_consignment l) (demo_start l s safe [])
    = POk (demo_start l s safe [(Opout 255 4000 0, Revealed demo_seal (RFungible (Bits64 10)))])"
proof -
  have "foldl (assign_revealed genesis_with_witness_id 255 None) [] (g_assignments demo_genesis)
      = [(Opout 255 4000 0, Revealed demo_seal (RFungible (Bits64 10)))]"
    by (simp add: demo_genesis_def assign_revealed_def ta_len_u16_def to_revealed_assign_at_def revealed_at_def vec_get_def
        genesis_with_witness_id_def demo_seal_def)
  then show ?thesis
    using demo_genesis_state [OF assms]
    by (simp add: validate_genesis_def demo_simps demo_start_def process_assignments_def Let_def)
qed

lemma demo_dbc: "dbc_verify demo_btc (OpretDbc OpretProof) 9 demo_witness = Ok ()"
proof -
  have "opret_verify demo_btc OpretProof 9 (demo_tx [[0], OP_RETURN # 32 # hash_bytes 9]) = Ok ()"
    unfolding opret_verify_def by (rule opret_tx.verify_complete [OF demo_btc_ok demo_embed])
  then have "opret_verify demo_btc OpretProof 9 demo_witness = Ok ()"
    by (simp add: opret_verify_iff [OF demo_btc_ok] first_script_def demo_witness_def)
  then show ?thesis by simp
qed

lemma demo_closing:
  "validate_seal_closing demo_chain 255 [demo_seal] 9 (witness_with (\<lambda>tx. ucast (lock_time tx)) demo_witness (dbc_proof demo_anchor))
     (mpc_proof demo_anchor) = POk ()"
  unfolding seal_closing_Ok
  using demo_dbc
  by (simp add: demo_chain_def demo_anchor_def anchor_new_def one_leaf_convolve witness_with_def)
     (simp add: demo_witness_def demo_tx_def demo_btc_def dbc_output_matches_method_def demo_seal_def to_outpoint_def with_blinding_def)

lemma demo_scan:
  "try_fold (scan_input 9 demo_tx_bundle 2)
     \<lparr> is_assigns = [(Opout 255 4000 0, Revealed demo_seal (RFungible (Bits64 10)))], is_spent = {}, is_states = [], is_seals = [] \<rparr>
     (t_inputs demo_transfer)
   = Ok \<lparr> is_assigns = [], is_spent = {Opout 255 4000 0}, is_states = demo_prev, is_seals = [demo_seal] \<rparr>"
  by (simp add: demo_transfer_def scan_input_def demo_tx_bundle_def omap_remove_def demo_prev_def)

definition demo_end :: "'lib \<Rightarrow> 's \<Rightarrow> u32 option \<Rightarrow> ('lib, 's, unit) Validator" where
  "demo_end l s safe = (demo_start l s safe [(Opout 2 4000 0, Revealed (with_blinding 77 0 0) (RFungible (Bits64 4)))])
     \<lparr> v_status := status_new\<lparr> tx_ord_map := [(77, demo_ord)],
         warnings := (case safe of None \<Rightarrow> [] | Some h \<Rightarrow> if 100 > h then [UnsafeHistory [(100, {77})]] else []) \<rparr>,
       input_opouts := {Opout 255 4000 0} \<rparr>"

lemma demo_run:
  fixes v :: "('ty, 'lib, 's) VmEnv"
  assumes "hash_iter_ok v" "lib_id v l = 3"
    and "exec_script v demo_site (omap_get [(3, l)]) (Some 10000) (demo_context s) = Some (True, code)"
    and "evolve_state v s demo_op = Some s'"
  shows "validate_run v demo_chain (demo_consignment l) demo_resolver s (demo_config safe) = POk (demo_end l s' safe)"
proof -
  let ?V1 = "demo_start l s safe [(Opout 255 4000 0, Revealed demo_seal (RFungible (Bits64 10)))]"
  let ?st = "status_new\<lparr> tx_ord_map := [(77, demo_ord)] \<rparr> :: unit OpoutsDagData Status"
  let ?V2 = "?V1\<lparr> v_status := ?st \<rparr>" and ?kt = "\<lparr> kt_opid = 2, kt_transition = demo_transfer \<rparr>"
  let ?V3 = "?V2\<lparr> opout_assigns := [], input_opouts := {Opout 255 4000 0}, v_contract_state := s' \<rparr>"
  let ?V4 = "?V3\<lparr> opout_assigns := [(Opout 2 4000 0, Revealed (with_blinding 77 0 0) (RFungible (Bits64 4)))] \<rparr>"
  have r: "validator_resolve_witness demo_chain demo_resolver ?V1 9 77
      = (Ok (?V2, demo_witness, demo_ord) :: ('ty ValidationError, _) result)"
    by (simp add: validator_resolve_witness_def checked_resolve_witness_def demo_resolver_def demo_chain_def demo_witness_def
        demo_tx_def demo_ord_def demo_start_def status_new_def)
  have t: "validate_transition v demo_chain (demo_consignment l) ?V2 ?kt demo_tx_bundle demo_witness demo_ord demo_anchor = POk ?V3"
  proof -
    have w: "sw_txid (witness_with (\<lambda>tx. ucast (lock_time tx)) demo_witness (dbc_proof demo_anchor)) = 77"
      by (simp add: witness_with_def demo_witness_def)
    have c: "t_contract_id demo_transfer = 255" by (simp add: demo_transfer_def)
    have "OrdTransition demo_transfer 77 demo_ord 9 = demo_op" by (simp add: demo_op_def)
    then show ?thesis
      using demo_transfer_state [OF assms]
      by (simp add: validate_transition_def demo_simps demo_start_def w c Let_def demo_scan demo_closing)
  qed
  have k: "validate_known v demo_chain (demo_consignment l) demo_tx_bundle demo_anchor 77 demo_witness demo_ord ?V2 ?kt = POk ?V4"
  proof -
    have "foldl (assign_revealed graph_with_witness_id 2 (Some 77)) [] (t_assignments demo_transfer)
        = [(Opout 2 4000 0, Revealed (with_blinding 77 0 0) (RFungible (Bits64 4)))]"
      by (simp add: demo_transfer_def assign_revealed_def ta_len_u16_def to_revealed_assign_at_def revealed_at_def vec_get_def
          graph_with_witness_id_def with_blinded_vout_def upt_rec [of 0] upt_rec [of "Suc 0"] with_blinding_def)
    then show ?thesis
      using t by (simp add: validate_known_def process_assignments_def demo_start_def Let_def)
  qed
  have b: "validate_bundle v demo_chain (demo_consignment l) demo_resolver (?V1, []) (demo_tx_bundle, demo_anchor, 77)
      = POk (?V4, unsafe_entry safe demo_ord 77 [])"
  proof -
    have "bundle_id (ce_enc demo_chain) demo_tx_bundle = 9" "known_transitions demo_tx_bundle = [?kt]" "v_safe_height ?V2 = safe"
      by (simp_all add: demo_chain_fields demo_bundle_id demo_start_def) (simp add: demo_tx_bundle_def)
    then show ?thesis using r k by (simp add: validate_bundle_def)
  qed
  have u: "unsafe_entry safe demo_ord 77 [] = (case safe of None \<Rightarrow> [] | Some h \<Rightarrow> if 100 > h then [(100, {77})] else [])"
    by (auto simp: unsafe_entry_def demo_ord_def split: option.splits)
  have bs: "validate_bundles v demo_chain (demo_consignment l) demo_resolver ?V1 = POk (demo_end l s' safe)"
  proof -
    have "bundles_info (demo_consignment l :: ('ty, 'lib) Consignment) = [(demo_tx_bundle, demo_anchor, 77)]"
      by (simp add: demo_consignment_def)
    then show ?thesis
      using b unfolding validate_bundles_def
      by (simp add: u demo_end_def demo_start_def add_warning_def status_new_def Let_def split: option.splits)
  qed
  have "v_chain_net (demo_start l s safe []) = vcfg_chain_net (demo_config safe :: 'ty ValidationConfig)"
    by (simp add: demo_start_def demo_config_def)
  then show ?thesis
    using demo_init [OF assms(2), of s safe] demo_validate_genesis [OF assms(1), of l s safe] bs
    by (simp add: validate_run_def demo_resolver_def demo_validate_schema)
qed

end
