(* ===== verification/Contract_Order.thy ===== *)
theory Contract_Order
  imports Contract_State
begin

text \<open>
  The contract of a comparison function (Rust's \<open>Ord\<close>) and its interpretations on the
  comparisons of \<open>vm/contract.rs\<close>.  The locale \<open>comparison\<close> asks that a comparison does not
  panic on its domain, that swapping the arguments reverses the result, and that it is
  transitive.  Derived orders keep the contract (\<open>comparison_then\<close>).  The hand-written order of
  witness positions has it for sets of positions whose heights agree with their timestamps;
  the orders of witnesses, operations and global state inherit it.
\<close>

section \<open>Comparisons\<close>

locale comparison =
  fixes valid :: "'x \<Rightarrow> bool"
    and domn :: "'x \<Rightarrow> 'a \<Rightarrow> bool"
    and cmpf :: "'a \<Rightarrow> 'a \<Rightarrow> Ordering option"
  assumes total: "valid x \<Longrightarrow> domn x a \<Longrightarrow> domn x b \<Longrightarrow> \<exists>r. cmpf a b = Some r"
    and sym: "valid x \<Longrightarrow> domn x a \<Longrightarrow> domn x b \<Longrightarrow> cmpf a b = Some r \<Longrightarrow> cmpf b a = Some (reverse_ordering r)"
    and trans: "valid x \<Longrightarrow> domn x a \<Longrightarrow> domn x b \<Longrightarrow> domn x c \<Longrightarrow> cmpf a b = Some r \<Longrightarrow> cmpf b c = Some s
      \<Longrightarrow> r \<noteq> OGreater \<Longrightarrow> s \<noteq> OGreater \<Longrightarrow> cmpf a c = Some (if r = OEqual then s else OLess)"
begin

lemma refl:
  assumes "valid x" "domn x a"
  shows "cmpf a a = Some OEqual"
proof -
  obtain r where r: "cmpf a a = Some r" using total [OF assms(1,2,2)] by blast
  then have "r = reverse_ordering r" using sym [OF assms(1,2,2) r] by simp
  then show ?thesis using r by (cases r) auto
qed

text \<open>Every non-empty list has an element no other is less than, so sorting by it is defined.\<close>

lemma least_exists:
  assumes "valid x" "xs \<noteq> []" "\<forall>a \<in> set xs. domn x a"
  shows "\<exists>a \<in> set xs. \<forall>b \<in> set xs. cmpf a b = Some OLess \<or> cmpf a b = Some OEqual"
  using assms(2,3)
proof (induction xs)
  case (Cons y ys)
  show ?case
  proof (cases "ys = []")
    case True
    then show ?thesis using refl [OF assms(1)] Cons.prems by simp
  next
    case False
    then obtain a where a: "a \<in> set ys" "\<forall>b \<in> set ys. cmpf a b = Some OLess \<or> cmpf a b = Some OEqual"
      using Cons by auto
    have d: "domn x a" "domn x y" using Cons.prems a(1) by auto
    obtain r where r: "cmpf a y = Some r" using total [OF assms(1) d] by blast
    show ?thesis
    proof (cases "r = OGreater")
      case True
      then have ya: "cmpf y a = Some OLess" using sym [OF assms(1) d r] by simp
      have "cmpf y b = Some OLess" if "b \<in> set ys" for b
        using a(2) that ya trans [OF assms(1) d(2,1) _ ya, of b] Cons.prems(2) by auto
      then show ?thesis using refl [OF assms(1) d(2)] by auto
    next
      case False
      then show ?thesis using a r by (cases r) auto
    qed
  qed
qed simp

end

lemma cmp_then_Some: "cmp_then (Some r) q = (if r = OEqual then q else Some r)"
  by (cases r) auto

lemma reverse_Equal [simp]: "reverse_ordering r = OEqual \<longleftrightarrow> r = OEqual"
  by (cases r) auto

text \<open>Comparing by one comparison and then by another is a comparison.\<close>

lemma comparison_then:
  assumes f: "comparison valid domn f" and g: "comparison valid domn g"
  shows "comparison valid domn (\<lambda>a b. cmp_then (f a b) (g a b))"
proof
  fix x a b assume "valid x" "domn x a" "domn x b"
  then obtain r q where "f a b = Some r" "g a b = Some q"
    using comparison.total [OF f] comparison.total [OF g] by metis
  then show "\<exists>r. cmp_then (f a b) (g a b) = Some r" by (simp add: cmp_then_Some)
next
  fix x a b r assume d: "valid x" "domn x a" "domn x b" and c: "cmp_then (f a b) (g a b) = Some r"
  obtain r' q where s: "f a b = Some r'" "g a b = Some q"
    using d comparison.total [OF f] comparison.total [OF g] by metis
  then show "cmp_then (f b a) (g b a) = Some (reverse_ordering r)"
    using c comparison.sym [OF f d s(1)] comparison.sym [OF g d s(2)]
    by (auto simp: cmp_then_Some split: if_splits)
next
  fix x a b c r s assume d: "valid x" "domn x a" "domn x b" "domn x c"
    and c: "cmp_then (f a b) (g a b) = Some r" "cmp_then (f b c) (g b c) = Some s" "r \<noteq> OGreater" "s \<noteq> OGreater"
  obtain fa ga fb gb where s: "f a b = Some fa" "g a b = Some ga" "f b c = Some fb" "g b c = Some gb"
    using d comparison.total [OF f] comparison.total [OF g] by metis
  then show "cmp_then (f a c) (g a c) = Some (if r = OEqual then s else OLess)"
    using c comparison.trans [OF f d s(1,3)] comparison.trans [OF g d s(2,4)]
    by (cases fa; cases fb) auto
qed

lemma comparison_key:
  assumes "\<And>x a. valid x \<Longrightarrow> domn x a \<Longrightarrow> domn' x (k a)" "comparison valid domn' f"
  shows "comparison valid domn (\<lambda>a b. f (k a) (k b))"
proof
  show "\<exists>r. f (k a) (k b) = Some r" if "valid x" "domn x a" "domn x b" for x a b
    using comparison.total [OF assms(2)] assms(1) that by metis
  show "f (k b) (k a) = Some (reverse_ordering r)"
    if "valid x" "domn x a" "domn x b" "f (k a) (k b) = Some r" for x a b r
    using comparison.sym [OF assms(2)] assms(1) that by metis
  show "f (k a) (k c) = Some (if r = OEqual then s else OLess)"
    if "valid x" "domn x a" "domn x b" "domn x c" "f (k a) (k b) = Some r" "f (k b) (k c) = Some s"
      "r \<noteq> OGreater" "s \<noteq> OGreater" for x a b c r s
    using comparison.trans [OF assms(2), of x "k a" "k b" "k c" r s] assms(1) that by blast
qed

lemma cmp_comparison: "comparison valid domn (\<lambda>a b. Some (cmp (a :: 'a::linorder) b))"
  by unfold_locales (auto simp: cmp_def split: if_splits)

lemma bytes_cmp_sym: "bytes_cmp b a = reverse_ordering (bytes_cmp a b)"
  by (induction a b rule: bytes_cmp.induct) auto

lemma bytes_cmp_trans:
  "bytes_cmp a b \<noteq> OGreater \<Longrightarrow> bytes_cmp b c \<noteq> OGreater \<Longrightarrow>
     bytes_cmp a c = (if bytes_cmp a b = OEqual then bytes_cmp b c else OLess)"
proof (induction a b arbitrary: c rule: bytes_cmp.induct)
  case 1
  then show ?case by (cases c) auto
next
  case (2 y ys)
  then show ?case by (cases c) auto
next
  case (3 x xs)
  then show ?case by simp
next
  case (4 x xs y ys)
  then obtain z zs where c: "c = z # zs" by (cases c) (auto split: if_splits)
  have "x < y \<or> x = y" "y < z \<or> y = z" using "4.prems" by (auto simp: c not_less split: if_splits)
  then consider "x < z" "x < y \<or> y < z" | "x = y" "y = z" by fastforce
  then show ?case
  proof cases
    case 1
    then show ?thesis using \<open>x < y \<or> x = y\<close> by (auto simp: c)
  next
    case 2
    then show ?thesis using "4.IH" [of zs] "4.prems" by (simp add: c)
  qed
qed

lemma bytes_comparison: "comparison valid domn (\<lambda>a b. Some (bytes_cmp a b))"
proof
  fix x a b c r s
  show "\<exists>r. Some (bytes_cmp a b) = Some r" by blast
  show "Some (bytes_cmp b a) = Some (reverse_ordering r)" if "Some (bytes_cmp a b) = Some r"
    using that bytes_cmp_sym [of b a] by simp
  show "Some (bytes_cmp a c) = Some (if r = OEqual then s else OLess)"
    if "Some (bytes_cmp a b) = Some r" "Some (bytes_cmp b c) = Some s" "r \<noteq> OGreater" "s \<noteq> OGreater"
    using that bytes_cmp_trans [of a b c] by simp
qed

section \<open>Witness positions\<close>

text \<open>
  Heights and timestamps agree: within a layer, a block that is not higher is not later.
\<close>

definition heights_agree :: "WitnessPos set \<Rightarrow> bool" where
  "heights_agree P \<longleftrightarrow>
     (\<forall>p \<in> P. 0 < wp_timestamp p)
     \<and> (\<forall>p \<in> P. \<forall>q \<in> P. wp_layer1 p = wp_layer1 q \<longrightarrow> wp_height p \<le> wp_height q \<longrightarrow> wp_timestamp p \<le> wp_timestamp q)"

lemma not_Bitcoin: "l \<noteq> Bitcoin \<longleftrightarrow> l = Liquid"
  by (cases l) auto

text \<open>Across layers, a bitcoin position is less exactly when it is ten minutes older or more.\<close>

lemma witness_pos_cmp_cross:
  assumes "0 < wp_timestamp p" "0 < wp_timestamp q" "wp_layer1 p = Bitcoin" "wp_layer1 q = Liquid"
  shows "witness_pos_cmp p q = Some (if wp_timestamp p + BLOCK_TIME \<le> wp_timestamp q then OLess else OGreater)"
    and "witness_pos_cmp q p = Some (if wp_timestamp p + BLOCK_TIME \<le> wp_timestamp q then OGreater else OLess)"
  using assms by (auto simp: witness_pos_cmp_def cmp_def BLOCK_TIME_def)

lemma witness_pos_cmp_same:
  assumes "0 < wp_timestamp p" "0 < wp_timestamp q" "wp_layer1 p = wp_layer1 q"
  shows "witness_pos_cmp p q = Some (cmp (wp_height p) (wp_height q))"
  using assms by (simp add: witness_pos_cmp_def)

lemma witness_pos_cases:
  assumes "0 < wp_timestamp p" "0 < wp_timestamp q"
  obtains "wp_layer1 p = wp_layer1 q" "witness_pos_cmp p q = Some (cmp (wp_height p) (wp_height q))"
  | "wp_layer1 p = Bitcoin" "wp_layer1 q = Liquid"
    "witness_pos_cmp p q = Some (if wp_timestamp p + BLOCK_TIME \<le> wp_timestamp q then OLess else OGreater)"
  | "wp_layer1 p = Liquid" "wp_layer1 q = Bitcoin"
    "witness_pos_cmp p q = Some (if wp_timestamp q + BLOCK_TIME \<le> wp_timestamp p then OGreater else OLess)"
  using assms witness_pos_cmp_cross witness_pos_cmp_same
  by (cases "wp_layer1 p"; cases "wp_layer1 q") auto

lemma cmp_cases:
  "cmp a b = OLess \<longleftrightarrow> a < b" "cmp a b = OEqual \<longleftrightarrow> a = b" "cmp a b = OGreater \<longleftrightarrow> b < a"
  by (auto simp: cmp_def)

lemma witness_pos_cmp_reverse:
  assumes "0 < wp_timestamp a" "0 < wp_timestamp b" "witness_pos_cmp a b = Some r"
  shows "witness_pos_cmp b a = Some (reverse_ordering r)"
  using assms(1,2)
proof (cases rule: witness_pos_cases)
  case 1
  then show ?thesis using assms witness_pos_cmp_same [of b a] by (auto simp: cmp_def)
next
  case 2
  then show ?thesis using assms witness_pos_cmp_cross(2) [OF assms(1,2)] by auto
next
  case 3
  then show ?thesis using assms witness_pos_cmp_cross(1) [OF assms(2,1)] by auto
qed

text \<open>
  The order in one number: positions of one layer by height, and a bitcoin position against a
  liquid one by its timestamp moved by ten minutes.
\<close>

definition pos_key :: "WitnessPos \<Rightarrow> int" where
  "pos_key p = (case wp_layer1 p of Bitcoin \<Rightarrow> wp_timestamp p + BLOCK_TIME | Liquid \<Rightarrow> wp_timestamp p)"

lemma witness_pos_cmp_key:
  assumes "0 < wp_timestamp p" "0 < wp_timestamp q"
  shows "witness_pos_cmp p q = Some
    (if wp_layer1 p = wp_layer1 q then cmp (wp_height p) (wp_height q)
     else if pos_key p < pos_key q \<or> pos_key p = pos_key q \<and> wp_layer1 p = Bitcoin then OLess else OGreater)"
  using assms by (cases rule: witness_pos_cases) (auto simp: pos_key_def)

lemma heights_agree_key:
  assumes P: "heights_agree P" "p \<in> P" "q \<in> P" and l: "wp_layer1 p = wp_layer1 q"
  shows "wp_height p < wp_height q \<Longrightarrow> pos_key p \<le> pos_key q"
    and "wp_height p = wp_height q \<Longrightarrow> pos_key p = pos_key q"
proof -
  have h: "wp_height p \<le> wp_height q \<Longrightarrow> wp_timestamp p \<le> wp_timestamp q"
    "wp_height q \<le> wp_height p \<Longrightarrow> wp_timestamp q \<le> wp_timestamp p"
    using P l unfolding heights_agree_def by metis+
  show "wp_height p < wp_height q \<Longrightarrow> pos_key p \<le> pos_key q"
    using h(1) l by (simp add: pos_key_def split: Layer1.splits)
  show "wp_height p = wp_height q \<Longrightarrow> pos_key p = pos_key q"
    using h l by (simp add: pos_key_def split: Layer1.splits)
qed

lemma pos_key_step:
  fixes ha hb :: "'h::linorder" and ka kb :: int
  assumes "Some (if la = lb then cmp ha hb else if ka < kb \<or> ka = kb \<and> la = Bitcoin then OLess else OGreater) = Some r"
    and "r \<noteq> OGreater"
    and "la = lb \<Longrightarrow> ha < hb \<Longrightarrow> ka \<le> kb" "la = lb \<Longrightarrow> ha = hb \<Longrightarrow> ka = kb"
  shows "la = lb \<and> ha < hb \<and> ka \<le> kb \<and> r = OLess \<or> la = lb \<and> ha = hb \<and> ka = kb \<and> r = OEqual
    \<or> la \<noteq> lb \<and> r = OLess \<and> (ka < kb \<or> ka = kb \<and> la = Bitcoin)"
proof (cases "la = lb")
  case True
  then show ?thesis using assms by (cases "ha < hb"; cases "ha = hb"; simp add: cmp_def)
next
  case False
  then show ?thesis using assms(1,2) by (cases "ka < kb \<or> ka = kb \<and> la = Bitcoin"; simp)
qed

lemma pos_key_comp:
  fixes ha hb hc :: "'h::linorder" and ka kb kc :: int
  assumes "la = lb \<and> ha < hb \<and> ka \<le> kb \<and> r = OLess \<or> la = lb \<and> ha = hb \<and> ka = kb \<and> r = OEqual
    \<or> la \<noteq> lb \<and> r = OLess \<and> (ka < kb \<or> ka = kb \<and> la = Bitcoin)"
   and "lb = lc \<and> hb < hc \<and> kb \<le> kc \<and> s = OLess \<or> lb = lc \<and> hb = hc \<and> kb = kc \<and> s = OEqual
    \<or> lb \<noteq> lc \<and> s = OLess \<and> (kb < kc \<or> kb = kc \<and> lb = Bitcoin)"
   and "lc = la \<longrightarrow> hc \<le> ha \<longrightarrow> kc \<le> ka"
 shows "(if la = lc then cmp ha hc else if ka < kc \<or> ka = kc \<and> la = Bitcoin then OLess else OGreater)
    = (if r = OEqual then s else OLess)"
  using assms by (cases la; cases lb; cases lc; simp add: cmp_def) auto
interpretation pos_order: comparison heights_agree "\<lambda>P p. p \<in> P" witness_pos_cmp
proof
  fix P a b assume P: "heights_agree P" "a \<in> P" "b \<in> P"
  then have t: "0 < wp_timestamp a" "0 < wp_timestamp b" by (auto simp: heights_agree_def)
  then show "\<exists>r. witness_pos_cmp a b = Some r" by (simp add: witness_pos_cmp_def)
  show "witness_pos_cmp b a = Some (reverse_ordering r)" if "witness_pos_cmp a b = Some r" for r
    by (rule witness_pos_cmp_reverse [OF t that])
next
  fix P a b c r s assume P: "heights_agree P" "a \<in> P" "b \<in> P" "c \<in> P"
    and c: "witness_pos_cmp a b = Some r" "witness_pos_cmp b c = Some s" "r \<noteq> OGreater" "s \<noteq> OGreater"
  have t: "0 < wp_timestamp a" "0 < wp_timestamp b" "0 < wp_timestamp c"
    using P by (auto simp: heights_agree_def)
  note k = heights_agree_key [OF P(1)]
  have "wp_layer1 c = wp_layer1 a \<longrightarrow> wp_height c \<le> wp_height a \<longrightarrow> pos_key c \<le> pos_key a"
    using k [OF P(4,2)] by (auto simp: le_less)
  note pos_key_comp [OF
    pos_key_step [OF c(1) [unfolded witness_pos_cmp_key [OF t(1,2)]] c(3) k [OF P(2,3)]]
    pos_key_step [OF c(2) [unfolded witness_pos_cmp_key [OF t(2,3)]] c(4) k [OF P(3,4)]] this]
  then show "witness_pos_cmp a c = Some (if r = OEqual then s else OLess)"
    by (simp only: witness_pos_cmp_key [OF t(1,3)])
qed

section \<open>Witness and operation orders\<close>

fun mined_in :: "WitnessPos set \<Rightarrow> WitnessOrd \<Rightarrow> bool" where
  "mined_in P (Mined p) = (p \<in> P)"
| "mined_in P _ = True"

fun op_ord_in :: "WitnessPos set \<Rightarrow> OpOrd \<Rightarrow> bool" where
  "op_ord_in P GenesisOrd = True"
| "op_ord_in P (TransitionOrd w _ _ _) = mined_in P w"

interpretation witness_order: comparison heights_agree mined_in witness_ord_cmp
proof
  fix P a b assume P: "heights_agree P" "mined_in P a" "mined_in P b"
  show "\<exists>r. witness_ord_cmp a b = Some r"
    using P by (cases a; cases b; simp add: pos_order.total [OF P(1)])
  show "witness_ord_cmp b a = Some (reverse_ordering r)" if "witness_ord_cmp a b = Some r" for r
  proof (cases "\<exists>p q. a = Mined p \<and> b = Mined q")
    case True
    then obtain p q where "a = Mined p" "b = Mined q" by blast
    then show ?thesis using that P pos_order.sym [OF P(1), of p q r] by simp
  next
    case False
    then show ?thesis using that by (cases a; cases b; simp add: cmp_def)
  qed
next
  fix P a b c r s assume P: "heights_agree P" "mined_in P a" "mined_in P b" "mined_in P c"
    and c: "witness_ord_cmp a b = Some r" "witness_ord_cmp b c = Some s" "r \<noteq> OGreater" "s \<noteq> OGreater"
  show "witness_ord_cmp a c = Some (if r = OEqual then s else OLess)"
  proof (cases "\<exists>p q u. a = Mined p \<and> b = Mined q \<and> c = Mined u")
    case True
    then obtain p q u where "a = Mined p" "b = Mined q" "c = Mined u" by blast
    then show ?thesis using P c pos_order.trans [OF P(1), of p q u r s] by simp
  next
    case False
    then show ?thesis using c by (cases a; cases b; cases c; simp add: cmp_def)
  qed
qed

interpretation op_order: comparison heights_agree op_ord_in op_ord_cmp
proof -
  have "comparison heights_agree (\<lambda>P (w, ty :: TransitionType, n :: u64, i :: OpId). mined_in P w)
    (\<lambda>a b. cmp_then (witness_ord_cmp (fst a) (fst b)) (cmp_then (Some (cmp (fst (snd a)) (fst (snd b))))
       (cmp_then (Some (cmp (fst (snd (snd a))) (fst (snd (snd b))))) (Some (cmp (snd (snd (snd a))) (snd (snd (snd b))))))))"
    by (intro comparison_then comparison_key [OF _ witness_order.comparison_axioms]
        comparison_key [where domn' = "\<lambda>_ _. True", OF _ cmp_comparison]) auto
  note c = this
  show "comparison heights_agree op_ord_in op_ord_cmp"
  proof
    fix P a b assume P: "heights_agree P" "op_ord_in P a" "op_ord_in P b"
    show "\<exists>r. op_ord_cmp a b = Some r"
    proof (cases a; cases b)
      fix w ty n i w' ty' n' i' assume "a = TransitionOrd w ty n i" "b = TransitionOrd w' ty' n' i'"
      then show ?thesis
        using comparison.total [OF c P(1), of "(w, ty, n, i)" "(w', ty', n', i')"] P by simp
    qed simp_all
    show "op_ord_cmp b a = Some (reverse_ordering r)" if r: "op_ord_cmp a b = Some r" for r
    proof (cases a; cases b)
      fix w ty n i w' ty' n' i' assume "a = TransitionOrd w ty n i" "b = TransitionOrd w' ty' n' i'"
      then show ?thesis
        using comparison.sym [OF c P(1), of "(w, ty, n, i)" "(w', ty', n', i')" r] P r by simp
    qed (use r in auto)
  next
    fix P a b d r s assume P: "heights_agree P" "op_ord_in P a" "op_ord_in P b" "op_ord_in P d"
      and o: "op_ord_cmp a b = Some r" "op_ord_cmp b d = Some s" "r \<noteq> OGreater" "s \<noteq> OGreater"
    show "op_ord_cmp a d = Some (if r = OEqual then s else OLess)"
    proof (cases "a = GenesisOrd \<or> b = GenesisOrd \<or> d = GenesisOrd")
      case True
      then show ?thesis using o by (cases a; cases b; cases d; simp)
    next
      case False
      then obtain w ty n i w' ty' n' i' w'' ty'' n'' i'' where
        "a = TransitionOrd w ty n i" "b = TransitionOrd w' ty' n' i'" "d = TransitionOrd w'' ty'' n'' i''"
        by (meson OpOrd.exhaust)
      then show ?thesis
        using comparison.trans [OF c P(1), of "(w, ty, n, i)" "(w', ty', n', i')" "(w'', ty'', n'', i'')" r s] P o
        by simp
    qed
  qed
qed

interpretation global_order: comparison heights_agree "\<lambda>P g. op_ord_in P (go_op_ord g)" global_ord_cmp
  unfolding global_ord_cmp_def
  by (intro comparison_then comparison_key [OF _ op_order.comparison_axioms]
      comparison_key [where domn' = "\<lambda>_ _. True", OF _ cmp_comparison]) auto

interpretation entry_order: comparison heights_agree "\<lambda>P e. op_ord_in P (go_op_ord (gse_ord e))" global_state_entry_cmp
  unfolding global_state_entry_cmp_def
  by (intro comparison_then comparison_key [OF _ global_order.comparison_axioms]
      comparison_key [where domn' = "\<lambda>_ _. True", OF _ bytes_comparison]) auto

end
