(* ===== verification/Validator_Properties.thy ===== *)
theory Validator_Properties
  imports Validator_Demo Contract_Order
begin

text \<open>
  What validation of a consignment promises: outputs are spent once and only after they were
  assigned, every transition is anchored in a transaction that spends the seals of its inputs,
  operations conform to the schema, and validation returns.  Two statements record where the
  code falls short of its contract.
\<close>

text \<open>A virtual machine that accepts every script, and types that admit every value.\<close>

definition accept_venv :: "(unit, LibId, unit) VmEnv" where
  "accept_venv =
     \<lparr> deserializes = (\<lambda>_ _ _. True), hash_iter = rev, lib_id = id, exec_script = (\<lambda>_ _ _ _. Some (True, None)),
       evolve_state = (\<lambda>s _. Some s) \<rparr>"

lemma accept_hash_iter: "hash_iter_ok accept_venv"
  by (simp add: hash_iter_ok_def accept_venv_def)

lemma accept_run:
  "validate_run accept_venv demo_chain (demo_consignment 3) demo_resolver () (demo_config safe) = POk (demo_end 3 () safe)"
  by (rule demo_run [OF accept_hash_iter]) (simp_all add: accept_venv_def)

lemma demo_btc_field: "ce_btc demo_chain = demo_btc"
  by (simp add: demo_chain_def)

lemma demo_history: "history (demo_consignment l) =
    [(demo_tx_bundle, demo_anchor, 77, \<lparr> kt_opid = 2, kt_transition = demo_transfer \<rparr>)]"
  by (simp add: history_def bundle_steps_def demo_consignment_def demo_tx_bundle_def)


section \<open>History\<close>

text \<open>C1: A validated history spends nothing twice and nothing that does not exist.  When
  \<open>validate\<close> accepts a consignment, all inputs of all its transitions are different, and each
  input was assigned, with a revealed seal, by the genesis or by a transition that comes
  earlier in the consignment.\<close>

theorem validated_history_spends_once:
  assumes "validate v E cons R s cfg = POk rpt"
  shows "distinct (spent (history cons))
    \<and> (\<forall>i < length (history cons). \<forall>inp \<in> set (step_inputs (history cons ! i)).
         \<exists>a seal st. assigned_by E cons (take i (history cons)) inp a \<and> as_revealed a = Some (seal, st))"
proof -
  obtain V where "validate_run v E cons R s cfg = POk V" using assms by (auto simp: validate_def res_simps)
  then have h: "history_inv v E cons R (history cons) V" by (rule hist.run)
  have "\<exists>a seal st. assigned_by E cons (take i (history cons)) inp a \<and> as_revealed a = Some (seal, st)"
    if "i < length (history cons)" "inp \<in> set (step_inputs (history cons ! i))" for i inp
  proof -
    have "step_closed E cons R (take i (history cons)) (history cons ! i)" using h that(1) by (simp add: history_inv_def)
    then show ?thesis
      using that(2) by (cases "history cons ! i") (fastforce simp: step_closed_def step_inputs_def)
  qed
  then show ?thesis using h by (simp add: history_inv_def)
qed

theorem validated_history_spends_once_witness:
  "\<exists>rpt. validate accept_venv demo_chain (demo_consignment 3) demo_resolver () (demo_config None) = POk rpt
     \<and> (\<exists>a seal st. assigned_by demo_chain (demo_consignment 3 :: (unit, LibId) Consignment) [] (Opout 255 4000 0) a
          \<and> as_revealed a = Some (seal, st))"
proof -
  have v: "validate accept_venv demo_chain (demo_consignment 3) demo_resolver () (demo_config None)
      = POk (v_status (demo_end (3 :: LibId) () None))"
    by (simp add: validate_def accept_run)
  show ?thesis
    using validated_history_spends_once [OF v] v
    by (simp add: demo_history step_inputs_def demo_transfer_def)
qed

text \<open>C2: Every validated transition is anchored.  When \<open>validate\<close> accepts a consignment, each
  of its transitions has the identifier and the contract it claims; its witness transaction was
  resolved and is not archived; the anchor commits that transaction to the bundle under the
  contract; the input map of the bundle assigns every input to the transition; and the
  transaction spends the outpoint of the seal of every input.\<close>

theorem validated_transitions_anchored:
  assumes "validate v E cons R s cfg = POk rpt" "i < length (history cons)" "history cons ! i = (b, an, w, kt)"
  shows "\<exists>tx ord cid c.
      checked_resolve_witness (ce_txid E) R w = Ok (Resolved tx ord) \<and> ce_txid E tx = w \<and> ord \<noteq> Archived
    \<and> genesis_id (ce_enc E) (c_genesis cons) = Some cid \<and> t_contract_id (kt_transition kt) = cid
    \<and> transition_id (ce_enc E) (kt_transition kt) = Some (kt_opid kt)
    \<and> anchor_verify (ce_node_hash E) (ce_leaf_hash E) (ce_conceal_hash E) (dbc_verify (ce_btc E)) an cid
        (bundle_id (ce_enc E) b) tx = Some (Ok c)
    \<and> (\<forall>inp \<in> set (t_inputs (kt_transition kt)). omap_get (input_map b) inp = Some (kt_opid kt)
         \<and> (\<exists>a seal st. assigned_by E cons (take i (history cons)) inp a \<and> as_revealed a = Some (seal, st)
              \<and> to_outpoint seal \<in> previous_output ` set (tx_input tx)))"
proof -
  obtain V where "validate_run v E cons R s cfg = POk V" using assms(1) by (auto simp: validate_def res_simps)
  then have "step_closed E cons R (take i (history cons)) (b, an, w, kt)"
    using hist.run assms(2,3) by (fastforce simp: history_inv_def)
  then show ?thesis unfolding step_closed_def prod.case using resolved_txid by blast
qed

theorem validated_transitions_anchored_witness:
  "(\<exists>rpt. validate accept_venv demo_chain (demo_consignment 3) demo_resolver () (demo_config None) = POk rpt)
   \<and> (\<exists>tx ord. checked_resolve_witness (ce_txid demo_chain) demo_resolver 77 = Ok (Resolved tx ord)
        \<and> (\<exists>i \<in> set (tx_input tx). previous_output i = outpoint_new 1 0))"
proof -
  have v: "validate accept_venv demo_chain (demo_consignment 3) demo_resolver () (demo_config None)
      = POk (v_status (demo_end (3 :: LibId) () None))"
    by (simp add: validate_def accept_run)
  have "\<exists>tx ord. checked_resolve_witness (ce_txid demo_chain) demo_resolver 77 = Ok (Resolved tx ord)
        \<and> (\<exists>a seal st. assigned_by demo_chain (demo_consignment 3 :: (unit, LibId) Consignment) [] (Opout 255 4000 0) a
           \<and> as_revealed a = Some (seal, st) \<and> to_outpoint seal \<in> previous_output ` set (tx_input tx))"
    using validated_transitions_anchored [OF v, of 0 demo_tx_bundle demo_anchor 77 "\<lparr> kt_opid = 2, kt_transition = demo_transfer \<rparr>"]
    by (simp add: demo_history) (auto simp: demo_transfer_def)
  moreover have "to_outpoint seal = outpoint_new 1 0"
    if "assigned_by demo_chain (demo_consignment 3 :: (unit, LibId) Consignment) [] (Opout 255 4000 0) a"
      "as_revealed a = Some (seal, st)" for a seal st
    using that by (auto simp: assigned_by_def demo_consignment_def demo_genesis_def to_revealed_assign_at_def revealed_at_def
        vec_get_def genesis_with_witness_id_def to_outpoint_def with_blinding_def)
  ultimately show ?thesis using v by auto
qed

text \<open>C3: A witness transaction commits to one bundle of a contract.  When two accepted
  consignments of one contract, or two parts of one consignment, use the same witness with the
  same closing method, their bundles have the same identifier, unless hashes of the two
  commitments collide.\<close>

theorem witness_commits_to_one_bundle:
  assumes "btc_ok (ce_btc E)" "genesis_id (ce_enc E) (c_genesis cons) = Some cid" "genesis_id (ce_enc E) (c_genesis cons') = Some cid"
    and "validate v E cons R s cfg = POk rpt" "validate v' E cons' R s' cfg' = POk rpt'"
    and "(b, an, w, kt) \<in> set (history cons)" "(b', an', w, kt') \<in> set (history cons')"
    and "dbc_method (dbc_proof an) = dbc_method (dbc_proof an')"
  shows "bundle_id (ce_enc E) b = bundle_id (ce_enc E) b'
    \<or> (\<exists>c c'. convolve (ce_node_hash E) (ce_leaf_hash E) (ce_conceal_hash E) (mpc_proof an) cid (bundle_id (ce_enc E) b) = Some (Ok c)
         \<and> convolve (ce_node_hash E) (ce_leaf_hash E) (ce_conceal_hash E) (mpc_proof an') cid (bundle_id (ce_enc E) b') = Some (Ok c')
         \<and> dbc_collision (ce_btc E) (dbc_proof an) c (dbc_proof an') c')
    \<or> (\<exists>bl bl'. block_with (mpc_proof an) cid (bundle_id (ce_enc E) b) = Some (Ok bl)
         \<and> block_with (mpc_proof an') cid (bundle_id (ce_enc E) b') = Some (Ok bl')
         \<and> block_collision (ce_node_hash E) (ce_leaf_hash E) (ce_conceal_hash E) bl bl')"
proof -
  obtain V V' where V: "validate_run v E cons R s cfg = POk V" "validate_run v' E cons' R s' cfg' = POk V'"
    using assms(4,5) by (auto simp: validate_def res_simps)
  obtain i j where "step_closed E cons R (take i (history cons)) (b, an, w, kt)"
    "step_closed E cons' R (take j (history cons')) (b', an', w, kt')"
    using hist.run [OF V(1)] hist.run [OF V(2)] assms(6,7) unfolding history_inv_def in_set_conv_nth by metis
  then obtain tx c c' where a:
    "anchor_verify (ce_node_hash E) (ce_leaf_hash E) (ce_conceal_hash E) (dbc_verify (ce_btc E)) an cid
        (bundle_id (ce_enc E) b) tx = Some (Ok c)"
    "anchor_verify (ce_node_hash E) (ce_leaf_hash E) (ce_conceal_hash E) (dbc_verify (ce_btc E)) an' cid
        (bundle_id (ce_enc E) b') tx = Some (Ok c')"
    using assms(2,3) unfolding step_closed_def prod.case by auto
  then show ?thesis using anchors_bind [OF assms(1,8) a] unfolding anchor_verify_Ok by blast
qed

theorem witness_commits_to_one_bundle_witness:
  "\<exists>rpt. validate accept_venv demo_chain (demo_consignment 3) demo_resolver () (demo_config None) = POk rpt
     \<and> {(b, an) | rpt' b an kt (cons' :: (unit, LibId) Consignment).
          genesis_id demo_id_enc (c_genesis cons') = Some 255
          \<and> validate accept_venv demo_chain cons' demo_resolver () (demo_config None) = POk rpt'
          \<and> (b, an, 77, kt) \<in> set (history cons') \<and> dbc_method (dbc_proof an) = OpretFirst}
        \<subseteq> {(b, an). bundle_id demo_id_enc b = 9
           \<or> (\<exists>c'. convolve (ce_node_hash demo_chain) (ce_leaf_hash demo_chain) (ce_conceal_hash demo_chain) (mpc_proof an) 255
                 (bundle_id demo_id_enc b) = Some (Ok c') \<and> dbc_collision demo_btc (dbc_proof demo_anchor) 9 (dbc_proof an) c')
           \<or> (\<exists>bl bl'. block_with one_leaf_proof 255 9 = Some (Ok bl)
                 \<and> block_with (mpc_proof an) 255 (bundle_id demo_id_enc b) = Some (Ok bl')
                 \<and> block_collision (ce_node_hash demo_chain) (ce_leaf_hash demo_chain) (ce_conceal_hash demo_chain) bl bl')}"
proof -
  have v: "validate accept_venv demo_chain (demo_consignment 3) demo_resolver () (demo_config None)
      = POk (v_status (demo_end (3 :: LibId) () None))"
    by (simp add: validate_def accept_run)
  have g: "genesis_id (ce_enc demo_chain) (c_genesis (demo_consignment 3 :: (unit, LibId) Consignment)) = Some 255"
    by (simp add: demo_simps)
  have B: "btc_ok (ce_btc demo_chain)" by (simp add: demo_chain_def demo_btc_ok)
  have an: "mpc_proof demo_anchor = one_leaf_proof" "dbc_method (dbc_proof demo_anchor) = OpretFirst"
    by (simp_all add: demo_anchor_def anchor_new_def)
  have c: "convolve (ce_node_hash demo_chain) (ce_leaf_hash demo_chain) (ce_conceal_hash demo_chain) one_leaf_proof 255 9 = Some (Ok 9)"
    by (simp add: one_leaf_convolve demo_chain_def)
  have m: "(demo_tx_bundle, demo_anchor, 77, \<lparr> kt_opid = 2, kt_transition = demo_transfer \<rparr>)
      \<in> set (history (demo_consignment 3 :: (unit, LibId) Consignment))"
    by (simp add: demo_history)
  have "bundle_id demo_id_enc b = 9
      \<or> (\<exists>c'. convolve (ce_node_hash demo_chain) (ce_leaf_hash demo_chain) (ce_conceal_hash demo_chain) (mpc_proof an) 255
             (bundle_id demo_id_enc b) = Some (Ok c') \<and> dbc_collision demo_btc (dbc_proof demo_anchor) 9 (dbc_proof an) c')
      \<or> (\<exists>bl bl'. block_with one_leaf_proof 255 9 = Some (Ok bl)
             \<and> block_with (mpc_proof an) 255 (bundle_id demo_id_enc b) = Some (Ok bl')
             \<and> block_collision (ce_node_hash demo_chain) (ce_leaf_hash demo_chain) (ce_conceal_hash demo_chain) bl bl')"
    if "genesis_id demo_id_enc (c_genesis cons') = Some 255
          \<and> validate accept_venv demo_chain cons' demo_resolver () (demo_config None) = POk rpt'
          \<and> (b, an, 77, kt) \<in> set (history cons') \<and> dbc_method (dbc_proof an) = OpretFirst"
    for rpt' b an kt and cons' :: "(unit, LibId) Consignment"
    using that witness_commits_to_one_bundle [OF B g _ v _ m, of cons' accept_venv "()" "demo_config None" rpt' b an kt] an c
    by (simp add: demo_chain_fields demo_bundle_id demo_btc_field)
  then show ?thesis using v by (intro exI conjI subsetI) (assumption, fast)
qed



section \<open>Schema conformance\<close>

text \<open>C5: Validation of an operation decides conformance.  \<open>validate_state\<close> accepts exactly the
  operations that have exactly the metadata the schema asks for, global state and assignments
  of known types, in numbers within the schema's bounds and with values of the declared types,
  inputs in allowed numbers, and that the validation script, when there is one, accepts with
  a library present under its own identifier and a contract state that can evolve.\<close>

theorem validate_state_decides_conformance:
  fixes v :: "('ty, 'lib, 's) VmEnv"
  assumes "hash_iter_ok v"
  shows "validate_state c v s types scripts genesis p st prev = POk st' \<longleftrightarrow>
    (\<exists>opid r cid. operation_id c (ord_op p) = Some opid \<and> op_rules s opid p = (Ok r :: ('ty ValidationError, _) result)
       \<and> op_conforms v s types r p prev \<and> genesis_id c genesis = Some cid
       \<and> script_accepts v scripts r p
           \<lparr> vc_contract_id = cid, vc_op_info = op_info_with opid p prev, vc_contract_state = st \<rparr> st')"
  using assms by (rule validate_state_Ok)

theorem validate_state_decides_conformance_witness:
  "validate_state demo_id_enc accept_venv demo_schema [] [(3, 3)] demo_genesis demo_op () demo_prev = POk ()
   \<and> (\<exists>opid r. operation_id demo_id_enc (ord_op demo_op) = Some opid
        \<and> op_rules demo_schema opid demo_op = (Ok r :: (unit ValidationError, _) result)
        \<and> op_conforms accept_venv demo_schema [] r demo_op demo_prev)"
proof -
  have v: "validate_state demo_id_enc accept_venv demo_schema [] [(3, 3)] demo_genesis demo_op () demo_prev = POk ()"
    by (rule demo_transfer_state [OF accept_hash_iter]) (simp_all add: accept_venv_def)
  then show ?thesis
    using validate_state_decides_conformance [OF accept_hash_iter, of demo_id_enc demo_schema "[]" "[(3, 3)]" demo_genesis demo_op "()"
        demo_prev "()"] by blast
qed

section \<open>Termination and panics\<close>



text \<open>C34: An inclusion proof with 32 hashes makes validation panic.  The type of proofs admits
  32 hashes, the counter of the tree depth does not: closing the seals of any transition with
  such a proof panics, whatever the witness, the seals and the bundle.\<close>

theorem seal_closing_panics:
  assumes "length (mp_path mpf) = 32"
  shows "validate_seal_closing E cid seals bid w mpf = None"
  using assms by (simp add: validate_seal_closing_def anchor_convolve_def anchor_new_def convolve_def block_with_def)

theorem seal_closing_panics_witness:
  "validate_seal_closing demo_chain 255 [] 9 (witness_with (ce_txid demo_chain) demo_witness (dbc_proof demo_anchor))
     \<lparr> mp_pos = 0, mp_cofactor = 0, mp_path = replicate 32 0 \<rparr> = (None :: (unit ValidationError, unit) presult)"
  by (rule seal_closing_panics) simp

text \<open>C33: A transaction can close seals over two bundles.  The validator takes any output of the
  closing method of a proof, not the first output that can hold a commitment; a transaction
  with a taproot output that commits to one bundle and an \<open>OP_RETURN\<close> output that commits to
  another closes the same seals for both.\<close>

theorem seal_closing_equivocates:
  fixes E :: "'d ChainEnv" and seals :: "GenesisSeal list"
  assumes "btc_ok (ce_btc E)"
    and "convolve (ce_node_hash E) (ce_leaf_hash E) (ce_conceal_hash E) mpf cid bid = Some (Ok c)"
    and "convolve (ce_node_hash E) (ce_leaf_hash E) (ce_conceal_hash E) mpf' cid bid' = Some (Ok c')"
    and "tapret_output_key (ce_btc E) pf c = Some k"
    and "tx_output tx = [\<lparr> tx_value = v, script_pubkey = new_p2tr_tweaked (ce_btc E) k \<rparr>,
      \<lparr> tx_value = v', script_pubkey = new_op_return (ce_btc E) (hash_bytes c') \<rparr>]"
    and "\<forall>s \<in> set seals. to_outpoint s \<in> previous_output ` set (tx_input tx)"
  shows "validate_seal_closing E cid seals bid (witness_with (ce_txid E) tx (TapretDbc pf)) mpf
      = (POk () :: ('ty ValidationError, unit) presult)
    \<and> validate_seal_closing E cid seals bid' (witness_with (ce_txid E) tx (OpretDbc OpretProof)) mpf'
      = (POk () :: ('ty ValidationError, unit) presult)"
proof -
  have "is_p2tr (ce_btc E) (new_p2tr_tweaked (ce_btc E) k)" "\<not> is_op_return (ce_btc E) (new_p2tr_tweaked (ce_btc E) k)"
    "is_op_return (ce_btc E) (new_op_return (ce_btc E) (hash_bytes c'))"
    using btc_okD(2,6) [OF assms(1)] op_return_msg(1) [OF assms(1)] by blast+
  then have "dbc_output_matches_method (ce_btc E) (tx_output tx) TapretFirst = Some True"
    "dbc_output_matches_method (ce_btc E) (tx_output tx) OpretFirst = Some True"
    by (simp_all add: dbc_output_matches_method_def assms(5))
  then show ?thesis
    unfolding seal_closing_Ok
    using both_methods_verify [OF assms(1,4,5)] assms(2,3,6) by (simp add: witness_with_def)
qed

theorem seal_closing_equivocates_witness:
  "\<exists>tx pf. validate_seal_closing demo_chain 255 [demo_seal] 9 (witness_with (ce_txid demo_chain) tx (TapretDbc pf)) one_leaf_proof
       = (POk () :: (unit ValidationError, unit) presult)
     \<and> validate_seal_closing demo_chain 255 [demo_seal] 10 (witness_with (ce_txid demo_chain) tx (OpretDbc OpretProof)) one_leaf_proof
       = (POk () :: (unit ValidationError, unit) presult)"
proof -
  have c: "convolve (ce_node_hash demo_chain) (ce_leaf_hash demo_chain) (ce_conceal_hash demo_chain) one_leaf_proof 255 m = Some (Ok m)"
    for m by (simp add: one_leaf_convolve demo_chain_def)
  have k: "tapret_output_key (ce_btc demo_chain) demo_tapret 9 = Some (7 + 0xC0)"
    by (simp add: tapret_output_key_def xonly_convolve_commit_def demo_btc_field demo_btc_def demo_tapret_def path_root_def)
  let ?tx = "\<lparr> tx_version = 2, lock_time = 0, tx_input = [\<lparr> previous_output = outpoint_new 1 0 \<rparr>],
      tx_output = [\<lparr> tx_value = 1, script_pubkey = new_p2tr_tweaked (ce_btc demo_chain) (7 + 0xC0) \<rparr>,
        \<lparr> tx_value = 0, script_pubkey = new_op_return (ce_btc demo_chain) (hash_bytes 10) \<rparr>] \<rparr> :: Tx"
  have o': "tx_output ?tx = [\<lparr> tx_value = 1, script_pubkey = new_p2tr_tweaked (ce_btc demo_chain) (7 + 0xC0) \<rparr>,
        \<lparr> tx_value = 0, script_pubkey = new_op_return (ce_btc demo_chain) (hash_bytes 10) \<rparr>]" by simp
  have s: "\<forall>s \<in> set [demo_seal]. to_outpoint s \<in> previous_output ` set (tx_input ?tx)"
    by (simp add: demo_seal_def to_outpoint_def with_blinding_def)
  have B: "btc_ok (ce_btc demo_chain)" by (simp add: demo_btc_field demo_btc_ok)
  show ?thesis
    using seal_closing_equivocates [OF B c c k o' s] by blast
qed

section \<open>Report\<close>

text \<open>C10: The report is accurate.  When \<open>validate\<close> accepts, it warns exactly when a safe height
  was requested and some witness is mined above it or not mined at all, and its map of witness
  transactions holds exactly the witnesses of the consignment with the order they resolved to.\<close>

theorem validation_report:
  assumes "validate v E cons R s cfg = POk rpt"
  shows "(validity rpt = Warnings \<longleftrightarrow>
      (\<exists>safe b an w ord. vcfg_safe_height cfg = Some safe \<and> (b, an, w) \<in> set (bundles_info cons) \<and> resolves_to E R w ord
         \<and> (case ord of Mined pos \<Rightarrow> wp_height pos > safe | _ \<Rightarrow> True)))
    \<and> (\<forall>w ord. omap_get (tx_ord_map rpt) w = Some ord
         \<longleftrightarrow> (\<exists>b an. (b, an, w) \<in> set (bundles_info cons)) \<and> resolves_to E R w ord)"
proof -
  have w: "w \<in> (snd \<circ> snd) ` set (bundles_info cons) \<longleftrightarrow> (\<exists>b an. (b, an, w) \<in> set (bundles_info cons))" for w
    by force
  have u: "(\<exists>h. unsafe_at safe ord = Some h) \<longleftrightarrow> (case ord of Mined pos \<Rightarrow> wp_height pos > safe | _ \<Rightarrow> True)" for safe ord
    by (cases ord) auto
  have "(\<exists>h. unsafe_witnesses E R (vcfg_safe_height cfg) (bundles_info cons) h \<noteq> {}) \<longleftrightarrow>
      (\<exists>safe b an w ord. vcfg_safe_height cfg = Some safe \<and> (b, an, w) \<in> set (bundles_info cons) \<and> resolves_to E R w ord
         \<and> (case ord of Mined pos \<Rightarrow> wp_height pos > safe | _ \<Rightarrow> True))"
    unfolding unsafe_witnesses_def w u [symmetric] by blast
  then show ?thesis using report [OF assms] unfolding validity_def w by simp
qed

theorem validation_report_witness:
  "(\<exists>rpt. validate accept_venv demo_chain (demo_consignment 3) demo_resolver () (demo_config (Some 99)) = POk rpt
      \<and> validity rpt = Warnings)
   \<and> (\<exists>rpt. validate accept_venv demo_chain (demo_consignment 3) demo_resolver () (demo_config (Some 100)) = POk rpt
      \<and> validity rpt = Valid)"
proof -
  have v: "validate accept_venv demo_chain (demo_consignment 3) demo_resolver () (demo_config safe)
      = POk (v_status (demo_end (3 :: LibId) () safe))" for safe
    by (simp add: validate_def accept_run)
  have r: "resolves_to demo_chain demo_resolver 77 ord \<longleftrightarrow> ord = demo_ord" for ord
    by (auto simp: resolves_to_def checked_resolve_witness_def demo_resolver_def demo_chain_def demo_witness_def demo_tx_def)
  have "validity (v_status (demo_end (3 :: LibId) () (Some 99))) = Warnings"
    "validity (v_status (demo_end (3 :: LibId) () (Some 100))) \<noteq> Warnings"
    using validation_report [OF v, of "Some 99"] validation_report [OF v, of "Some 100"]
    by (simp_all add: demo_config_def demo_consignment_def r demo_ord_def)
  then show ?thesis using v Validity.exhaust by blast
qed

section \<open>Consensus order\<close>

text \<open>C11: The order of global state is an order where chains are consistent.  On entries whose
  witness positions have heights that agree with their timestamps, the comparison never
  panics, reverses when its arguments are swapped, and is transitive.\<close>

theorem global_state_order:
  assumes "heights_agree P" "op_ord_in P (go_op_ord (gse_ord a))" "op_ord_in P (go_op_ord (gse_ord b))"
    "op_ord_in P (go_op_ord (gse_ord c))"
  shows "(\<exists>r. global_state_entry_cmp a b = Some r \<and> global_state_entry_cmp b a = Some (reverse_ordering r))
    \<and> global_state_entry_cmp a a = Some OEqual
    \<and> (global_state_entry_cmp a b \<noteq> Some OGreater \<and> global_state_entry_cmp b c = Some OLess
        \<longrightarrow> global_state_entry_cmp a c = Some OLess)"
proof -
  obtain r where r: "global_state_entry_cmp a b = Some r" using entry_order.total [OF assms(1-3)] by blast
  then have "global_state_entry_cmp b a = Some (reverse_ordering r)" by (rule entry_order.sym [OF assms(1-3)])
  moreover have "global_state_entry_cmp a c = Some OLess" if "r \<noteq> OGreater" "global_state_entry_cmp b c = Some OLess"
    using entry_order.trans [OF assms r that(2,1)] by simp
  ultimately show ?thesis using r entry_order.refl [OF assms(1,2)] by blast
qed

definition demo_entry :: "Layer1 \<Rightarrow> u32 \<Rightarrow> int \<Rightarrow> GlobalStateEntry" where
  "demo_entry l h t = \<lparr> gse_ord = global_ord_transition 1 0 10000 0 (Mined \<lparr> wp_layer1 = l, wp_height = h, wp_timestamp = t \<rparr>),
     gse_data = [] \<rparr>"

theorem global_state_order_witness:
  "global_state_entry_cmp (demo_entry Bitcoin 5 1300000000) (demo_entry Bitcoin 6 1300000600) = Some OLess
   \<and> global_state_entry_cmp (demo_entry Bitcoin 5 1300000000) (demo_entry Liquid 1 1300001500) = Some OLess"
proof -
  let ?P = "{\<lparr> wp_layer1 = Bitcoin, wp_height = 5, wp_timestamp = 1300000000 \<rparr>,
      \<lparr> wp_layer1 = Bitcoin, wp_height = 6, wp_timestamp = 1300000600 \<rparr>,
      \<lparr> wp_layer1 = Liquid, wp_height = 1, wp_timestamp = 1300001500 \<rparr>} :: WitnessPos set"
  have P: "heights_agree ?P" by (simp add: heights_agree_def)
  have d: "op_ord_in ?P (go_op_ord (gse_ord (demo_entry Bitcoin 5 1300000000)))"
    "op_ord_in ?P (go_op_ord (gse_ord (demo_entry Bitcoin 6 1300000600)))"
    "op_ord_in ?P (go_op_ord (gse_ord (demo_entry Liquid 1 1300001500)))"
    by (simp_all add: demo_entry_def global_ord_transition_def)
  have "global_state_entry_cmp (demo_entry Bitcoin 5 1300000000) (demo_entry Bitcoin 6 1300000600) = Some OLess"
    "global_state_entry_cmp (demo_entry Bitcoin 6 1300000600) (demo_entry Liquid 1 1300001500) = Some OLess"
    by (simp_all add: demo_entry_def global_ord_transition_def global_state_entry_cmp_def global_ord_cmp_def witness_pos_cmp_def
        cmp_def BLOCK_TIME_def)
  then show ?thesis using global_state_order [OF P d] by simp
qed


end
