(* ===== verification/Alu_Number.thy ===== *)
theory Alu_Number
  imports Contract_State "HOL-Library.Monad_Syntax"
begin

text \<open>
  Numbers of the virtual machine (\<open>rgb-aluvm/src/data/\<close>: \<open>number.rs\<close>, \<open>arithm.rs\<close>,
  \<open>bitwise.rs\<close>).  A \<open>Number\<close> is a layout and an array of 1024 bytes; the array is modelled by the
  natural number it encodes in little endian, so that byte \<open>i\<close> is bits \<open>8 i\<close> to \<open>8 i + 7\<close>.
  Lengths are at most 1024, so arithmetic on them stays within \<open>u16\<close>.  A computation that panics is
  \<open>None\<close>; an operation that itself returns an option gives \<open>Some None\<close> for the absent result.
  The wide integers and the floating point types come from other crates: \<open>u1024\<close> and
  \<open>i1024\<close> are bounded integers with the checked operations of the standard library, and the
  floating point types, the shift of a negative \<open>i1024\<close> and the digests of the hashing
  instructions are the parameter \<open>AluLib\<close>.
\<close>

unbundle bit_operations_syntax

named_theorems alu_simps \<open>layouts and widths\<close>

section \<open>Layouts\<close>

datatype FloatLayout =
  BFloat16 | IeeeHalf | IeeeSingle | IeeeDouble | X87DoubleExt | IeeeQuad | IeeeOct | FloatTapered

record IntLayout =
  il_signed :: bool
  il_bytes :: nat

datatype Layout = IntegerLayout IntLayout | FloatLayout FloatLayout

fun float_layout_bytes :: "FloatLayout \<Rightarrow> nat" where
  "float_layout_bytes BFloat16 = 2"
| "float_layout_bytes IeeeHalf = 2"
| "float_layout_bytes IeeeSingle = 4"
| "float_layout_bytes IeeeDouble = 8"
| "float_layout_bytes X87DoubleExt = 10"
| "float_layout_bytes IeeeQuad = 16"
| "float_layout_bytes IeeeOct = 32"
| "float_layout_bytes FloatTapered = 64"

fun layout_bytes :: "Layout \<Rightarrow> nat" where
  "layout_bytes (IntegerLayout il) = il_bytes il"
| "layout_bytes (FloatLayout fl) = float_layout_bytes fl"

definition layout_bits :: "Layout \<Rightarrow> nat" where
  "layout_bits l = layout_bytes l * 8"

definition signed_layout :: "nat \<Rightarrow> Layout" where
  "signed_layout b = IntegerLayout \<lparr> il_signed = True, il_bytes = b \<rparr>"

definition unsigned_layout :: "nat \<Rightarrow> Layout" where
  "unsigned_layout b = IntegerLayout \<lparr> il_signed = False, il_bytes = b \<rparr>"

fun is_unsigned_int :: "Layout \<Rightarrow> bool" where
  "is_unsigned_int (IntegerLayout il) = (\<not> il_signed il)"
| "is_unsigned_int (FloatLayout _) = False"

fun is_signed_int :: "Layout \<Rightarrow> bool" where
  "is_signed_int (IntegerLayout il) = il_signed il"
| "is_signed_int (FloatLayout _) = False"

fun is_float :: "Layout \<Rightarrow> bool" where
  "is_float (IntegerLayout _) = False"
| "is_float (FloatLayout _) = True"

fun layout_into_signed :: "Layout \<Rightarrow> Layout" where
  "layout_into_signed (IntegerLayout il) = IntegerLayout (il\<lparr> il_signed := True \<rparr>)"
| "layout_into_signed l = l"

fun layout_into_unsigned :: "Layout \<Rightarrow> Layout" where
  "layout_into_unsigned (IntegerLayout il) = IntegerLayout (il\<lparr> il_signed := False \<rparr>)"
| "layout_into_unsigned l = l"

definition il_using_sign :: "IntLayout \<Rightarrow> IntLayout \<Rightarrow> IntLayout" where
  "il_using_sign il other = il\<lparr> il_signed := il_signed other \<rparr>"

text \<open>The receiver of the inner call is the other layout, whose length the result takes.\<close>

fun using_sign :: "Layout \<Rightarrow> Layout \<Rightarrow> Layout" where
  "using_sign (IntegerLayout il) (IntegerLayout il2) = IntegerLayout (il_using_sign il2 il2)"
| "using_sign l _ = l"

text \<open>The number of significant bits.\<close>

fun bit_len :: "nat \<Rightarrow> nat" where
  "bit_len n = (if n = 0 then 0 else Suc (bit_len (n div 2)))"

declare bit_len.simps [simp del]

definition fits_usize :: "IntLayout \<Rightarrow> nat \<Rightarrow> bool" where
  "fits_usize il v = (il_bytes il * 8 \<ge> bit_len v)"

section \<open>Numbers\<close>

record Number =
  num_layout :: Layout
  num_val :: nat

type_synonym MaybeNumber = "Number option"

definition num_len :: "Number \<Rightarrow> nat" where
  "num_len n = layout_bytes (num_layout n)"

definition num_byte :: "Number \<Rightarrow> nat \<Rightarrow> nat" where
  "num_byte n i = take_bit 8 (drop_bit (8 * i) (num_val n))"

definition num_slice :: "Number \<Rightarrow> nat list" where
  "num_slice n = map (num_byte n) [0..<num_len n]"

definition number_zero :: "Layout \<Rightarrow> Number" where
  "number_zero l = \<lparr> num_layout = l, num_val = 0 \<rparr>"

definition masked_bit :: "nat \<Rightarrow> Layout \<Rightarrow> Number" where
  "masked_bit k l = \<lparr> num_layout = l, num_val = 2 ^ k \<rparr>"

fun le_val :: "bytes \<Rightarrow> nat" where
  "le_val [] = 0"
| "le_val (b # bs) = unat b + 256 * le_val bs"

text \<open>\<open>bytes[0..len].copy_from_slice\<close> panics for a slice longer than the array.\<close>

definition from_slice :: "bytes \<Rightarrow> Number option" where
  "from_slice bs =
     (if length bs > 1024 then None
      else Some \<lparr> num_layout = unsigned_layout (length bs), num_val = le_val bs \<rparr>)"

text \<open>\<open>Number::with\<close> returns an option of its own.\<close>

definition number_with :: "bytes \<Rightarrow> Layout \<Rightarrow> Number option option" where
  "number_with bs l =
     (if length bs \<noteq> layout_bytes l then Some None
      else map_option (\<lambda>me. Some (me\<lparr> num_layout := l \<rparr>)) (from_slice bs))"

definition to_clean :: "Number \<Rightarrow> Number" where
  "to_clean n = n\<lparr> num_val := take_bit (8 * num_len n) (num_val n) \<rparr>"

definition into_signed :: "Number \<Rightarrow> Number" where
  "into_signed n = n\<lparr> num_layout := layout_into_signed (num_layout n) \<rparr>"

definition into_unsigned :: "Number \<Rightarrow> Number" where
  "into_unsigned n = n\<lparr> num_layout := layout_into_unsigned (num_layout n) \<rparr>"

definition count_ones :: "Number \<Rightarrow> nat" where
  "count_ones n = (\<Sum>b\<leftarrow>num_slice n. length (filter (bit b) [0..<8]))"

text \<open>Clearing the sign of a float clears the top bit of its last byte.\<close>

definition is_zero :: "Number \<Rightarrow> bool" where
  "is_zero n =
     (num_val (to_clean n) = 0 \<or> is_float (num_layout n) \<and> take_bit (8 * num_len n - 1) (num_val (to_clean n)) = 0)"

definition is_positive :: "Number \<Rightarrow> bool" where
  "is_positive n =
     (is_unsigned_int (num_layout n) \<or> \<not> is_zero n \<and> num_byte n (num_len n - 1) AND 0x80 = 0)"

definition is_negative :: "Number \<Rightarrow> bool" where
  "is_negative n = (\<not> is_zero n \<and> \<not> is_positive n)"

definition leading_zeros :: "nat \<Rightarrow> nat" where
  "leading_zeros b = 8 - bit_len b"

definition leading_ones :: "nat \<Rightarrow> nat" where
  "leading_ones b = 8 - bit_len (255 - b)"

definition min_bit_len :: "Number \<Rightarrow> nat" where
  "min_bit_len n =
     (if is_float (num_layout n) then layout_bits (num_layout n)
      else if num_len n = 0 then 0
      else
        let neg = is_negative n;
            empty_bytes = length (takeWhile (\<lambda>v. if neg then v = 0xff else v = 0) (rev (num_slice n)));
            index = (if num_len n > empty_bytes then num_len n - empty_bytes - 1 else 0);
            head_bits = (if neg then 8 - leading_ones (num_byte n index) else 8 - leading_zeros (num_byte n index))
        in index * 8 + head_bits + (if is_signed_int (num_layout n) then 1 else 0))"

section \<open>Conversions\<close>

text \<open>
  Conversion to a byte array of a given length copies as many bytes as the significant bits
  take.  A signed target is filled with the sign first and then takes all bytes of the number.
\<close>

definition to_array :: "nat \<Rightarrow> Number \<Rightarrow> nat option" where
  "to_array len n =
     (let l = (min_bit_len n + 7) div 8 in if l > len then None else Some (take_bit (8 * l) (num_val n)))"

definition from_array :: "nat \<Rightarrow> nat \<Rightarrow> Number" where
  "from_array len v = \<lparr> num_layout = unsigned_layout len, num_val = v \<rparr>"

definition to_uint :: "nat \<Rightarrow> Number \<Rightarrow> nat option" where
  "to_uint len n = (if min_bit_len n > len * 8 then None else to_array len n)"

definition to_sint :: "nat \<Rightarrow> Number \<Rightarrow> int option" where
  "to_sint len n =
     (if min_bit_len n > len * 8 \<or> num_len n = 0 \<or> num_len n > len then None
      else Some (int (num_val (to_clean n))
             - (if num_byte n (num_len n - 1) AND 0x80 = 0 then 0 else 2 ^ (8 * num_len n))))"

definition from_uint :: "nat \<Rightarrow> nat \<Rightarrow> Number" where
  "from_uint len v = \<lparr> num_layout = unsigned_layout len, num_val = v \<rparr>"

definition from_sint :: "nat \<Rightarrow> int \<Rightarrow> Number" where
  "from_sint len i = \<lparr> num_layout = signed_layout len, num_val = nat (i mod 2 ^ (8 * len)) \<rparr>"

definition to_u1024_bytes :: "Number \<Rightarrow> nat option" where
  "to_u1024_bytes n = to_uint 128 (to_clean n)"

definition to_i1024_bytes :: "Number \<Rightarrow> int option" where
  "to_i1024_bytes n = to_sint 128 (to_clean n)"

section \<open>What other crates provide\<close>

datatype RoundingFlag = TowardsZero | TowardsNearest | FloorRounding | CeilRounding

text \<open>
  A value of a floating point type is its bits.  An operation gives the bits of the result, or
  nothing when its status is neither exact nor inexact.  Comparison gives nothing for \<open>NaN\<close>.
  Conversion between float types goes through text and gives nothing when the text does not parse.
\<close>

record AluLib =
  fl_canon :: "FloatLayout \<Rightarrow> nat \<Rightarrow> nat"
  fl_is_nan :: "FloatLayout \<Rightarrow> nat \<Rightarrow> bool"
  fl_is_zero :: "FloatLayout \<Rightarrow> nat \<Rightarrow> bool"
  fl_cmp :: "FloatLayout \<Rightarrow> nat \<Rightarrow> nat \<Rightarrow> Ordering option"
  fl_add :: "FloatLayout \<Rightarrow> RoundingFlag \<Rightarrow> nat \<Rightarrow> nat \<Rightarrow> nat option"
  fl_sub :: "FloatLayout \<Rightarrow> RoundingFlag \<Rightarrow> nat \<Rightarrow> nat \<Rightarrow> nat option"
  fl_mul :: "FloatLayout \<Rightarrow> RoundingFlag \<Rightarrow> nat \<Rightarrow> nat \<Rightarrow> nat option"
  fl_div :: "FloatLayout \<Rightarrow> RoundingFlag \<Rightarrow> nat \<Rightarrow> nat \<Rightarrow> nat option"
  fl_convert :: "FloatLayout \<Rightarrow> FloatLayout \<Rightarrow> nat \<Rightarrow> nat option"
  fl_to_i256 :: "FloatLayout \<Rightarrow> nat \<Rightarrow> int \<times> bool"
  i1024_shr :: "int \<Rightarrow> nat \<Rightarrow> int"
  ripemd160 :: "bytes \<Rightarrow> bytes"
  sha2_256 :: "bytes \<Rightarrow> bytes"
  sha2_512 :: "bytes \<Rightarrow> bytes"
  blake3_hash :: "bytes \<Rightarrow> bytes"
  ecdsa_verify :: "bytes \<Rightarrow> bytes \<Rightarrow> bytes32 \<Rightarrow> bool"
  debug_assertions :: bool

text \<open>The bits of a number read as a float, and a float as a number.\<close>

definition to_float :: "AluLib \<Rightarrow> FloatLayout \<Rightarrow> Number \<Rightarrow> nat option" where
  "to_float A l n = map_option (fl_canon A l) (to_uint (float_layout_bytes l) n)"

definition from_float :: "AluLib \<Rightarrow> FloatLayout \<Rightarrow> nat \<Rightarrow> MaybeNumber" where
  "from_float A l b =
     (if fl_is_nan A l b then None
      else Some \<lparr> num_layout = FloatLayout l, num_val = (if fl_is_zero A l b then 0 else b) \<rparr>)"

section \<open>Changing the layout\<close>

definition int_reshape :: "Number \<Rightarrow> IntLayout \<Rightarrow> IntLayout \<Rightarrow> Number \<times> bool" where
  "int_reshape n from_l to_l =
     (if from_l = to_l then (n, True)
      else if il_signed from_l \<and> il_signed to_l \<and> \<not> is_positive n \<and> il_bytes from_l < il_bytes to_l then
        (let ones = push_bit (8 * il_bytes from_l) (mask (8 * (il_bytes to_l - il_bytes from_l)));
             low = take_bit (8 * il_bytes from_l) (num_val n)
         in (\<lparr> num_layout = IntegerLayout to_l, num_val = low + ones \<rparr>, True))
      else
        (to_clean (n\<lparr> num_layout := IntegerLayout to_l \<rparr>), min_bit_len n \<le> il_bytes to_l * 8))"

fun reshape :: "AluLib \<Rightarrow> Number \<Rightarrow> Layout \<Rightarrow> (Number \<times> bool) option" where
  "reshape A n to_l =
     (case (num_layout n, to_l) of
        (IntegerLayout f, IntegerLayout t) \<Rightarrow> Some (int_reshape n f t)
      | (FloatLayout f, FloatLayout t) \<Rightarrow>
          (if f = t then Some (n, True)
           else if f = IeeeOct \<or> f = FloatTapered \<or> t = IeeeOct \<or> t = FloatTapered then None
           else do {
             b \<leftarrow> to_float A f n;
             v \<leftarrow> fl_convert A f t b;
             n' \<leftarrow> from_float A t v;
             Some (n', False)
           })
      | (FloatLayout f, IntegerLayout t) \<Rightarrow>
          (if f = BFloat16 \<or> f = FloatTapered then None
           else do {
             b \<leftarrow> to_float A f n;
             let (v, ok) = fl_to_i256 A f b;
             Some (fst (int_reshape (from_sint 32 v) \<lparr> il_signed = True, il_bytes = 32 \<rparr> t), ok)
           })
      | (IntegerLayout f, FloatLayout t) \<Rightarrow> None)"

definition reshaped :: "AluLib \<Rightarrow> Number \<Rightarrow> Layout \<Rightarrow> bool \<Rightarrow> Number option option" where
  "reshaped A n to_l wrap = do {
     (n', ok) \<leftarrow> reshape A n to_l;
     Some (if ok \<or> wrap then Some n' else None)
   }"

definition maybe_reshape :: "AluLib \<Rightarrow> MaybeNumber \<Rightarrow> Layout \<Rightarrow> (MaybeNumber \<times> bool) option" where
  "maybe_reshape A m to_l =
     (case m of None \<Rightarrow> Some (None, True)
      | Some n \<Rightarrow> map_option (\<lambda>(n', ok). (Some n', ok)) (reshape A n to_l))"

section \<open>Comparison\<close>

definition number_eq :: "Number \<Rightarrow> Number \<Rightarrow> bool" where
  "number_eq a b =
     ((num_layout a = num_layout b
       \<or> is_signed_int (num_layout a) \<and> is_unsigned_int (num_layout b)
       \<or> is_unsigned_int (num_layout a) \<and> is_signed_int (num_layout b))
      \<and> num_slice (to_clean a) = num_slice (to_clean b))"

definition number_cmp :: "AluLib \<Rightarrow> Number \<Rightarrow> Number \<Rightarrow> Ordering option" where
  "number_cmp A a b =
     (if num_layout a \<noteq> num_layout b then None
      else case num_layout a of
        IntegerLayout _ \<Rightarrow>
          (if is_positive a \<and> \<not> is_positive b then Some OGreater
           else if \<not> is_positive a \<and> is_positive b then Some OLess
           else do { x \<leftarrow> to_u1024_bytes a; y \<leftarrow> to_u1024_bytes b; Some (cmp x y) })
      | FloatLayout l \<Rightarrow>
          (if l = IeeeOct \<or> l = FloatTapered then None
           else do { x \<leftarrow> to_float A l a; y \<leftarrow> to_float A l b; fl_cmp A l x y }))"

section \<open>Arithmetic\<close>

record IntFlags =
  if_signed :: bool
  if_wrap :: bool

definition checked_u1024 :: "int \<Rightarrow> nat option" where
  "checked_u1024 i = (if 0 \<le> i \<and> i < 2 ^ 1024 then Some (nat i) else None)"

definition checked_i1024 :: "int \<Rightarrow> int option" where
  "checked_i1024 i = (if - (2 ^ 1023) \<le> i \<and> i < 2 ^ 1023 then Some i else None)"

text \<open>
  Addition, subtraction and multiplication differ in the operation only.  The result is built
  at 128 bytes and brought to the width of the operands, where it is dropped when it does not
  fit and wrapping is not asked for.
\<close>

definition narrow :: "AluLib \<Rightarrow> Number \<Rightarrow> Layout \<Rightarrow> Layout \<Rightarrow> bool \<Rightarrow> Number option option" where
  "narrow A n wide_l l wrap = do {
     m \<leftarrow> reshaped A n wide_l True;
     case m of None \<Rightarrow> Some None | Some n' \<Rightarrow> reshaped A n' l wrap
   }"

definition int_arith :: "(int \<Rightarrow> int \<Rightarrow> int) \<Rightarrow> AluLib \<Rightarrow> Number \<Rightarrow> Number \<Rightarrow> IntFlags \<Rightarrow> Number option option" where
  "int_arith f A a b fs =
     (if num_layout a \<noteq> num_layout b then None
      else case num_layout a of
        FloatLayout _ \<Rightarrow> None
      | IntegerLayout il \<Rightarrow>
          if if_signed fs then do {
            x \<leftarrow> to_i1024_bytes a;
            y \<leftarrow> to_i1024_bytes b;
            case checked_i1024 (f x y) of
              None \<Rightarrow> Some None
            | Some z \<Rightarrow> narrow A (from_sint 128 z) (signed_layout 128) (signed_layout (il_bytes il)) (if_wrap fs)
          } else do {
            x \<leftarrow> to_u1024_bytes a;
            y \<leftarrow> to_u1024_bytes b;
            case checked_u1024 (f (int x) (int y)) of
              None \<Rightarrow> Some None
            | Some z \<Rightarrow> narrow A (from_uint 128 z) (unsigned_layout 128) (unsigned_layout (il_bytes il)) (if_wrap fs)
          })"

definition int_add :: "AluLib \<Rightarrow> Number \<Rightarrow> Number \<Rightarrow> IntFlags \<Rightarrow> Number option option" where
  "int_add = int_arith (+)"

definition int_sub :: "AluLib \<Rightarrow> Number \<Rightarrow> Number \<Rightarrow> IntFlags \<Rightarrow> Number option option" where
  "int_sub = int_arith (-)"

definition int_mul :: "AluLib \<Rightarrow> Number \<Rightarrow> Number \<Rightarrow> IntFlags \<Rightarrow> Number option option" where
  "int_mul = int_arith (*)"

text \<open>Signed division truncates; with the wrapping flag it is Euclidean.\<close>

definition sdiv_trunc :: "int \<Rightarrow> int \<Rightarrow> int" where
  "sdiv_trunc x y = sgn x * sgn y * (\<bar>x\<bar> div \<bar>y\<bar>)"

definition sdiv_euclid :: "int \<Rightarrow> int \<Rightarrow> int" where
  "sdiv_euclid x y = (if y > 0 then x div y else - (x div - y))"

definition int_div :: "AluLib \<Rightarrow> Number \<Rightarrow> Number \<Rightarrow> IntFlags \<Rightarrow> Number option option" where
  "int_div A a b fs =
     (if num_layout a \<noteq> num_layout b then None
      else if is_zero b then Some None
      else if is_zero a then Some (Some (number_zero (num_layout a)))
      else case num_layout a of
        FloatLayout _ \<Rightarrow> None
      | IntegerLayout il \<Rightarrow>
          if if_signed fs then do {
            x \<leftarrow> to_i1024_bytes a;
            y \<leftarrow> to_i1024_bytes b;
            case checked_i1024 (if if_wrap fs then sdiv_euclid x y else sdiv_trunc x y) of
              None \<Rightarrow> Some None
            | Some z \<Rightarrow> narrow A (from_sint 128 z) (signed_layout 128) (signed_layout (il_bytes il)) False
          } else do {
            x \<leftarrow> to_u1024_bytes a;
            y \<leftarrow> to_u1024_bytes b;
            reshaped A (from_uint 128 (x div y)) (signed_layout (il_bytes il)) False
          })"

text \<open>The branches for the signed and the unsigned layout are those of the source.\<close>

definition number_rem :: "AluLib \<Rightarrow> Number \<Rightarrow> Number \<Rightarrow> Number option option" where
  "number_rem A a b =
     (if is_zero b then Some None
      else case num_layout a of
        FloatLayout _ \<Rightarrow> None
      | IntegerLayout il \<Rightarrow>
          if il_signed il then do {
            x \<leftarrow> to_u1024_bytes a;
            y \<leftarrow> to_u1024_bytes b;
            if y = 0 then None else Some (Some (from_uint 128 (x mod y)))
          } else if il_bytes il * 8 \<le> 128 then do {
            x \<leftarrow> to_sint 16 a;
            y \<leftarrow> to_sint 16 b;
            if y = 0 \<or> x = - (2 ^ 127) \<and> y = -1 then None
            else Some (Some (from_sint 16 (x - y * sdiv_trunc x y)))
          } else None)"

section \<open>Bits\<close>

definition number_not :: "Number \<Rightarrow> Number" where
  "number_not n = n\<lparr> num_val := num_val n XOR mask (8 * num_len n) \<rparr>"

definition number_bitop :: "(nat \<Rightarrow> nat \<Rightarrow> nat) \<Rightarrow> Number \<Rightarrow> Number \<Rightarrow> Number option" where
  "number_bitop f a b = do {
     x \<leftarrow> to_u1024_bytes a;
     y \<leftarrow> to_u1024_bytes b;
     Some (from_uint 128 (f x y))
   }"

definition number_bitand :: "Number \<Rightarrow> Number \<Rightarrow> Number option" where
  "number_bitand = number_bitop (AND)"

definition number_bitor :: "Number \<Rightarrow> Number \<Rightarrow> Number option" where
  "number_bitor = number_bitop (OR)"

definition number_bitxor :: "Number \<Rightarrow> Number \<Rightarrow> Number option" where
  "number_bitxor = number_bitop (XOR)"

definition number_shl :: "AluLib \<Rightarrow> Number \<Rightarrow> Number \<Rightarrow> Number option" where
  "number_shl A n r =
     (if is_float (num_layout n) then None
      else do {
        k \<leftarrow> to_uint 2 r;
        m \<leftarrow> (if is_signed_int (num_layout n)
              then map_option (\<lambda>x. from_sint 128 (if k < 1024 then signed_take_bit 1023 (x * 2 ^ k) else 0)) (to_i1024_bytes n)
              else map_option (\<lambda>x. from_uint 128 (if k < 1024 then take_bit 1024 (push_bit k x) else 0)) (to_u1024_bytes n));
        map_option fst (reshape A m (num_layout n))
      })"

definition number_shr :: "AluLib \<Rightarrow> Number \<Rightarrow> Number \<Rightarrow> Number option" where
  "number_shr A n r =
     (if is_float (num_layout n) then None
      else do {
        k \<leftarrow> to_uint 2 r;
        m \<leftarrow> (if is_signed_int (num_layout n)
              then map_option (\<lambda>x. from_sint 128 (if k < 1024 then i1024_shr A x k else 0)) (to_i1024_bytes n)
              else map_option (\<lambda>x. from_uint 128 (if k < 1024 then drop_bit k x else 0)) (to_u1024_bytes n));
        map_option fst (reshape A m (num_layout n))
      })"

text \<open>
  A cyclic shift of a number with no bytes divides by zero; restoring the layout keeps the low
  bits.
\<close>

definition number_scl :: "AluLib \<Rightarrow> Number \<Rightarrow> Number \<Rightarrow> Number option" where
  "number_scl A n r =
     (let bits = num_len n * 8; lhs = into_unsigned n in
      if is_float (num_layout n) \<or> bits = 0 then None
      else do {
        k \<leftarrow> to_uint 2 r;
        let excess = k mod bits;
        residue \<leftarrow> number_shr A lhs (from_uint 2 (bits - excess));
        shifted \<leftarrow> number_shl A lhs (from_uint 2 excess);
        joined \<leftarrow> number_bitor shifted residue;
        map_option fst (reshape A joined (num_layout n))
      })"

definition number_scr :: "AluLib \<Rightarrow> Number \<Rightarrow> Number \<Rightarrow> Number option" where
  "number_scr A n r =
     (let bits = num_len n * 8; lhs = into_unsigned n in
      if is_float (num_layout n) \<or> bits = 0 then None
      else do {
        k \<leftarrow> to_uint 2 r;
        let excess = k mod bits;
        residue \<leftarrow> number_shl A lhs (from_uint 2 (bits - excess));
        shifted \<leftarrow> number_shr A lhs (from_uint 2 excess);
        joined \<leftarrow> number_bitor shifted residue;
        map_option fst (reshape A joined (num_layout n))
      })"

text \<open>Reversing the bytes and the bits of each byte reverses all bits.\<close>

definition reverse_byte :: "nat \<Rightarrow> nat" where
  "reverse_byte b = (\<Sum>i\<leftarrow>[0..<8]. if bit b i then 2 ^ (7 - i) else 0)"

definition of_byte_list :: "nat list \<Rightarrow> nat" where
  "of_byte_list bs = foldr (\<lambda>b v. b + 256 * v) bs 0"

definition reverse_bits :: "Number \<Rightarrow> Number option" where
  "reverse_bits n =
     (if is_float (num_layout n) then None
      else Some (n\<lparr> num_val := of_byte_list (map reverse_byte (rev (num_slice n)))
                    + push_bit (8 * num_len n) (drop_bit (8 * num_len n) (num_val n)) \<rparr>))"

section \<open>Sign\<close>

text \<open>
  The source tests for the least value of the layout by counting bits, and \<open>one.reshape\<close> of an
  integer layout does not panic.
\<close>

definition applying_sign :: "AluLib \<Rightarrow> Number \<Rightarrow> bool \<Rightarrow> Number option option" where
  "applying_sign A n sign =
     (case num_layout n of
        IntegerLayout il \<Rightarrow>
          (if il_signed il then
             if \<not> is_positive n \<and> count_ones n = 1 then Some None
             else if (\<not> is_positive n) \<noteq> sign then do {
               (one, _) \<leftarrow> reshape A (from_uint 1 1) (num_layout n);
               int_add A (number_not n) one \<lparr> if_signed = True, if_wrap = True \<rparr>
             }
             else Some (Some n)
           else Some None)
      | FloatLayout fl \<Rightarrow>
          (let top = 8 * num_len n - 1 in
           Some (Some (n\<lparr> num_val := (if sign then set_bit top (num_val n) else unset_bit top (num_val n)) \<rparr>))))"

definition number_neg :: "AluLib \<Rightarrow> Number \<Rightarrow> Number option option" where
  "number_neg A n = applying_sign A n (is_positive n)"

definition number_abs :: "AluLib \<Rightarrow> Number \<Rightarrow> Number option option" where
  "number_abs A n = (if is_positive n then Some (Some n) else applying_sign A n False)"

section \<open>Floating point operations\<close>

definition float_op ::
  "(AluLib \<Rightarrow> FloatLayout \<Rightarrow> RoundingFlag \<Rightarrow> nat \<Rightarrow> nat \<Rightarrow> nat option)
     \<Rightarrow> AluLib \<Rightarrow> Number \<Rightarrow> Number \<Rightarrow> RoundingFlag \<Rightarrow> MaybeNumber option" where
  "float_op f A a b r =
     (if num_layout a \<noteq> num_layout b then None
      else case num_layout a of
        IntegerLayout _ \<Rightarrow> None
      | FloatLayout l \<Rightarrow>
          if l = FloatTapered then None
          else do {
            x \<leftarrow> to_float A l a;
            y \<leftarrow> to_float A l b;
            Some (case f A l r x y of None \<Rightarrow> None | Some z \<Rightarrow> from_float A l z)
          })"

definition float_add :: "AluLib \<Rightarrow> Number \<Rightarrow> Number \<Rightarrow> RoundingFlag \<Rightarrow> MaybeNumber option" where
  "float_add = float_op fl_add"

definition float_sub :: "AluLib \<Rightarrow> Number \<Rightarrow> Number \<Rightarrow> RoundingFlag \<Rightarrow> MaybeNumber option" where
  "float_sub = float_op fl_sub"

definition float_mul :: "AluLib \<Rightarrow> Number \<Rightarrow> Number \<Rightarrow> RoundingFlag \<Rightarrow> MaybeNumber option" where
  "float_mul = float_op fl_mul"

definition float_div :: "AluLib \<Rightarrow> Number \<Rightarrow> Number \<Rightarrow> RoundingFlag \<Rightarrow> MaybeNumber option" where
  "float_div = float_op fl_div"

fun significand_end :: "FloatLayout \<Rightarrow> nat option" where
  "significand_end BFloat16 = Some 7"
| "significand_end IeeeHalf = Some 10"
| "significand_end IeeeSingle = Some 23"
| "significand_end IeeeDouble = Some 52"
| "significand_end X87DoubleExt = Some 64"
| "significand_end IeeeQuad = Some 112"
| "significand_end IeeeOct = Some 236"
| "significand_end FloatTapered = None"

text \<open>The exclusive or of two floats is an unsigned integer of 128 bytes.\<close>

definition rounding_cmp :: "AluLib \<Rightarrow> Number \<Rightarrow> Number \<Rightarrow> Ordering option" where
  "rounding_cmp A a b =
     (if num_layout a \<noteq> num_layout b then None
      else case num_layout a of
        IntegerLayout _ \<Rightarrow> number_cmp A a b
      | FloatLayout l \<Rightarrow> do {
          e \<leftarrow> significand_end l;
          x \<leftarrow> number_bitxor a (masked_bit e (num_layout a));
          y \<leftarrow> number_bitxor b (masked_bit e (num_layout b));
          number_cmp A x y
        })"

definition is_nan :: "AluLib \<Rightarrow> Number \<Rightarrow> bool option" where
  "is_nan A n =
     (case num_layout n of
        IntegerLayout _ \<Rightarrow> Some False
      | FloatLayout l \<Rightarrow>
          if l = FloatTapered then None else map_option (fl_is_nan A l) (to_float A l n))"

end
