(* ===== verification/Alu_Regs.thy ===== *)
theory Alu_Regs
  imports Alu_Number
begin

text \<open>
  Registers of the virtual machine (\<open>rgb-aluvm/src/reg/\<close>: \<open>families.rs\<close>, \<open>indexes.rs\<close>,
  \<open>core_regs.rs\<close>).  The arrays of a register family are functions of the register and the index;
  a value is the natural number its bytes encode in little endian.  That every register holds a
  value of its width is the invariant \<open>regs_ok\<close>, which every write keeps.
\<close>

section \<open>Register families\<close>

datatype RegA = A8 | A16 | A32 | A64 | A128 | A256 | A512 | A1024
datatype RegA2 = A2_8 | A2_16
datatype RegF = F16B | F16 | F32 | F64 | F80 | F128 | F256 | F512
datatype RegR = R128 | R160 | R256 | R512 | R1024 | R2048 | R4096 | R8192
datatype RegAFR = AFR_A RegA | AFR_F RegF | AFR_R RegR
datatype RegAF = AF_A RegA | AF_F RegF
datatype RegAR = AR_A RegA | AR_R RegR

type_synonym u3 = "3 word"
type_synonym u4 = "4 word"
type_synonym u5 = "5 word"
type_synonym Reg32 = u5
type_synonym Reg16 = u4
type_synonym Reg8 = u3
type_synonym RegS = u4

definition reg32_of_16 :: "Reg16 \<Rightarrow> Reg32" where
  "reg32_of_16 i = ucast i"

definition reg32_of_8 :: "Reg8 \<Rightarrow> Reg32" where
  "reg32_of_8 i = ucast i"

definition reg_s_of_u8 :: "u8 \<Rightarrow> RegS" where
  "reg_s_of_u8 v = word_of_nat (unat v mod 16)"

fun rega_bytes :: "RegA \<Rightarrow> nat" where
  "rega_bytes A8 = 1"
| "rega_bytes A16 = 2"
| "rega_bytes A32 = 4"
| "rega_bytes A64 = 8"
| "rega_bytes A128 = 16"
| "rega_bytes A256 = 32"
| "rega_bytes A512 = 64"
| "rega_bytes A1024 = 128"

definition rega_layout :: "RegA \<Rightarrow> Layout" where
  "rega_layout a = unsigned_layout (rega_bytes a)"

definition rega_int_layout :: "RegA \<Rightarrow> IntLayout" where
  "rega_int_layout a = \<lparr> il_signed = False, il_bytes = rega_bytes a \<rparr>"

fun regf_layout :: "RegF \<Rightarrow> FloatLayout" where
  "regf_layout F16B = BFloat16"
| "regf_layout F16 = IeeeHalf"
| "regf_layout F32 = IeeeSingle"
| "regf_layout F64 = IeeeDouble"
| "regf_layout F80 = X87DoubleExt"
| "regf_layout F128 = IeeeQuad"
| "regf_layout F256 = IeeeOct"
| "regf_layout F512 = FloatTapered"

fun regf_bytes :: "RegF \<Rightarrow> nat" where
  "regf_bytes F16B = 2"
| "regf_bytes F16 = 2"
| "regf_bytes F32 = 4"
| "regf_bytes F64 = 8"
| "regf_bytes F80 = 10"
| "regf_bytes F128 = 16"
| "regf_bytes F256 = 32"
| "regf_bytes F512 = 64"

fun regr_bytes :: "RegR \<Rightarrow> nat" where
  "regr_bytes R128 = 16"
| "regr_bytes R160 = 20"
| "regr_bytes R256 = 32"
| "regr_bytes R512 = 64"
| "regr_bytes R1024 = 128"
| "regr_bytes R2048 = 256"
| "regr_bytes R4096 = 512"
| "regr_bytes R8192 = 1024"

definition regr_layout :: "RegR \<Rightarrow> Layout" where
  "regr_layout r = unsigned_layout (regr_bytes r)"

fun regar_bytes :: "RegAR \<Rightarrow> nat" where
  "regar_bytes (AR_A a) = rega_bytes a"
| "regar_bytes (AR_R r) = regr_bytes r"

fun afr_of_ar :: "RegAR \<Rightarrow> RegAFR" where
  "afr_of_ar (AR_A a) = AFR_A a"
| "afr_of_ar (AR_R r) = AFR_R r"

fun afr_of_af :: "RegAF \<Rightarrow> RegAFR" where
  "afr_of_af (AF_A a) = AFR_A a"
| "afr_of_af (AF_F f) = AFR_F f"

fun rega_of_a2 :: "RegA2 \<Rightarrow> RegA" where
  "rega_of_a2 A2_8 = A8"
| "rega_of_a2 A2_16 = A16"

text \<open>The encodings of the families in bytecode.\<close>

definition regs_a :: "RegA list" where
  "regs_a = [A8, A16, A32, A64, A128, A256, A512, A1024]"

definition regs_f :: "RegF list" where
  "regs_f = [F16B, F16, F32, F64, F80, F128, F256, F512]"

definition regs_r :: "RegR list" where
  "regs_r = [R128, R160, R256, R512, R1024, R2048, R4096, R8192]"

fun rega_code :: "RegA \<Rightarrow> u3" where
  "rega_code A8 = 0"
| "rega_code A16 = 1"
| "rega_code A32 = 2"
| "rega_code A64 = 3"
| "rega_code A128 = 4"
| "rega_code A256 = 5"
| "rega_code A512 = 6"
| "rega_code A1024 = 7"

fun regf_code :: "RegF \<Rightarrow> u3" where
  "regf_code F16B = 0"
| "regf_code F16 = 1"
| "regf_code F32 = 2"
| "regf_code F64 = 3"
| "regf_code F80 = 4"
| "regf_code F128 = 5"
| "regf_code F256 = 6"
| "regf_code F512 = 7"

fun regr_code :: "RegR \<Rightarrow> u3" where
  "regr_code R128 = 0"
| "regr_code R160 = 1"
| "regr_code R256 = 2"
| "regr_code R512 = 3"
| "regr_code R1024 = 4"
| "regr_code R2048 = 5"
| "regr_code R4096 = 6"
| "regr_code R8192 = 7"

definition rega_of_code :: "u3 \<Rightarrow> RegA" where
  "rega_of_code v = regs_a ! unat v"

definition regf_of_code :: "u3 \<Rightarrow> RegF" where
  "regf_of_code v = regs_f ! unat v"

definition regr_of_code :: "u3 \<Rightarrow> RegR" where
  "regr_of_code v = regs_r ! unat v"

fun rega2_code :: "RegA2 \<Rightarrow> 1 word" where
  "rega2_code A2_8 = 0"
| "rega2_code A2_16 = 1"

definition rega2_of_code :: "1 word \<Rightarrow> RegA2" where
  "rega2_of_code v = (if v = 0 then A2_8 else A2_16)"

fun regaf_code :: "RegAF \<Rightarrow> u4" where
  "regaf_code (AF_A a) = ucast (rega_code a)"
| "regaf_code (AF_F f) = ucast (regf_code f) + 8"

definition regaf_of_code :: "u4 \<Rightarrow> RegAF" where
  "regaf_of_code v = (if v \<le> 7 then AF_A (rega_of_code (ucast v)) else AF_F (regf_of_code (ucast (v - 8))))"

fun regar_code :: "RegAR \<Rightarrow> u4" where
  "regar_code (AR_A a) = ucast (rega_code a)"
| "regar_code (AR_R r) = ucast (regr_code r) + 8"

definition regar_of_code :: "u4 \<Rightarrow> RegAR" where
  "regar_of_code v = (if v \<le> 7 then AR_A (rega_of_code (ucast v)) else AR_R (regr_of_code (ucast (v - 8))))"

section \<open>The register file\<close>

datatype OutrValue = OutInt "64 word" | OutBytes bytes

record CoreRegs =
  reg_a :: "RegA \<Rightarrow> Reg32 \<Rightarrow> nat option"
  reg_f :: "RegF \<Rightarrow> Reg32 \<Rightarrow> nat option"
  reg_r :: "RegR \<Rightarrow> Reg32 \<Rightarrow> nat option"
  reg_s :: "RegS \<Rightarrow> bytes option"
  outstack :: "OutrValue list"
  outstack_limit :: nat
  st0 :: bool
  cy0 :: u16
  ca0 :: u64
  cl0 :: "u64 option"
  cs0 :: "u16 \<Rightarrow> LibSite"
  cp0 :: u16

definition default_site :: LibSite where
  "default_site = \<lparr> site_lib = 0, site_pos = 0 \<rparr>"

definition regs_new :: CoreRegs where
  "regs_new =
     \<lparr> reg_a = (\<lambda>_ _. None), reg_f = (\<lambda>_ _. None), reg_r = (\<lambda>_ _. None), reg_s = (\<lambda>_. None),
       outstack = [], outstack_limit = 0xFFFF, st0 = True, cy0 = 0, ca0 = 0, cl0 = None,
       cs0 = (\<lambda>_. default_site), cp0 = 0 \<rparr>"

definition push_outstack :: "CoreRegs \<Rightarrow> OutrValue \<Rightarrow> CoreRegs \<times> bool" where
  "push_outstack rs v =
     (if length (outstack rs) \<ge> outstack_limit rs then (rs\<lparr> st0 := False \<rparr>, False)
      else (rs\<lparr> outstack := outstack rs @ [v] \<rparr>, True))"

definition u16_checked_inc :: "u16 \<Rightarrow> u16 option" where
  "u16_checked_inc w = (if w = - 1 then None else Some (w + 1))"

definition regs_jmp :: "CoreRegs \<Rightarrow> CoreRegs \<times> bool" where
  "regs_jmp rs =
     (case u16_checked_inc (cy0 rs) of
        None \<Rightarrow> (rs\<lparr> st0 := False \<rparr>, False)
      | Some cy \<Rightarrow> (rs\<lparr> cy0 := cy \<rparr>, True))"

text \<open>The incremented stack pointer is computed and not stored.\<close>

definition regs_call :: "CoreRegs \<Rightarrow> LibSite \<Rightarrow> CoreRegs \<times> bool" where
  "regs_call rs site =
     (case u16_checked_inc (cy0 rs) of
        None \<Rightarrow> (rs\<lparr> st0 := False \<rparr>, False)
      | Some cy \<Rightarrow>
          let rs = rs\<lparr> cy0 := cy, cs0 := (cs0 rs)(cp0 rs := site) \<rparr> in
          case u16_checked_inc (cp0 rs) of
            None \<Rightarrow> (rs\<lparr> st0 := False \<rparr>, False)
          | Some _ \<Rightarrow> (rs, True))"

definition regs_ret :: "CoreRegs \<Rightarrow> CoreRegs \<times> LibSite option" where
  "regs_ret rs =
     (if cp0 rs = 0 then (rs, None)
      else let rs = rs\<lparr> cs0 := (cs0 rs)(cp0 rs := default_site), cp0 := cp0 rs - 1 \<rparr>
           in (rs, Some (cs0 rs (cp0 rs))))"

fun get_n :: "AluLib \<Rightarrow> CoreRegs \<Rightarrow> RegAFR \<Rightarrow> Reg32 \<Rightarrow> MaybeNumber" where
  "get_n A rs (AFR_A a) i = map_option (from_uint (rega_bytes a)) (reg_a rs a i)"
| "get_n A rs (AFR_R r) i = map_option (from_array (regr_bytes r)) (reg_r rs r i)"
| "get_n A rs (AFR_F f) i =
     (case reg_f rs f i of
        None \<Rightarrow> None
      | Some v \<Rightarrow> if f = F512 then Some (from_uint 64 v) else from_float A (regf_layout f) v)"

definition get_n2 :: "AluLib \<Rightarrow> CoreRegs \<Rightarrow> RegAFR \<Rightarrow> Reg32 \<Rightarrow> RegAFR \<Rightarrow> Reg32 \<Rightarrow> (Number \<times> Number) option" where
  "get_n2 A rs r1 i1 r2 i2 =
     (case get_n A rs r1 i1 of None \<Rightarrow> None | Some a \<Rightarrow> map_option (\<lambda>b. (a, b)) (get_n A rs r2 i2))"

text \<open>
  The conversion of the value may panic; the result tells whether there was a value.
\<close>

fun conv_opt :: "(Number \<Rightarrow> nat option) \<Rightarrow> MaybeNumber \<Rightarrow> nat option option" where
  "conv_opt f None = Some None"
| "conv_opt f (Some n) = map_option Some (f n)"

fun set_n :: "AluLib \<Rightarrow> CoreRegs \<Rightarrow> RegAFR \<Rightarrow> Reg32 \<Rightarrow> MaybeNumber \<Rightarrow> (CoreRegs \<times> bool) option" where
  "set_n A rs (AFR_A a) i m = do {
     v \<leftarrow> conv_opt (to_uint (rega_bytes a)) m;
     Some (rs\<lparr> reg_a := (reg_a rs)(a := (reg_a rs a)(i := v)) \<rparr>, m \<noteq> None)
   }"
| "set_n A rs (AFR_R r) i m = do {
     v \<leftarrow> conv_opt (to_array (regr_bytes r)) m;
     Some (rs\<lparr> reg_r := (reg_r rs)(r := (reg_r rs r)(i := v)) \<rparr>, m \<noteq> None)
   }"
| "set_n A rs (AFR_F f) i m = do {
     v \<leftarrow> conv_opt (if f = F512 then to_uint 64 else to_float A (regf_layout f)) m;
     Some (rs\<lparr> reg_f := (reg_f rs)(f := (reg_f rs f)(i := v)) \<rparr>, m \<noteq> None)
   }"

definition set_n_if :: "AluLib \<Rightarrow> CoreRegs \<Rightarrow> RegAFR \<Rightarrow> Reg32 \<Rightarrow> MaybeNumber \<Rightarrow> (CoreRegs \<times> bool) option" where
  "set_n_if A rs r i m =
     (if get_n A rs r i = None then set_n A rs r i m else Some (rs, m = None))"

text \<open>An operation on two registers; it may panic.\<close>

definition regs_op ::
  "AluLib \<Rightarrow> CoreRegs \<Rightarrow> RegAFR \<Rightarrow> Reg32 \<Rightarrow> RegAFR \<Rightarrow> Reg32 \<Rightarrow> RegAFR \<Rightarrow> Reg32
     \<Rightarrow> (Number \<Rightarrow> Number \<Rightarrow> Number option) \<Rightarrow> CoreRegs option" where
  "regs_op A rs r1 i1 r2 i2 r3 i3 f = do {
     m \<leftarrow> (case get_n2 A rs r1 i1 r2 i2 of
             None \<Rightarrow> Some None
           | Some (a, b) \<Rightarrow> map_option Some (f a b));
     map_option fst (set_n A rs r3 i3 m)
   }"

definition set_s16 :: "CoreRegs \<Rightarrow> RegS \<Rightarrow> bytes option \<Rightarrow> CoreRegs" where
  "set_s16 rs i v = rs\<lparr> reg_s := (reg_s rs)(i := v) \<rparr>"

definition get_s2 :: "CoreRegs \<Rightarrow> RegS \<Rightarrow> RegS \<Rightarrow> (bytes \<times> bytes) option" where
  "get_s2 rs i j = (case reg_s rs i of None \<Rightarrow> None | Some a \<Rightarrow> map_option (\<lambda>b. (a, b)) (reg_s rs j))"

definition u64_saturating_add :: "u64 \<Rightarrow> u64 \<Rightarrow> u64" where
  "u64_saturating_add a b = (if unat a + unat b < 2 ^ 64 then a + b else - 1)"

definition acc_complexity :: "CoreRegs \<Rightarrow> u64 \<Rightarrow> CoreRegs \<times> bool" where
  "acc_complexity rs c =
     (let rs = rs\<lparr> ca0 := u64_saturating_add (ca0 rs) c \<rparr> in
      case cl0 rs of
        Some limit \<Rightarrow> if ca0 rs \<ge> limit then (rs\<lparr> st0 := False \<rparr>, False) else (rs, True)
      | None \<Rightarrow> (rs, True))"

definition set_failure :: "CoreRegs \<Rightarrow> CoreRegs" where
  "set_failure rs = rs\<lparr> st0 := False \<rparr>"

end
