(* ===== verification/Alu_Isa.thy ===== *)
theory Alu_Isa
  imports Alu_Regs
begin

text \<open>
  The instruction set of the virtual machine and what each instruction does
  (\<open>rgb-aluvm/src/isa/\<close>: \<open>instr.rs\<close>, \<open>exec.rs\<close>), in the configuration the consensus crate builds it
  with: the features for elliptic curve instructions are off.  An instruction set extension is the
  type \<open>'x\<close>.  Executing an instruction gives the registers and how to go on, or \<open>None\<close> where
  the code panics.  A byte string register keeps its bytes beyond the length at zero, so a byte
  string is the list of its bytes.
\<close>

section \<open>Instructions\<close>

datatype SignFlag = Unsigned | Signed
datatype NoneEqFlag = EqualFlag | NonEqualFlag
datatype FloatEqFlag = ExactFlag | RoundingEqFlag
datatype MergeFlag = MergeSet | MergeAdd | MergeAnd | MergeOr
datatype ExtendFlag = ExtendOnFill | FailOnFill
datatype SplitFlag =
  NoneNone | NoneNoneOnEmpty | NoneZeroOnEmpty | ZeroZeroOnEmpty | CutNone | CutZero | ZeroNone | ZeroZero
datatype InsertFlag =
  FailOnLen | FailOnOffset | FailOnOffsetLen | ExtendInsert | AppendInsert | ExtendCut | CutInsert | ShortenInsert
datatype DeleteFlag = DelNone | DelZero | DelCut | DelExtend

datatype ControlFlowOp = Fail | Test | Jmp u16 | Jif u16 | Routine u16 | Call LibSite | Exec LibSite | Ret

datatype PutOp =
    ClrA RegA Reg32 | ClrF RegF Reg32 | ClrR RegR Reg32
  | PutA RegA Reg32 MaybeNumber | PutF RegF Reg32 MaybeNumber | PutR RegR Reg32 MaybeNumber
  | PutIfA RegA Reg32 MaybeNumber | PutIfR RegR Reg32 MaybeNumber

datatype MoveOp =
    MovA RegA Reg32 Reg32 | DupA RegA Reg32 Reg32 | SwpA RegA Reg32 Reg32
  | MovF RegF Reg32 Reg32 | DupF RegF Reg32 Reg32 | SwpF RegF Reg32 Reg32
  | MovR RegR Reg32 Reg32 | DupR RegR Reg32 Reg32
  | CpyA RegA Reg32 RegA Reg32 | CnvA RegA Reg32 RegA Reg32 | CnvF RegF Reg32 RegF Reg32
  | CpyR RegR Reg32 RegR Reg32 | SpyAR RegA Reg32 RegR Reg32 | CnvAF RegA Reg32 RegF Reg32
  | CnvFA RegF Reg32 RegA Reg32

datatype CmpOp =
    GtA SignFlag RegA Reg32 Reg32 | LtA SignFlag RegA Reg32 Reg32
  | GtF FloatEqFlag RegF Reg32 Reg32 | LtF FloatEqFlag RegF Reg32 Reg32
  | GtR RegR Reg32 Reg32 | LtR RegR Reg32 Reg32
  | EqA NoneEqFlag RegA Reg32 Reg32 | EqF FloatEqFlag RegF Reg32 Reg32 | EqR NoneEqFlag RegR Reg32 Reg32
  | IfZA RegA Reg32 | IfZR RegR Reg32 | IfNA RegA Reg32 | IfNR RegR Reg32
  | St MergeFlag RegA Reg8 | StInv

datatype ArithmeticOp =
    AddA IntFlags RegA Reg32 Reg32 | AddF RoundingFlag RegF Reg32 Reg32
  | SubA IntFlags RegA Reg32 Reg32 | SubF RoundingFlag RegF Reg32 Reg32
  | MulA IntFlags RegA Reg32 Reg32 | MulF RoundingFlag RegF Reg32 Reg32
  | DivA IntFlags RegA Reg32 Reg32 | DivF RoundingFlag RegF Reg32 Reg32
  | Rem RegA Reg32 RegA Reg32 | Stp RegA Reg32 "8 word" | Neg RegAF Reg16 | AbsOp RegAF Reg16

datatype BitwiseOp =
    BitAnd RegAR Reg16 Reg16 Reg16 | BitOr RegAR Reg16 Reg16 Reg16 | BitXor RegAR Reg16 Reg16 Reg16
  | BitNot RegAR Reg16 | Shl RegA2 Reg32 RegAR Reg32 | ShrA SignFlag RegA2 Reg16 RegA Reg32
  | ShrR RegA2 Reg32 RegR Reg32 | Scl RegA2 Reg32 RegAR Reg32 | Scr RegA2 Reg32 RegAR Reg32
  | RevA RegA Reg32 | RevR RegR Reg32

datatype BytesOp =
    PutS RegS bytes bool | MovS RegS RegS | SwpS RegS RegS
  | FillS RegS Reg32 Reg32 Reg32 ExtendFlag | LenS RegS RegA Reg32 | CntS RegS Reg16 Reg16
  | EqS RegS RegS | ConS RegS RegS Reg32 Reg32 Reg32 | FindS RegS RegS
  | ExtrS RegS RegAR Reg16 Reg16 | InjS RegS RegAR Reg16 Reg16 | JoinS RegS RegS RegS
  | SpltS SplitFlag Reg32 RegS RegS RegS | InsS InsertFlag Reg32 RegS RegS
  | DelS DeleteFlag RegA2 Reg32 RegA2 Reg32 bool bool RegS RegS | RevS RegS RegS

datatype DigestOp = Ripemd RegS Reg16 | Sha256 RegS Reg16 | Sha512 RegS Reg16 | Blake3 RegS Reg16

datatype OutstackOp = Outr u8

datatype ReservedOp = ReservedOp u8

datatype 'x Instr =
    ControlFlow ControlFlowOp
  | Put PutOp
  | Move MoveOp
  | CmpI CmpOp
  | Arithmetic ArithmeticOp
  | Bitwise BitwiseOp
  | Bytes BytesOp
  | Digest DigestOp
  | Outstack OutstackOp
  | ExtensionCodes 'x
  | ReservedInstruction ReservedOp
  | Nop

datatype ExecStep = Stop | FailStep | Next | Jump u16 | CallStep LibSite

type_synonym 'a step = "('a \<times> ExecStep) option"

text \<open>Continue with the next instruction.\<close>

definition next_step :: "CoreRegs option \<Rightarrow> CoreRegs step" where
  "next_step r = map_option (\<lambda>rs. (rs, Next)) r"

definition set_st0 :: "CoreRegs \<Rightarrow> bool \<Rightarrow> CoreRegs" where
  "set_st0 rs b = rs\<lparr> st0 := b \<rparr>"

section \<open>Control flow\<close>

fun control_flow_exec :: "ControlFlowOp \<Rightarrow> CoreRegs \<Rightarrow> LibSite \<Rightarrow> CoreRegs step" where
  "control_flow_exec Fail rs site = Some (rs, FailStep)"
| "control_flow_exec Test rs site = Some (rs, if st0 rs then Next else FailStep)"
| "control_flow_exec (Jmp off) rs site = (case regs_jmp rs of (rs', ok) \<Rightarrow> Some (rs', if ok then Jump off else FailStep))"
| "control_flow_exec (Jif off) rs site =
     (if st0 rs then case regs_jmp rs of (rs', ok) \<Rightarrow> Some (rs', if ok then Jump off else FailStep)
      else Some (rs, Next))"
| "control_flow_exec (Routine off) rs site =
     (case regs_call rs site of (rs', ok) \<Rightarrow> Some (rs', if ok then Jump off else FailStep))"
| "control_flow_exec (Call s) rs site =
     (case regs_call rs s of (rs', ok) \<Rightarrow> Some (rs', if ok then CallStep s else FailStep))"
| "control_flow_exec (Exec s) rs site =
     (case regs_jmp rs of (rs', ok) \<Rightarrow> Some (rs', if ok then CallStep s else FailStep))"
| "control_flow_exec Ret rs site =
     (case regs_ret rs of (rs', s) \<Rightarrow> Some (rs', case s of Some s \<Rightarrow> CallStep s | None \<Rightarrow> Stop))"

section \<open>Setting and moving registers\<close>

definition set_or_fail :: "(CoreRegs \<times> bool) option \<Rightarrow> CoreRegs step" where
  "set_or_fail r = next_step (map_option (\<lambda>(rs, ok). if ok then rs else set_st0 rs False) r)"

fun put_exec :: "AluLib \<Rightarrow> PutOp \<Rightarrow> CoreRegs \<Rightarrow> CoreRegs step" where
  "put_exec A (ClrA r i) rs = next_step (map_option fst (set_n A rs (AFR_A r) i None))"
| "put_exec A (ClrF r i) rs = next_step (map_option fst (set_n A rs (AFR_F r) i None))"
| "put_exec A (ClrR r i) rs = next_step (map_option fst (set_n A rs (AFR_R r) i None))"
| "put_exec A (PutA r i n) rs = set_or_fail (set_n A rs (AFR_A r) i n)"
| "put_exec A (PutF r i n) rs = set_or_fail (set_n A rs (AFR_F r) i n)"
| "put_exec A (PutR r i n) rs = set_or_fail (set_n A rs (AFR_R r) i n)"
| "put_exec A (PutIfA r i n) rs = set_or_fail (set_n_if A rs (AFR_A r) i n)"
| "put_exec A (PutIfR r i n) rs = set_or_fail (set_n_if A rs (AFR_R r) i n)"

definition move_reg :: "AluLib \<Rightarrow> RegAFR \<Rightarrow> Reg32 \<Rightarrow> Reg32 \<Rightarrow> CoreRegs \<Rightarrow> CoreRegs option" where
  "move_reg A r i1 i2 rs = do {
     (rs, _) \<leftarrow> set_n A rs r i2 (get_n A rs r i1);
     map_option fst (set_n A rs r i1 None)
   }"

definition dup_reg :: "AluLib \<Rightarrow> RegAFR \<Rightarrow> Reg32 \<Rightarrow> Reg32 \<Rightarrow> CoreRegs \<Rightarrow> CoreRegs option" where
  "dup_reg A r i1 i2 rs = map_option fst (set_n A rs r i2 (get_n A rs r i1))"

definition swap_reg :: "AluLib \<Rightarrow> RegAFR \<Rightarrow> Reg32 \<Rightarrow> Reg32 \<Rightarrow> CoreRegs \<Rightarrow> CoreRegs option" where
  "swap_reg A r i1 i2 rs = do {
     let val = get_n A rs r i2;
     (rs, _) \<leftarrow> set_n A rs r i2 (get_n A rs r i1);
     map_option fst (set_n A rs r i1 val)
   }"

definition convert_reg :: "AluLib \<Rightarrow> RegAFR \<Rightarrow> Reg32 \<Rightarrow> RegAFR \<Rightarrow> Reg32 \<Rightarrow> Layout \<Rightarrow> CoreRegs \<Rightarrow> CoreRegs option" where
  "convert_reg A sr si dr di l rs = do {
     (val, ok) \<leftarrow> maybe_reshape A (get_n A rs sr si) l;
     map_option fst (set_n A (set_st0 rs ok) dr di val)
   }"

fun move_exec :: "AluLib \<Rightarrow> MoveOp \<Rightarrow> CoreRegs \<Rightarrow> CoreRegs step" where
  "move_exec A (MovA r i1 i2) rs = next_step (move_reg A (AFR_A r) i1 i2 rs)"
| "move_exec A (DupA r i1 i2) rs = next_step (dup_reg A (AFR_A r) i1 i2 rs)"
| "move_exec A (SwpA r i1 i2) rs = next_step (swap_reg A (AFR_A r) i1 i2 rs)"
| "move_exec A (MovF r i1 i2) rs = next_step (move_reg A (AFR_F r) i1 i2 rs)"
| "move_exec A (DupF r i1 i2) rs = next_step (dup_reg A (AFR_F r) i1 i2 rs)"
| "move_exec A (SwpF r i1 i2) rs = next_step (swap_reg A (AFR_F r) i1 i2 rs)"
| "move_exec A (MovR r i1 i2) rs = next_step (move_reg A (AFR_R r) i1 i2 rs)"
| "move_exec A (DupR r i1 i2) rs = next_step (dup_reg A (AFR_R r) i1 i2 rs)"
| "move_exec A (CpyA s i d j) rs = next_step (convert_reg A (AFR_A s) i (AFR_A d) j (rega_layout d) rs)"
| "move_exec A (CnvA s i d j) rs = next_step (convert_reg A (AFR_A s) i (AFR_A d) j (layout_into_signed (rega_layout d)) rs)"
| "move_exec A (CnvF s i d j) rs = next_step (convert_reg A (AFR_F s) i (AFR_F d) j (FloatLayout (regf_layout d)) rs)"
| "move_exec A (CpyR s i d j) rs = next_step (convert_reg A (AFR_R s) i (AFR_R d) j (regr_layout d) rs)"
| "move_exec A (SpyAR s i d j) rs = next_step (do {
     (val1, ok1) \<leftarrow> maybe_reshape A (get_n A rs (AFR_A s) i) (regr_layout d);
     (val2, ok2) \<leftarrow> (if ok1 then maybe_reshape A (get_n A rs (AFR_R d) j) (rega_layout s)
                      else Some (get_n A rs (AFR_R d) j, False));
     (rs, _) \<leftarrow> set_n A (set_st0 rs (ok1 \<and> ok2)) (AFR_R d) j val1;
     map_option fst (set_n A rs (AFR_A s) i val2)
   })"
| "move_exec A (CnvAF s i d j) rs = next_step (convert_reg A (AFR_A s) i (AFR_F d) j (FloatLayout (regf_layout d)) rs)"
| "move_exec A (CnvFA s i d j) rs = next_step (convert_reg A (AFR_F s) i (AFR_A d) j (rega_layout d) rs)"

section \<open>Comparing\<close>

definition cmp_reg ::
  "AluLib \<Rightarrow> (Number \<Rightarrow> Number \<Rightarrow> Ordering option) \<Rightarrow> Ordering \<Rightarrow> RegAFR \<Rightarrow> Reg32 \<Rightarrow> Reg32 \<Rightarrow> CoreRegs \<Rightarrow> CoreRegs option"
where
  "cmp_reg A f want r i1 i2 rs =
     (case get_n2 A rs r i1 r i2 of
        None \<Rightarrow> Some (set_st0 rs False)
      | Some (a, b) \<Rightarrow> map_option (\<lambda>ord. set_st0 rs (ord = want)) (f a b))"

definition int_cmp :: "AluLib \<Rightarrow> SignFlag \<Rightarrow> Number \<Rightarrow> Number \<Rightarrow> Ordering option" where
  "int_cmp A fl a b =
     (if fl = Signed then number_cmp A (into_signed a) (into_signed b) else number_cmp A a b)"

definition float_cmp :: "AluLib \<Rightarrow> FloatEqFlag \<Rightarrow> Number \<Rightarrow> Number \<Rightarrow> Ordering option" where
  "float_cmp A fl a b = (if fl = RoundingEqFlag then rounding_cmp A a b else number_cmp A a b)"

definition eq_reg :: "AluLib \<Rightarrow> bool \<Rightarrow> RegAFR \<Rightarrow> Reg32 \<Rightarrow> Reg32 \<Rightarrow> CoreRegs \<Rightarrow> CoreRegs option" where
  "eq_reg A none_eq r i1 i2 rs =
     Some (set_st0 rs (case get_n2 A rs r i1 r i2 of None \<Rightarrow> none_eq | Some (a, b) \<Rightarrow> number_eq a b))"

definition unsigned_checked :: IntFlags where
  "unsigned_checked = \<lparr> if_signed = False, if_wrap = False \<rparr>"

fun cmp_exec :: "AluLib \<Rightarrow> CmpOp \<Rightarrow> CoreRegs \<Rightarrow> CoreRegs step" where
  "cmp_exec A (GtA fl r i1 i2) rs = next_step (cmp_reg A (int_cmp A fl) OGreater (AFR_A r) i1 i2 rs)"
| "cmp_exec A (LtA fl r i1 i2) rs = next_step (cmp_reg A (int_cmp A fl) OLess (AFR_A r) i1 i2 rs)"
| "cmp_exec A (GtF fl r i1 i2) rs = next_step (cmp_reg A (float_cmp A fl) OGreater (AFR_F r) i1 i2 rs)"
| "cmp_exec A (LtF fl r i1 i2) rs = next_step (cmp_reg A (float_cmp A fl) OLess (AFR_F r) i1 i2 rs)"
| "cmp_exec A (GtR r i1 i2) rs = next_step (cmp_reg A (number_cmp A) OGreater (AFR_R r) i1 i2 rs)"
| "cmp_exec A (LtR r i1 i2) rs = next_step (cmp_reg A (number_cmp A) OLess (AFR_R r) i1 i2 rs)"
| "cmp_exec A (EqA fl r i1 i2) rs = next_step (eq_reg A (fl = EqualFlag) (AFR_A r) i1 i2 rs)"
| "cmp_exec A (EqF fl r i1 i2) rs = next_step
     (if fl = RoundingEqFlag then cmp_reg A (rounding_cmp A) OEqual (AFR_F r) i1 i2 rs
      else eq_reg A False (AFR_F r) i1 i2 rs)"
| "cmp_exec A (EqR fl r i1 i2) rs = next_step (eq_reg A (fl = EqualFlag) (AFR_R r) i1 i2 rs)"
| "cmp_exec A (IfZA r i) rs = next_step (Some (set_st0 rs (case get_n A rs (AFR_A r) i of None \<Rightarrow> False | Some n \<Rightarrow> is_zero n)))"
| "cmp_exec A (IfZR r i) rs = next_step (Some (set_st0 rs (case get_n A rs (AFR_R r) i of None \<Rightarrow> False | Some n \<Rightarrow> is_zero n)))"
| "cmp_exec A (IfNA r i) rs = next_step (Some (set_st0 rs (get_n A rs (AFR_A r) i = None)))"
| "cmp_exec A (IfNR r i) rs = next_step (Some (set_st0 rs (get_n A rs (AFR_R r) i = None)))"
| "cmp_exec A (St fl r i) rs = next_step (do {
     let st = from_uint 1 (if st0 rs then 1 else 0);
     res \<leftarrow> (case (get_n A rs (AFR_A r) (reg32_of_8 i), fl) of
               (None, _) \<Rightarrow> Some st
             | (Some val, MergeSet) \<Rightarrow> Some st
             | (Some val, MergeAdd) \<Rightarrow> map_option (\<lambda>m. case m of None \<Rightarrow> val | Some v \<Rightarrow> v) (int_add A val st unsigned_checked)
             | (Some val, MergeAnd) \<Rightarrow> number_bitand val st
             | (Some val, MergeOr) \<Rightarrow> number_bitor val st);
     map_option fst (set_n A rs (AFR_A r) (reg32_of_8 i) (Some res))
   })"
| "cmp_exec A StInv rs = next_step (Some (set_st0 rs (\<not> st0 rs)))"

section \<open>Arithmetic\<close>

definition arith_reg ::
  "AluLib \<Rightarrow> (Number \<Rightarrow> Number \<Rightarrow> MaybeNumber option) \<Rightarrow> RegAFR \<Rightarrow> Reg32 \<Rightarrow> RegAFR \<Rightarrow> Reg32 \<Rightarrow> CoreRegs
     \<Rightarrow> (CoreRegs \<times> bool) option" where
  "arith_reg A f r1 i1 r2 i2 rs = do {
     res \<leftarrow> (case get_n2 A rs r1 i1 r2 i2 of None \<Rightarrow> Some None | Some (a, b) \<Rightarrow> f a b);
     set_n A rs r2 i2 res
   }"

definition unary_reg ::
  "AluLib \<Rightarrow> (Number \<Rightarrow> MaybeNumber option) \<Rightarrow> RegAFR \<Rightarrow> Reg32 \<Rightarrow> CoreRegs \<Rightarrow> (CoreRegs \<times> bool) option" where
  "unary_reg A f r i rs = do {
     res \<leftarrow> (case get_n A rs r i of None \<Rightarrow> Some None | Some a \<Rightarrow> f a);
     set_n A rs r i res
   }"

definition arith_done :: "(CoreRegs \<times> bool) option \<Rightarrow> CoreRegs step" where
  "arith_done r = next_step (map_option (\<lambda>(rs, is_some). set_st0 rs is_some) r)"

text \<open>
  The step is brought to the layout of the operand inside a \<open>debug_assert!\<close>, which a release
  build leaves out with its effect.  Negating the least step overflows: it panics in a debug build
  and wraps in a release build.
\<close>

definition step_operand :: "AluLib \<Rightarrow> int \<Rightarrow> Number \<Rightarrow> Number option" where
  "step_operand A s val =
     (if debug_assertions A then
        if s = 128 then None
        else do {
          (n, ok) \<leftarrow> reshape A (from_sint 1 s) (num_layout val);
          if ok then Some n else None
        }
      else Some (from_sint 1 s))"

definition step_number :: "AluLib \<Rightarrow> 8 word \<Rightarrow> Number \<Rightarrow> MaybeNumber option" where
  "step_number A step val =
     (if sint step < 0 then do { n \<leftarrow> step_operand A (- sint step) val; int_sub A val n unsigned_checked }
      else do { n \<leftarrow> step_operand A (sint step) val; int_add A val n unsigned_checked })"

fun arithmetic_exec :: "AluLib \<Rightarrow> ArithmeticOp \<Rightarrow> CoreRegs \<Rightarrow> CoreRegs step" where
  "arithmetic_exec A (AbsOp r i) rs = arith_done (unary_reg A (number_abs A) (afr_of_af r) (reg32_of_16 i) rs)"
| "arithmetic_exec A (AddA fl r s d) rs = arith_done (arith_reg A (\<lambda>a b. int_add A a b fl) (AFR_A r) s (AFR_A r) d rs)"
| "arithmetic_exec A (AddF fl r s d) rs = arith_done (arith_reg A (\<lambda>a b. float_add A a b fl) (AFR_F r) s (AFR_F r) d rs)"
| "arithmetic_exec A (SubA fl r s d) rs = arith_done (arith_reg A (\<lambda>a b. int_sub A a b fl) (AFR_A r) s (AFR_A r) d rs)"
| "arithmetic_exec A (SubF fl r s d) rs = arith_done (arith_reg A (\<lambda>a b. float_sub A a b fl) (AFR_F r) s (AFR_F r) d rs)"
| "arithmetic_exec A (MulA fl r s d) rs = arith_done (arith_reg A (\<lambda>a b. int_mul A a b fl) (AFR_A r) s (AFR_A r) d rs)"
| "arithmetic_exec A (MulF fl r s d) rs = arith_done (arith_reg A (\<lambda>a b. float_mul A a b fl) (AFR_F r) s (AFR_F r) d rs)"
| "arithmetic_exec A (DivA fl r s d) rs = arith_done (arith_reg A (\<lambda>a b. int_div A a b fl) (AFR_A r) s (AFR_A r) d rs)"
| "arithmetic_exec A (DivF fl r s d) rs = next_step (do {
     res \<leftarrow> (case get_n2 A rs (AFR_F r) s (AFR_F r) d of None \<Rightarrow> Some None | Some (a, b) \<Rightarrow> float_div A a b fl);
     (rs, ok) \<leftarrow> set_n A rs (AFR_F r) d res;
     nan \<leftarrow> (case res of None \<Rightarrow> Some False | Some n \<Rightarrow> is_nan A n);
     Some (set_st0 rs (ok \<and> \<not> nan))
   })"
| "arithmetic_exec A (Rem r1 i1 r2 i2) rs = arith_done (arith_reg A (number_rem A) (AFR_A r1) i1 (AFR_A r2) i2 rs)"
| "arithmetic_exec A (Stp r i step) rs = arith_done (unary_reg A (step_number A step) (AFR_A r) i rs)"
| "arithmetic_exec A (Neg r i) rs = arith_done (unary_reg A (number_neg A) (afr_of_af r) (reg32_of_16 i) rs)"

section \<open>Bits\<close>

text \<open>
  \<open>shl\<close> and \<open>shr\<close> build the result byte by byte; what each byte receives is written out.
\<close>

definition byte_of :: "nat \<Rightarrow> nat \<Rightarrow> nat" where
  "byte_of v i = take_bit 8 (drop_bit (8 * i) v)"

definition shl_bytes :: "nat \<Rightarrow> nat \<Rightarrow> nat \<Rightarrow> nat" where
  "shl_bytes v shift n =
     (let ws = shift div 8; bs = shift mod 8 in
      of_byte_list (map (\<lambda>j.
        (if ws \<le> j then take_bit 8 (push_bit bs (byte_of v (j - ws))) else 0)
        + (if bs > 0 \<and> ws + 1 \<le> j then drop_bit (8 - bs) (byte_of v (j - ws - 1)) else 0)) [0..<n]))"

definition shr_bytes :: "nat \<Rightarrow> nat \<Rightarrow> nat \<Rightarrow> nat" where
  "shr_bytes v shift n =
     (let ws = shift div 8; bs = shift mod 8 in
      of_byte_list (map (\<lambda>j.
        if j + ws < n then
          drop_bit bs (byte_of v (j + ws))
          + (if bs > 0 \<and> j + ws < n - 1 then take_bit 8 (push_bit (8 - bs) (byte_of v (j + ws + 1))) else 0)
        else 0) [0..<n]))"

definition num_index :: "Number \<Rightarrow> nat \<Rightarrow> nat option" where
  "num_index n i = (if i < num_len n then Some (num_byte n i) else None)"

definition shift_amount :: "CoreRegs \<Rightarrow> RegA2 \<Rightarrow> Reg32 \<Rightarrow> nat" where
  "shift_amount rs r i = (case reg_a rs (rega_of_a2 r) i of None \<Rightarrow> 0 | Some v \<Rightarrow> v)"

definition default_number :: Number where
  "default_number = \<lparr> num_layout = unsigned_layout 1, num_val = 0 \<rparr>"

definition get_or_default :: "AluLib \<Rightarrow> CoreRegs \<Rightarrow> RegAFR \<Rightarrow> Reg32 \<Rightarrow> Number" where
  "get_or_default A rs r i = (case get_n A rs r i of None \<Rightarrow> default_number | Some n \<Rightarrow> n)"

definition shift_r :: "(nat \<Rightarrow> nat) \<Rightarrow> (nat \<Rightarrow> bool) \<Rightarrow> RegR \<Rightarrow> Reg32 \<Rightarrow> CoreRegs \<Rightarrow> CoreRegs" where
  "shift_r f flag r i rs =
     (case reg_r rs r i of
        None \<Rightarrow> rs
      | Some v \<Rightarrow> set_st0 (rs\<lparr> reg_r := (reg_r rs)(r := (reg_r rs r)(i := Some (f v))) \<rparr>) (flag v))"

definition top_bit :: "RegR \<Rightarrow> nat \<Rightarrow> bool" where
  "top_bit r v = (byte_of v (regr_bytes r - 1) AND 0x80 = 0x80)"

definition low_bit :: "nat \<Rightarrow> bool" where
  "low_bit v = (byte_of v 0 AND 1 = 1)"

fun bitwise_exec :: "AluLib \<Rightarrow> BitwiseOp \<Rightarrow> CoreRegs \<Rightarrow> CoreRegs step" where
  "bitwise_exec A (BitAnd r s1 s2 d) rs = next_step (regs_op A rs (afr_of_ar r) (reg32_of_16 s1) (afr_of_ar r) (reg32_of_16 s2)
     (afr_of_ar r) (reg32_of_16 d) number_bitand)"
| "bitwise_exec A (BitOr r s1 s2 d) rs = next_step (regs_op A rs (afr_of_ar r) (reg32_of_16 s1) (afr_of_ar r) (reg32_of_16 s2)
     (afr_of_ar r) (reg32_of_16 d) number_bitor)"
| "bitwise_exec A (BitXor r s1 s2 d) rs = next_step (regs_op A rs (afr_of_ar r) (reg32_of_16 s1) (afr_of_ar r) (reg32_of_16 s2)
     (afr_of_ar r) (reg32_of_16 d) number_bitxor)"
| "bitwise_exec A (BitNot r i) rs = next_step (map_option fst
     (set_n A rs (afr_of_ar r) (reg32_of_16 i) (map_option number_not (get_n A rs (afr_of_ar r) (reg32_of_16 i)))))"
| "bitwise_exec A (Shl r1 sh (AR_A a) i) rs = next_step (do {
     msb \<leftarrow> num_index (get_or_default A rs (AFR_A a) i) (rega_bytes a - 1);
     regs_op A (set_st0 rs (msb AND 0x80 = 0x80)) (AFR_A a) i (AFR_A (rega_of_a2 r1)) sh (AFR_A a) i (number_shl A)
   })"
| "bitwise_exec A (Shl r1 sh (AR_R r) i) rs = next_step
     (Some (shift_r (\<lambda>v. shl_bytes v (shift_amount rs r1 sh) (regr_bytes r)) (top_bit r) r i rs))"
| "bitwise_exec A (ShrA fl r1 sh a i) rs = next_step
     (case get_n2 A rs (AFR_A (rega_of_a2 r1)) (reg32_of_16 sh) (AFR_A a) i of
        None \<Rightarrow> map_option fst (set_n A rs (AFR_A a) i None)
      | Some (s, val) \<Rightarrow> do {
          lsb \<leftarrow> num_index val 0;
          res \<leftarrow> (if fl = Signed then number_shr A (into_signed val) s else number_shr A val s);
          map_option fst (set_n A (set_st0 rs (lsb AND 1 = 1)) (AFR_A a) i (Some res))
        })"
| "bitwise_exec A (ShrR r1 sh r i) rs = next_step
     (Some (shift_r (\<lambda>v. shr_bytes v (shift_amount rs r1 sh) (regr_bytes r)) low_bit r i rs))"
| "bitwise_exec A (Scl r1 sh (AR_A a) i) rs = next_step (do {
     msb \<leftarrow> num_index (get_or_default A rs (AFR_A a) i) (rega_bytes a - 1);
     regs_op A (set_st0 rs (msb AND 0x80 = 0x80)) (AFR_A a) i (AFR_A (rega_of_a2 r1)) sh (AFR_A a) i (number_scl A)
   })"
| "bitwise_exec A (Scl r1 sh (AR_R r) i) rs = next_step
     (let n = regr_bytes r; s = shift_amount rs r1 sh mod (8 * n) in
      Some (shift_r (\<lambda>v. shl_bytes v s n OR shr_bytes v (8 * n - s) n) (top_bit r) r i rs))"
| "bitwise_exec A (Scr r1 sh (AR_A a) i) rs = next_step (do {
     lsb \<leftarrow> num_index (get_or_default A rs (AFR_A a) i) 0;
     regs_op A (set_st0 rs (lsb AND 1 = 1)) (AFR_A a) i (AFR_A (rega_of_a2 r1)) sh (AFR_A a) i (number_scr A)
   })"
| "bitwise_exec A (Scr r1 sh (AR_R r) i) rs = next_step
     (let n = regr_bytes r; s = shift_amount rs r1 sh mod (8 * n) in
      Some (shift_r (\<lambda>v. shr_bytes v s n OR shl_bytes v (8 * n - s) n) low_bit r i rs))"
| "bitwise_exec A (RevA r i) rs = next_step
     (case get_n A rs (AFR_A r) i of
        None \<Rightarrow> map_option fst (set_n A rs (AFR_A r) i None)
      | Some n \<Rightarrow> do { m \<leftarrow> reverse_bits n; map_option fst (set_n A rs (AFR_A r) i (Some m)) })"
| "bitwise_exec A (RevR r i) rs = next_step
     (case reg_r rs r i of
        None \<Rightarrow> Some rs
      | Some v \<Rightarrow>
          let bs = map (byte_of v) [0..<regr_bytes r] in
          Some (rs\<lparr> reg_r := (reg_r rs)(r := (reg_r rs r)(i := Some (of_byte_list (map reverse_byte (rev bs))))) \<rparr>))"

section \<open>Byte strings\<close>

definition fill_bytes :: "bytes \<Rightarrow> nat \<Rightarrow> nat \<Rightarrow> u8 \<Rightarrow> bytes" where
  "fill_bytes s i j b =
     (let s' = s @ replicate (j - length s) 0 in take i s' @ replicate (j - i) b @ drop j s')"

definition fill_exec :: "RegS \<Rightarrow> Reg32 \<Rightarrow> Reg32 \<Rightarrow> Reg32 \<Rightarrow> ExtendFlag \<Rightarrow> CoreRegs \<Rightarrow> CoreRegs option" where
  "fill_exec r i1 i2 iv fl rs =
     (case (reg_a rs A16 i1, reg_a rs A16 i2, reg_a rs A8 iv) of
        (Some o1, Some o2, Some val) \<Rightarrow>
          let s = (case reg_s rs r of None \<Rightarrow> [] | Some s \<Rightarrow> s) in
          if length s \<le> o2 \<and> fl = FailOnFill then Some (set_st0 (set_s16 rs r (Some s)) False)
          else if o1 > o2 then None
          else Some (set_s16 rs r (Some (fill_bytes s o1 o2 (word_of_nat val))))
      | _ \<Rightarrow> Some (set_st0 rs False))"

text \<open>
  The iterator of \<open>con\<close>: the two inner loops consume the element that ends them.
\<close>

fun skip_run :: "bool \<Rightarrow> (nat \<times> bool) list \<Rightarrow> (nat \<times> bool) list" where
  "skip_run c [] = []"
| "skip_run c ((i, b) # es) = (if b = c then skip_run c es else es)"

fun skip_fragments :: "nat \<Rightarrow> (nat \<times> bool) list \<Rightarrow> (nat \<times> bool) list" where
  "skip_fragments 0 es = es"
| "skip_fragments (Suc n) es = skip_fragments n (skip_run True (skip_run False es))"

definition con_fragment :: "bytes \<Rightarrow> bytes \<Rightarrow> nat \<Rightarrow> (nat \<times> nat) option" where
  "con_fragment s1 s2 n =
     (let size = min (length s1) (length s2);
          es = dropWhile (\<lambda>(_, c). \<not> c) (zip [0..<size] (map2 (=) s1 s2))
      in case skip_fragments n es of
           [] \<Rightarrow> None
         | (b, _) # rest \<Rightarrow>
             (case dropWhile snd rest of
                [] \<Rightarrow> Some (b, size - b)
              | (e, _) # _ \<Rightarrow> Some (b, e - b)))"

definition con_exec :: "AluLib \<Rightarrow> RegS \<Rightarrow> RegS \<Rightarrow> Reg32 \<Rightarrow> Reg32 \<Rightarrow> Reg32 \<Rightarrow> CoreRegs \<Rightarrow> CoreRegs option" where
  "con_exec A r1 r2 n off len rs =
     (case (case (reg_s rs r1, reg_s rs r2, reg_a rs A16 n) of
              (Some s1, Some s2, Some k) \<Rightarrow> con_fragment s1 s2 k
            | _ \<Rightarrow> None) of
        Some (o', l) \<Rightarrow> do {
          (rs, _) \<leftarrow> set_n A rs (AFR_A A16) off (Some (from_uint 2 o'));
          map_option fst (set_n A rs (AFR_A A16) len (Some (from_uint 2 l)))
        }
      | None \<Rightarrow> do {
          (rs, _) \<leftarrow> set_n A (set_st0 rs False) (AFR_A A16) off None;
          map_option fst (set_n A rs (AFR_A A16) len None)
        })"

fun count_windows :: "bytes \<Rightarrow> bytes \<Rightarrow> nat" where
  "count_windows [] w = 0"
| "count_windows (b # bs) w =
     (if length w \<le> Suc (length bs) \<and> take (length w) (b # bs) = w then 1 else 0) + count_windows bs w"

text \<open>A window of no bytes panics; there are fewer than 65536 windows.\<close>

definition find_exec :: "AluLib \<Rightarrow> RegS \<Rightarrow> RegS \<Rightarrow> CoreRegs \<Rightarrow> CoreRegs option" where
  "find_exec A r1 r2 rs =
     (case get_s2 rs r1 r2 of
        None \<Rightarrow> map_option fst (set_n A (set_st0 rs False) (AFR_A A16) 0 None)
      | Some (s1, s2) \<Rightarrow>
          if s2 = [] \<or> count_windows s1 s2 > 0xFFFF then None
          else map_option fst (set_n A rs (AFR_A A16) 0 (Some (from_uint 2 (count_windows s1 s2)))))"

definition extr_exec :: "AluLib \<Rightarrow> RegS \<Rightarrow> RegAR \<Rightarrow> Reg16 \<Rightarrow> Reg16 \<Rightarrow> CoreRegs \<Rightarrow> CoreRegs option" where
  "extr_exec A src dst index offset rs =
     (case (reg_s rs src, reg_a rs A16 (reg32_of_16 offset)) of
        (Some s, Some off) \<Rightarrow>
          if off < length s then do {
            let e = off + regar_bytes dst;
            let fits = (e \<le> 0xFFFF \<and> e \<le> length s);
            let e' = (if fits then e else length s);
            num \<leftarrow> from_slice (take (e' - off) (drop off s));
            map_option fst (set_n A (if fits then rs else set_st0 rs False) (afr_of_ar dst) (reg32_of_16 index) (Some num))
          } else map_option fst (set_n A (set_st0 rs False) (afr_of_ar dst) (reg32_of_16 index) None)
      | _ \<Rightarrow> map_option fst (set_n A (set_st0 rs False) (afr_of_ar dst) (reg32_of_16 index) None))"

text \<open>
  \<open>inj\<close> sets the length of the string to the last index it writes, and \<open>join\<close> copies the second
  string into what a copy of the first has beyond its length.  Splitting, inserting and deleting are
  not implemented.
\<close>

definition adjust_len :: "bytes \<Rightarrow> nat \<Rightarrow> bytes" where
  "adjust_len s n = take n s @ replicate (n - length s) 0"

definition inj_exec :: "AluLib \<Rightarrow> RegS \<Rightarrow> RegAR \<Rightarrow> Reg16 \<Rightarrow> Reg16 \<Rightarrow> CoreRegs \<Rightarrow> CoreRegs option" where
  "inj_exec A src dst index offset rs =
     (case (reg_s rs src, get_n A rs (afr_of_ar dst) (reg32_of_16 index), reg_a rs A16 (reg32_of_16 offset)) of
        (Some s, Some val, Some off) \<Rightarrow>
          let e = min 0xFFFF (off + (regar_bytes dst - 1));
              s' = adjust_len s e
          in if e + 1 \<le> length s' \<and> e + 1 - off = num_len val
             then Some (set_s16 rs src (Some (take off s' @ map (\<lambda>i. word_of_nat (num_byte val i)) [0..<num_len val] @ drop (e + 1) s')))
             else None
      | _ \<Rightarrow> map_option fst (set_n A (set_st0 rs False) (afr_of_ar dst) (reg32_of_16 index) None))"

definition join_exec :: "RegS \<Rightarrow> RegS \<Rightarrow> RegS \<Rightarrow> CoreRegs \<Rightarrow> CoreRegs option" where
  "join_exec src1 src2 dst rs =
     (case get_s2 rs src1 src2 of
        None \<Rightarrow> Some (set_s16 (set_st0 rs False) dst None)
      | Some (s1, s2) \<Rightarrow>
          if length s1 + length s2 > 0xFFFF then Some (set_s16 (set_st0 rs False) dst None)
          else if length (drop (length s1) s1) \<noteq> length s2 then None
          else Some (set_s16 rs dst (Some (take (length s1) s1 @ s2))))"

definition len_exec :: "AluLib \<Rightarrow> RegS \<Rightarrow> RegA \<Rightarrow> Reg32 \<Rightarrow> CoreRegs \<Rightarrow> CoreRegs option" where
  "len_exec A src r dst rs =
     (case reg_s rs src of
        None \<Rightarrow> map_option fst (set_n A (set_st0 rs False) (AFR_A r) dst None)
      | Some s \<Rightarrow>
          if fits_usize (rega_int_layout r) (length s)
          then map_option fst (set_n A rs (AFR_A r) dst (Some (from_uint 4 (length s))))
          else map_option fst (set_n A (set_st0 rs False) (AFR_A r) dst None))"

definition cnt_exec :: "AluLib \<Rightarrow> RegS \<Rightarrow> Reg16 \<Rightarrow> Reg16 \<Rightarrow> CoreRegs \<Rightarrow> CoreRegs option" where
  "cnt_exec A src b dst rs =
     (case (reg_a rs A8 (reg32_of_16 b), reg_s rs src) of
        (Some val, Some s) \<Rightarrow>
          let c = length (filter (\<lambda>x. unat x = val) s) in
          if fits_usize (rega_int_layout A16) c
          then map_option fst (set_n A rs (AFR_A A16) (reg32_of_16 dst) (Some (from_uint 4 c)))
          else map_option fst (set_n A (set_st0 rs False) (AFR_A A16) (reg32_of_16 dst) None)
      | _ \<Rightarrow> map_option fst (set_n A (set_st0 rs False) (AFR_A A16) (reg32_of_16 dst) None))"

fun bytes_exec :: "AluLib \<Rightarrow> BytesOp \<Rightarrow> CoreRegs \<Rightarrow> CoreRegs step" where
  "bytes_exec A (PutS r bs fail) rs =
     next_step (Some (let rs = set_s16 rs r (Some bs) in if fail then set_st0 rs False else rs))"
| "bytes_exec A (MovS r1 r2) rs = next_step (Some (set_s16 (set_s16 rs r1 None) r2 (reg_s rs r1)))"
| "bytes_exec A (SwpS r1 r2) rs = next_step (Some (set_s16 (set_s16 rs r1 (reg_s rs r2)) r2 (reg_s rs r1)))"
| "bytes_exec A (FillS r o1 o2 v fl) rs = next_step (fill_exec r o1 o2 v fl rs)"
| "bytes_exec A (LenS src r dst) rs = next_step (len_exec A src r dst rs)"
| "bytes_exec A (CntS src b dst) rs = next_step (cnt_exec A src b dst rs)"
| "bytes_exec A (EqS r1 r2) rs = next_step (Some (set_st0 rs
     (case (reg_s rs r1, reg_s rs r2) of (Some a, Some b) \<Rightarrow> a = b | (None, None) \<Rightarrow> True | _ \<Rightarrow> False)))"
| "bytes_exec A (FindS r1 r2) rs = next_step (find_exec A r1 r2 rs)"
| "bytes_exec A (RevS r1 r2) rs = next_step (Some
     (case reg_s rs r1 of None \<Rightarrow> set_s16 (set_st0 rs False) r2 None | Some s \<Rightarrow> set_s16 rs r2 (Some (rev s))))"
| "bytes_exec A (ConS r1 r2 n off len) rs = next_step (con_exec A r1 r2 n off len rs)"
| "bytes_exec A (ExtrS src dst index off) rs = next_step (extr_exec A src dst index off rs)"
| "bytes_exec A (InjS src dst index off) rs = next_step (inj_exec A src dst index off rs)"
| "bytes_exec A (JoinS s1 s2 dst) rs = next_step (join_exec s1 s2 dst rs)"
| "bytes_exec A (SpltS fl off src d1 d2) rs = None"
| "bytes_exec A (InsS fl off src dst) rs = None"
| "bytes_exec A (DelS fl r1 o1 r2 o2 f1 f2 src dst) rs = None"

section \<open>Digests, output and the whole set\<close>

definition digest_reg :: "AluLib \<Rightarrow> (bytes \<Rightarrow> bytes) \<Rightarrow> nat \<Rightarrow> RegR \<Rightarrow> RegS \<Rightarrow> Reg16 \<Rightarrow> CoreRegs \<Rightarrow> CoreRegs step" where
  "digest_reg A h len r src dst rs =
     next_step (do {
       (rs', _) \<leftarrow> set_n A rs (AFR_R r) (reg32_of_16 dst) (map_option (\<lambda>s. from_array len (le_val (h s))) (reg_s rs src));
       Some (if reg_s rs src = None then set_st0 rs' False else rs')
     })"

fun digest_exec :: "AluLib \<Rightarrow> DigestOp \<Rightarrow> CoreRegs \<Rightarrow> CoreRegs step" where
  "digest_exec A (Ripemd src dst) rs = digest_reg A (\<lambda>s. rev (ripemd160 A s)) 20 R160 src dst rs"
| "digest_exec A (Sha256 src dst) rs = digest_reg A (sha2_256 A) 32 R256 src dst rs"
| "digest_exec A (Blake3 src dst) rs = digest_reg A (blake3_hash A) 32 R256 src dst rs"
| "digest_exec A (Sha512 src dst) rs = digest_reg A (sha2_512 A) 64 R512 src dst rs"

fun outstack_exec :: "AluLib \<Rightarrow> OutstackOp \<Rightarrow> CoreRegs \<Rightarrow> CoreRegs step" where
  "outstack_exec A (Outr r) rs =
     (if r < 32 then do {
        v \<leftarrow> (case get_n A rs (AFR_A A64) (ucast r) of
                None \<Rightarrow> Some (OutInt 0)
              | Some n \<Rightarrow> map_option (\<lambda>u. OutInt (word_of_nat u)) (to_uint 8 n));
        let (rs, ok) = push_outstack rs v;
        Some (rs, if ok then Next else FailStep)
      } else if r < 48 then
        (let v = OutBytes (case reg_s rs (ucast (r - 32)) of None \<Rightarrow> [] | Some s \<Rightarrow> s);
             (rs, ok) = push_outstack rs v
         in Some (rs, if ok then Next else FailStep))
      else Some (rs, FailStep))"

definition instr_exec ::
  "('x \<Rightarrow> CoreRegs \<Rightarrow> LibSite \<Rightarrow> CoreRegs step) \<Rightarrow> AluLib \<Rightarrow> 'x Instr \<Rightarrow> CoreRegs \<Rightarrow> LibSite \<Rightarrow> CoreRegs step" where
  "instr_exec ext A i rs site =
     (case i of
        ControlFlow op \<Rightarrow> control_flow_exec op rs site
      | Put op \<Rightarrow> put_exec A op rs
      | Move op \<Rightarrow> move_exec A op rs
      | CmpI op \<Rightarrow> cmp_exec A op rs
      | Arithmetic op \<Rightarrow> arithmetic_exec A op rs
      | Bitwise op \<Rightarrow> bitwise_exec A op rs
      | Bytes op \<Rightarrow> bytes_exec A op rs
      | Digest op \<Rightarrow> digest_exec A op rs
      | Outstack op \<Rightarrow> outstack_exec A op rs
      | ExtensionCodes x \<Rightarrow> ext x rs site
      | ReservedInstruction _ \<Rightarrow> control_flow_exec Fail rs site
      | Nop \<Rightarrow> Some (rs, Next))"

fun arithmetic_complexity :: "ArithmeticOp \<Rightarrow> u64" where
  "arithmetic_complexity (AddF _ _ _ _) = 10"
| "arithmetic_complexity (SubF _ _ _ _) = 10"
| "arithmetic_complexity (MulF _ _ _ _) = 10"
| "arithmetic_complexity (DivF _ _ _ _) = 10"
| "arithmetic_complexity _ = 1"

definition instr_complexity :: "('x \<Rightarrow> u64) \<Rightarrow> 'x Instr \<Rightarrow> u64" where
  "instr_complexity ext i =
     (case i of
        ControlFlow _ \<Rightarrow> 2
      | Put _ \<Rightarrow> 2
      | Move _ \<Rightarrow> 1
      | CmpI _ \<Rightarrow> 1
      | Arithmetic op \<Rightarrow> arithmetic_complexity op
      | Bitwise _ \<Rightarrow> 1
      | Bytes _ \<Rightarrow> 5
      | Digest _ \<Rightarrow> 100
      | Outstack _ \<Rightarrow> 2
      | ExtensionCodes x \<Rightarrow> ext x
      | ReservedInstruction _ \<Rightarrow> - 1
      | Nop \<Rightarrow> 1)"

end
