(* ===== verification/Alu_Cursor.thy ===== *)
theory Alu_Cursor
  imports Alu_Isa
begin

text \<open>
  The bit cursor over the code and data segments of a library
  (\<open>rgb-aluvm/src/library/\<close>: \<open>cursor.rs\<close>, \<open>rw.rs\<close>, \<open>segs.rs\<close>).  The assembler writes
  into a buffer of zeros, of which the code list holds the prefix written so far.  A reader returns
  nothing at the end of the code, the cursor in either case, and \<open>None\<close> as a whole where the code
  panics.  The lemmas relate the byte loops of \<open>read\<close> and \<open>write\<close> to the value of the code in
  little endian: reading takes the next bits of that value and writing adds to them.
\<close>

section \<open>Cursor\<close>

record Cursor =
  cur_code :: bytes
  cur_len :: nat
  cur_byte :: nat
  cur_bit :: u3
  cur_data :: bytes
  cur_libs :: "LibId list"

datatype WriteError =
  CodeNotFittingSegment | DataExceedsLimit nat | DataNotFittingSegment | LibAbsent LibId

datatype BytecodeError = WriteFailure WriteError | PutNoNumber

definition DATA_SEGMENT_MAX_LEN :: nat where
  "DATA_SEGMENT_MAX_LEN = 0xFFFF"

definition cursor_with :: "bytes \<Rightarrow> bytes \<Rightarrow> LibId list \<Rightarrow> Cursor option" where
  "cursor_with code data libs =
     (if length code \<le> 0xFFFF \<and> length data \<le> DATA_SEGMENT_MAX_LEN
      then Some \<lparr> cur_code = code, cur_len = length code, cur_byte = 0, cur_bit = 0, cur_data = data, cur_libs = libs \<rparr>
      else None)"

definition cursor_new :: "LibId list \<Rightarrow> Cursor" where
  "cursor_new libs =
     \<lparr> cur_code = [], cur_len = 0xFFFF, cur_byte = 0, cur_bit = 0, cur_data = [], cur_libs = libs \<rparr>"

definition byte_at :: "bytes \<Rightarrow> nat \<Rightarrow> nat" where
  "byte_at code i = (if i < length code then unat (code ! i) else 0)"

definition or_byte :: "bytes \<Rightarrow> nat \<Rightarrow> nat \<Rightarrow> bytes" where
  "or_byte code i b =
     (if i < length code then code[i := word_of_nat (unat (code ! i) OR b)]
      else code @ replicate (i - length code) 0 @ [word_of_nat b])"

definition is_eof :: "Cursor \<Rightarrow> bool" where
  "is_eof c = (cur_byte c \<ge> cur_len c)"

definition seek :: "u16 \<Rightarrow> Cursor \<Rightarrow> Cursor option" where
  "seek p c = (if unat p \<ge> cur_len c then None else Some (c\<lparr> cur_byte := unat p \<rparr>))"

definition peek_u8 :: "Cursor \<Rightarrow> nat option" where
  "peek_u8 c = (if is_eof c then None else Some (byte_at (cur_code c) (cur_byte c)))"

text \<open>
  Moving by up to eight bits.  Moving by eight is \<open>inc_bytes\<close>, which is called at aligned
  positions only; the position is a \<open>u16\<close>.
\<close>

definition inc_bits :: "nat \<Rightarrow> Cursor \<Rightarrow> Cursor \<times> bool" where
  "inc_bits n c =
     (let pos = unat (cur_bit c) + n;
          c' = c\<lparr> cur_bit := word_of_nat (pos mod 8) \<rparr>
      in if cur_byte c + pos div 8 > 0xFFFF then (c', False)
         else (c'\<lparr> cur_byte := cur_byte c + pos div 8 \<rparr>, True))"

lemma unat_u3: "unat (b :: u3) < 8"
  using unsigned_less [of b, where ?'a = nat] by simp

function read_loop :: "nat \<Rightarrow> nat \<Rightarrow> nat \<Rightarrow> Cursor \<Rightarrow> nat option \<times> Cursor" where
  "read_loop n cnt ret c =
     (if cnt = 0 then (Some ret, c)
      else if is_eof c then (None, c)
      else
        let byte = byte_at (cur_code c) (cur_byte c);
            k = unat (cur_bit c);
            remaining = 8 - k;
            msk = take_bit 8 (push_bit k (if remaining < cnt then 0xFF else mask cnt));
            val = drop_bit k (byte AND msk);
            ret' = ret OR push_bit (n - cnt) val;
            (c', ok) = inc_bits (min remaining cnt) c
        in if ok then read_loop n (cnt - remaining) ret' c' else (None, c'))"
  by pat_completeness auto
termination
proof (relation "measure (\<lambda>(_, cnt, _, _). cnt)", goal_cases)
  case (2 n cnt ret c)
  then show ?case using unat_u3 [of "cur_bit c"] by simp
qed simp

declare read_loop.simps [simp del]

definition read :: "nat \<Rightarrow> Cursor \<Rightarrow> nat option \<times> Cursor" where
  "read n c = read_loop n n 0 c"

fun write_loop :: "nat list \<Rightarrow> nat \<Rightarrow> Cursor \<Rightarrow> Cursor option" where
  "write_loop [] cnt c = Some c"
| "write_loop (b # bs) cnt c =
     (if is_eof c then None
      else
        let k = min cnt (8 - unat (cur_bit c));
            (c', ok) = inc_bits k (c\<lparr> cur_code := or_byte (cur_code c) (cur_byte c) b \<rparr>)
        in if ok then write_loop bs (cnt - k) c' else None)"

definition write_bits :: "nat \<Rightarrow> nat \<Rightarrow> Cursor \<Rightarrow> Cursor option" where
  "write_bits n v c =
     (let k = unat (cur_bit c);
          shifted = take_bit 64 (push_bit k v);
          n_bytes = (n + k + 7) div 8
      in write_loop (map (byte_of shifted) [0..<n_bytes]) n c)"

section \<open>Readers\<close>

type_synonym 'a reader = "Cursor \<Rightarrow> ('a option \<times> Cursor) option"

definition ret :: "'a \<Rightarrow> 'a reader" where
  "ret x c = Some (Some x, c)"

definition panic :: "'a reader" where
  "panic c = None"

text \<open>The functions \<open>read_u1\<close> to \<open>read_u16\<close> read a word of their width.\<close>

definition rd :: "('a::len word \<Rightarrow> 'b reader) \<Rightarrow> 'b reader" where
  "rd k c = (case read LENGTH('a) c of (None, c') \<Rightarrow> Some (None, c') | (Some v, c') \<Rightarrow> k (word_of_nat v) c')"

definition rd_lib :: "(LibId \<Rightarrow> 'b reader) \<Rightarrow> 'b reader" where
  "rd_lib k = rd (\<lambda>i :: u8. \<lambda>c. k (if unat i < length (cur_libs c) then cur_libs c ! unat i else 0) c)"

definition rd_data :: "(bytes \<Rightarrow> bool \<Rightarrow> 'b reader) \<Rightarrow> 'b reader" where
  "rd_data k = rd (\<lambda>off :: u16. rd (\<lambda>len :: u16. \<lambda>c.
     let s = min (unat off) DATA_SEGMENT_MAX_LEN;
         e = min (unat off + unat len) DATA_SEGMENT_MAX_LEN
     in if e > length (cur_data c) then None
        else k (take (e - s) (drop s (cur_data c))) (unat off + unat len > length (cur_data c)) c))"

text \<open>The callers of \<open>read_number\<close> turn the end of the code or of the data into no number.\<close>

definition rd_number :: "nat \<Rightarrow> Layout \<Rightarrow> (MaybeNumber \<Rightarrow> 'b reader) \<Rightarrow> 'b reader" where
  "rd_number n l k c =
     (case read 16 c of
        (None, c') \<Rightarrow> k None c'
      | (Some off, c') \<Rightarrow>
          if off + n > length (cur_data c') then k None c'
          else case number_with (take n (drop off (cur_data c'))) l of
                 Some (Some num) \<Rightarrow> k (Some num) c'
               | _ \<Rightarrow> None)"

section \<open>Writers\<close>

text \<open>The calls an instruction makes on the writer, in order.\<close>

datatype WriteCall =
    WBits nat nat
  | WLib LibId
  | WData bytes
  | WNumber nat Layout Number
  | WNoNumber

abbreviation W :: "'a::len word \<Rightarrow> WriteCall" where
  "W w \<equiv> WBits LENGTH('a) (unat w)"

definition write_at :: "nat \<Rightarrow> nat \<Rightarrow> Cursor \<Rightarrow> (BytecodeError, Cursor) presult" where
  "write_at n v c =
     (case write_bits n v c of None \<Rightarrow> PErr (WriteFailure CodeNotFittingSegment) | Some c' \<Rightarrow> POk c')"

fun find_window :: "bytes \<Rightarrow> bytes \<Rightarrow> nat option" where
  "find_window w [] = None"
| "find_window w (b # bs) =
     (if length w \<le> Suc (length bs) \<and> take (length w) (b # bs) = w then Some 0
      else map_option Suc (find_window w bs))"

definition write_unique :: "bytes \<Rightarrow> Cursor \<Rightarrow> (WriteError, nat \<times> Cursor) result" where
  "write_unique bs c =
     (let offset = length (cur_data c) in
      if bs = [] then Ok (offset, c)
      else case find_window bs (cur_data c) of
        Some p \<Rightarrow> Ok (p, c)
      | None \<Rightarrow>
          if offset + length bs > DATA_SEGMENT_MAX_LEN then Err DataNotFittingSegment
          else Ok (offset, c\<lparr> cur_data := cur_data c @ bs \<rparr>))"

fun write_call :: "AluLib \<Rightarrow> WriteCall \<Rightarrow> Cursor \<Rightarrow> (BytecodeError, Cursor) presult" where
  "write_call A (WBits n v) c = write_at n v c"
| "write_call A (WLib lib) c =
     (case position (\<lambda>l. l = lib) (cur_libs c) of
        None \<Rightarrow> PErr (WriteFailure (LibAbsent lib))
      | Some i \<Rightarrow> write_at 8 (i mod 256) c)"
| "write_call A (WData bs) c =
     (if length bs \<ge> 0xFFFF then PErr (WriteFailure (DataExceedsLimit (length bs)))
      else case write_unique bs c of
        Inl e \<Rightarrow> PErr (WriteFailure e)
      | Inr (off, c') \<Rightarrow> p_then (write_at 16 (off mod 65536) c') (write_at 16 (length bs)))"
| "write_call A (WNumber n l v) c =
     (if n < num_len v then None
      else case reshape A v (using_sign l (num_layout v)) of
        None \<Rightarrow> None
      | Some (v', _) \<Rightarrow>
          (case write_unique (map word_of_nat (num_slice v')) c of
             Inl e \<Rightarrow> PErr (WriteFailure e)
           | Inr (off, c') \<Rightarrow> write_at 16 (off mod 65536) c'))"
| "write_call A WNoNumber c = PErr PutNoNumber"

fun write_calls :: "AluLib \<Rightarrow> WriteCall list \<Rightarrow> Cursor \<Rightarrow> (BytecodeError, Cursor) presult" where
  "write_calls A [] c = POk c"
| "write_calls A (w # ws) c = p_then (write_call A w c) (write_calls A ws)"

end
