(* ===== verification/Alu_Bytecode.thy ===== *)
theory Alu_Bytecode
  imports Alu_Cursor
begin

text \<open>
  The bytecode of the instructions (\<open>rgb-aluvm/src/isa/\<close>: \<open>bytecode.rs\<close>, \<open>opcodes.rs\<close>,
  \<open>flags.rs\<close>).  An encoder gives the calls it makes on the writer; a decoder dispatches on the
  byte it reads, and panics where the source has \<open>unreachable!\<close>.  The dispatch of a whole
  instruction looks at the byte of the current position whatever the bit position is.
\<close>

section \<open>Flags\<close>

definition bit_code :: "bool \<Rightarrow> 1 word" where
  "bit_code b = (if b then 1 else 0)"

fun sign_code :: "SignFlag \<Rightarrow> 1 word" where
  "sign_code Unsigned = 0" | "sign_code Signed = 1"

definition sign_of :: "1 word \<Rightarrow> SignFlag" where
  "sign_of w = (if w = 0 then Unsigned else Signed)"

fun none_eq_code :: "NoneEqFlag \<Rightarrow> 1 word" where
  "none_eq_code EqualFlag = 1" | "none_eq_code NonEqualFlag = 0"

definition none_eq_of :: "1 word \<Rightarrow> NoneEqFlag" where
  "none_eq_of w = (if w = 0 then NonEqualFlag else EqualFlag)"

fun float_eq_code :: "FloatEqFlag \<Rightarrow> 1 word" where
  "float_eq_code ExactFlag = 0" | "float_eq_code RoundingEqFlag = 1"

definition float_eq_of :: "1 word \<Rightarrow> FloatEqFlag" where
  "float_eq_of w = (if w = 0 then ExactFlag else RoundingEqFlag)"

fun extend_code :: "ExtendFlag \<Rightarrow> 1 word" where
  "extend_code ExtendOnFill = 0" | "extend_code FailOnFill = 1"

definition extend_of :: "1 word \<Rightarrow> ExtendFlag" where
  "extend_of w = (if w = 0 then ExtendOnFill else FailOnFill)"

fun rounding_code :: "RoundingFlag \<Rightarrow> 2 word" where
  "rounding_code TowardsZero = 0" | "rounding_code TowardsNearest = 1"
| "rounding_code FloorRounding = 2" | "rounding_code CeilRounding = 3"

definition rounding_of :: "2 word \<Rightarrow> RoundingFlag" where
  "rounding_of w = [TowardsZero, TowardsNearest, FloorRounding, CeilRounding] ! unat w"

fun merge_code :: "MergeFlag \<Rightarrow> 2 word" where
  "merge_code MergeSet = 0" | "merge_code MergeAdd = 1" | "merge_code MergeAnd = 2" | "merge_code MergeOr = 3"

definition merge_of :: "2 word \<Rightarrow> MergeFlag" where
  "merge_of w = [MergeSet, MergeAdd, MergeAnd, MergeOr] ! unat w"

fun delete_code :: "DeleteFlag \<Rightarrow> 2 word" where
  "delete_code DelNone = 0" | "delete_code DelZero = 1" | "delete_code DelCut = 2" | "delete_code DelExtend = 3"

definition delete_of :: "2 word \<Rightarrow> DeleteFlag" where
  "delete_of w = [DelNone, DelZero, DelCut, DelExtend] ! unat w"

definition split_flags :: "SplitFlag list" where
  "split_flags = [NoneNone, NoneNoneOnEmpty, NoneZeroOnEmpty, ZeroZeroOnEmpty, CutNone, CutZero, ZeroNone, ZeroZero]"

fun split_code :: "SplitFlag \<Rightarrow> u3" where
  "split_code NoneNone = 0" | "split_code NoneNoneOnEmpty = 1" | "split_code NoneZeroOnEmpty = 2"
| "split_code ZeroZeroOnEmpty = 3" | "split_code CutNone = 4" | "split_code CutZero = 5"
| "split_code ZeroNone = 6" | "split_code ZeroZero = 7"

definition split_of :: "u3 \<Rightarrow> SplitFlag" where
  "split_of w = split_flags ! unat w"

definition insert_flags :: "InsertFlag list" where
  "insert_flags = [FailOnLen, FailOnOffset, FailOnOffsetLen, ExtendInsert, AppendInsert, ExtendCut, CutInsert, ShortenInsert]"

fun insert_code :: "InsertFlag \<Rightarrow> u3" where
  "insert_code FailOnLen = 0" | "insert_code FailOnOffset = 1" | "insert_code FailOnOffsetLen = 2"
| "insert_code ExtendInsert = 3" | "insert_code AppendInsert = 4" | "insert_code ExtendCut = 5"
| "insert_code CutInsert = 6" | "insert_code ShortenInsert = 7"

definition insert_of :: "u3 \<Rightarrow> InsertFlag" where
  "insert_of w = insert_flags ! unat w"

text \<open>The decoder shifts the mask of the wrapping flag instead of the value.\<close>

definition int_flags_code :: "IntFlags \<Rightarrow> 2 word" where
  "int_flags_code f = word_of_nat ((if if_signed f then 1 else 0) OR (if if_wrap f then 2 else 0))"

definition int_flags_of :: "2 word \<Rightarrow> IntFlags" where
  "int_flags_of w = \<lparr> if_signed = (unat w AND 1 = 1), if_wrap = (unat w AND (drop_bit 1 2) = 1) \<rparr>"

section \<open>Encoding\<close>

fun control_flow_byte :: "ControlFlowOp \<Rightarrow> u8" where
  "control_flow_byte Fail = 0x00"
| "control_flow_byte Test = 0x01"
| "control_flow_byte (Jmp _) = 0x02"
| "control_flow_byte (Jif _) = 0x03"
| "control_flow_byte (Routine _) = 0x04"
| "control_flow_byte (Call _) = 0x05"
| "control_flow_byte (Exec _) = 0x06"
| "control_flow_byte Ret = 0x07"

fun control_flow_args :: "ControlFlowOp \<Rightarrow> WriteCall list" where
  "control_flow_args (Jmp p) = [W p]"
| "control_flow_args (Jif p) = [W p]"
| "control_flow_args (Routine p) = [W p]"
| "control_flow_args (Call s) = [W (site_pos s), WLib (site_lib s)]"
| "control_flow_args (Exec s) = [W (site_pos s), WLib (site_lib s)]"
| "control_flow_args _ = []"

fun put_byte :: "PutOp \<Rightarrow> u8" where
  "put_byte (ClrA _ _) = 0x08"
| "put_byte (ClrF _ _) = 0x09"
| "put_byte (ClrR _ _) = 0x0a"
| "put_byte (PutA _ _ _) = 0x0b"
| "put_byte (PutF _ _ _) = 0x0c"
| "put_byte (PutR _ _ _) = 0x0d"
| "put_byte (PutIfA _ _ _) = 0x0e"
| "put_byte (PutIfR _ _ _) = 0x0f"

definition number_call :: "nat \<Rightarrow> Layout \<Rightarrow> MaybeNumber \<Rightarrow> WriteCall" where
  "number_call n l m = (case m of None \<Rightarrow> WNoNumber | Some v \<Rightarrow> WNumber n l v)"

fun put_args :: "PutOp \<Rightarrow> WriteCall list" where
  "put_args (ClrA r i) = [W (rega_code r), W i]"
| "put_args (ClrF r i) = [W (regf_code r), W i]"
| "put_args (ClrR r i) = [W (regr_code r), W i]"
| "put_args (PutA r i m) = [W (rega_code r), W i, number_call (rega_bytes r) (rega_layout r) m]"
| "put_args (PutF r i m) = [W (regf_code r), W i, number_call (regf_bytes r) (FloatLayout (regf_layout r)) m]"
| "put_args (PutR r i m) = [W (regr_code r), W i, number_call (regr_bytes r) (regr_layout r) m]"
| "put_args (PutIfA r i m) = [W (rega_code r), W i, number_call (rega_bytes r) (rega_layout r) m]"
| "put_args (PutIfR r i m) = [W (regr_code r), W i, number_call (regr_bytes r) (regr_layout r) m]"

fun move_byte :: "MoveOp \<Rightarrow> u8" where
  "move_byte (CpyA _ _ _ _) = 0x11"
| "move_byte (CnvA _ _ _ _) = 0x12"
| "move_byte (CnvF _ _ _ _) = 0x13"
| "move_byte (CpyR _ _ _ _) = 0x14"
| "move_byte (SpyAR _ _ _ _) = 0x15"
| "move_byte (CnvAF _ _ _ _) = 0x16"
| "move_byte (CnvFA _ _ _ _) = 0x17"
| "move_byte _ = 0x10"

fun move_args :: "MoveOp \<Rightarrow> WriteCall list" where
  "move_args (MovA r i j) = [W (0 :: u3), W i, W j, W (rega_code r)]"
| "move_args (DupA r i j) = [W (1 :: u3), W i, W j, W (rega_code r)]"
| "move_args (SwpA r i j) = [W (2 :: u3), W i, W j, W (rega_code r)]"
| "move_args (MovF r i j) = [W (3 :: u3), W i, W j, W (regf_code r)]"
| "move_args (DupF r i j) = [W (4 :: u3), W i, W j, W (regf_code r)]"
| "move_args (SwpF r i j) = [W (5 :: u3), W i, W j, W (regf_code r)]"
| "move_args (MovR r i j) = [W (6 :: u3), W i, W j, W (regr_code r)]"
| "move_args (DupR r i j) = [W (7 :: u3), W i, W j, W (regr_code r)]"
| "move_args (CpyA s i d j) = [W (rega_code s), W i, W (rega_code d), W j]"
| "move_args (CnvA s i d j) = [W (rega_code s), W i, W (rega_code d), W j]"
| "move_args (CnvF s i d j) = [W (regf_code s), W i, W (regf_code d), W j]"
| "move_args (CpyR s i d j) = [W (regr_code s), W i, W (regr_code d), W j]"
| "move_args (SpyAR s i d j) = [W (rega_code s), W i, W (regr_code d), W j]"
| "move_args (CnvAF s i d j) = [W (rega_code s), W i, W (regf_code d), W j]"
| "move_args (CnvFA s i d j) = [W (regf_code s), W i, W (rega_code d), W j]"

fun cmp_byte :: "CmpOp \<Rightarrow> u8" where
  "cmp_byte (GtA _ _ _ _) = 0x18"
| "cmp_byte (LtA _ _ _ _) = 0x18"
| "cmp_byte (GtF _ _ _ _) = 0x18"
| "cmp_byte (LtF _ _ _ _) = 0x18"
| "cmp_byte (IfZA _ _) = 0x1a"
| "cmp_byte (IfZR _ _) = 0x1b"
| "cmp_byte (IfNA _ _) = 0x1c"
| "cmp_byte (IfNR _ _) = 0x1d"
| "cmp_byte (St _ _ _) = 0x1e"
| "cmp_byte StInv = 0x1f"
| "cmp_byte _ = 0x19"

fun cmp_args :: "CmpOp \<Rightarrow> WriteCall list" where
  "cmp_args (GtA f r i j) = [W (0 :: 2 word), W (sign_code f), W i, W j, W (rega_code r)]"
| "cmp_args (LtA f r i j) = [W (1 :: 2 word), W (sign_code f), W i, W j, W (rega_code r)]"
| "cmp_args (GtF f r i j) = [W (2 :: 2 word), W (float_eq_code f), W i, W j, W (regf_code r)]"
| "cmp_args (LtF f r i j) = [W (3 :: 2 word), W (float_eq_code f), W i, W j, W (regf_code r)]"
| "cmp_args (GtR r i j) = [W (0 :: 2 word), W (0 :: 1 word), W i, W j, W (regr_code r)]"
| "cmp_args (LtR r i j) = [W (0 :: 2 word), W (1 :: 1 word), W i, W j, W (regr_code r)]"
| "cmp_args (EqA f r i j) = [W (1 :: 2 word), W (none_eq_code f), W i, W j, W (rega_code r)]"
| "cmp_args (EqF f r i j) = [W (2 :: 2 word), W (float_eq_code f), W i, W j, W (regf_code r)]"
| "cmp_args (EqR f r i j) = [W (3 :: 2 word), W (none_eq_code f), W i, W j, W (regr_code r)]"
| "cmp_args (IfZA r i) = [W (rega_code r), W i]"
| "cmp_args (IfZR r i) = [W (regr_code r), W i]"
| "cmp_args (IfNA r i) = [W (rega_code r), W i]"
| "cmp_args (IfNR r i) = [W (regr_code r), W i]"
| "cmp_args (St f r i) = [W (merge_code f), W (rega_code r), W i]"
| "cmp_args StInv = []"

fun arithmetic_byte :: "ArithmeticOp \<Rightarrow> u8" where
  "arithmetic_byte (AddA _ _ _ _) = 0x20"
| "arithmetic_byte (AddF _ _ _ _) = 0x20"
| "arithmetic_byte (SubA _ _ _ _) = 0x21"
| "arithmetic_byte (SubF _ _ _ _) = 0x21"
| "arithmetic_byte (MulA _ _ _ _) = 0x22"
| "arithmetic_byte (MulF _ _ _ _) = 0x22"
| "arithmetic_byte (DivA _ _ _ _) = 0x23"
| "arithmetic_byte (DivF _ _ _ _) = 0x23"
| "arithmetic_byte (Stp _ _ _) = 0x24"
| "arithmetic_byte (Neg _ _) = 0x25"
| "arithmetic_byte (AbsOp _ _) = 0x26"
| "arithmetic_byte (Rem _ _ _ _) = 0x27"

definition int_op_args :: "IntFlags \<Rightarrow> RegA \<Rightarrow> Reg32 \<Rightarrow> Reg32 \<Rightarrow> WriteCall list" where
  "int_op_args f r i j = [W (0 :: 1 word), W (int_flags_code f), W i, W j, W (rega_code r)]"

definition float_op_args :: "RoundingFlag \<Rightarrow> RegF \<Rightarrow> Reg32 \<Rightarrow> Reg32 \<Rightarrow> WriteCall list" where
  "float_op_args f r i j = [W (1 :: 1 word), W (rounding_code f), W i, W j, W (regf_code r)]"

text \<open>A step is written as the \<open>u32\<close> its sign extension gives.\<close>

fun arithmetic_args :: "ArithmeticOp \<Rightarrow> WriteCall list" where
  "arithmetic_args (AddA f r i j) = int_op_args f r i j"
| "arithmetic_args (SubA f r i j) = int_op_args f r i j"
| "arithmetic_args (MulA f r i j) = int_op_args f r i j"
| "arithmetic_args (DivA f r i j) = int_op_args f r i j"
| "arithmetic_args (AddF f r i j) = float_op_args f r i j"
| "arithmetic_args (SubF f r i j) = float_op_args f r i j"
| "arithmetic_args (MulF f r i j) = float_op_args f r i j"
| "arithmetic_args (DivF f r i j) = float_op_args f r i j"
| "arithmetic_args (Stp r i s) = [W (rega_code r), W i, WBits 8 (unat (scast s :: u32))]"
| "arithmetic_args (Neg r i) = [W (regaf_code r), W i]"
| "arithmetic_args (AbsOp r i) = [W (regaf_code r), W i]"
| "arithmetic_args (Rem r1 i r2 j) = [W (rega_code r1), W i, W (rega_code r2), W j]"

fun bitwise_byte :: "BitwiseOp \<Rightarrow> u8" where
  "bitwise_byte (BitAnd _ _ _ _) = 0x28"
| "bitwise_byte (BitOr _ _ _ _) = 0x29"
| "bitwise_byte (BitXor _ _ _ _) = 0x2a"
| "bitwise_byte (BitNot _ _) = 0x2b"
| "bitwise_byte (Shl _ _ _ _) = 0x2c"
| "bitwise_byte (ShrA _ _ _ _ _) = 0x2c"
| "bitwise_byte (ShrR _ _ _ _) = 0x2c"
| "bitwise_byte (Scl _ _ _ _) = 0x2d"
| "bitwise_byte (Scr _ _ _ _) = 0x2d"
| "bitwise_byte (RevA _ _) = 0x2e"
| "bitwise_byte (RevR _ _) = 0x2f"

fun bitwise_args :: "BitwiseOp \<Rightarrow> WriteCall list" where
  "bitwise_args (BitAnd r i j k) = [W (regar_code r), W i, W j, W k]"
| "bitwise_args (BitOr r i j k) = [W (regar_code r), W i, W j, W k]"
| "bitwise_args (BitXor r i j k) = [W (regar_code r), W i, W j, W k]"
| "bitwise_args (BitNot r i) = [W (regar_code r), W i]"
| "bitwise_args (Shl a s r i) = [W (0 :: 1 word), W (rega2_code a), W s, W (regar_code r), W i]"
| "bitwise_args (ShrA f a s r i) =
     [W (1 :: 1 word), W (rega2_code a), W s, W (sign_code f), W (0 :: 1 word), W (rega_code r), W i]"
| "bitwise_args (ShrR a s r i) = [W (1 :: 1 word), W (rega2_code a), W s, W (1 :: 1 word), W (regr_code r), W i]"
| "bitwise_args (Scl a s r i) = [W (0 :: 1 word), W (rega2_code a), W s, W (regar_code r), W i]"
| "bitwise_args (Scr a s r i) = [W (1 :: 1 word), W (rega2_code a), W s, W (regar_code r), W i]"
| "bitwise_args (RevA r i) = [W (rega_code r), W i]"
| "bitwise_args (RevR r i) = [W (regr_code r), W i]"

fun bytes_byte :: "BytesOp \<Rightarrow> u8" where
  "bytes_byte (PutS _ _ _) = 0x30"
| "bytes_byte (MovS _ _) = 0x31"
| "bytes_byte (SwpS _ _) = 0x32"
| "bytes_byte (FillS _ _ _ _ _) = 0x33"
| "bytes_byte (LenS _ _ _) = 0x34"
| "bytes_byte (CntS _ _ _) = 0x35"
| "bytes_byte (EqS _ _) = 0x36"
| "bytes_byte (ConS _ _ _ _ _) = 0x37"
| "bytes_byte (FindS _ _) = 0x38"
| "bytes_byte (ExtrS _ _ _ _) = 0x39"
| "bytes_byte (InjS _ _ _ _) = 0x3a"
| "bytes_byte (JoinS _ _ _) = 0x3b"
| "bytes_byte (SpltS _ _ _ _ _) = 0x3c"
| "bytes_byte (InsS _ _ _ _) = 0x3d"
| "bytes_byte (DelS _ _ _ _ _ _ _ _ _) = 0x3e"
| "bytes_byte (RevS _ _) = 0x3f"

definition u8_of_reg_s :: "RegS \<Rightarrow> u8" where
  "u8_of_reg_s r = ucast r"

fun bytes_args :: "BytesOp \<Rightarrow> WriteCall list" where
  "bytes_args (PutS r bs _) = [W (u8_of_reg_s r), WData bs]"
| "bytes_args (MovS r s) = [W r, W s]"
| "bytes_args (SwpS r s) = [W r, W s]"
| "bytes_args (FindS r s) = [W r, W s]"
| "bytes_args (RevS r s) = [W r, W s]"
| "bytes_args (FillS r i j v f) = [W (u8_of_reg_s r), W i, W j, W v, W (extend_code f)]"
| "bytes_args (LenS s r d) = [W (u8_of_reg_s s), W (rega_code r), W d]"
| "bytes_args (CntS s b d) = [W (u8_of_reg_s s), W b, W d]"
| "bytes_args (EqS r s) = [W r, W s]"
| "bytes_args (ConS r s n i j) = [W r, W s, W n, W i, W j, W (bit_code False)]"
| "bytes_args (ExtrS s d i j) = [W s, W (regar_code d), W i, W j]"
| "bytes_args (InjS s d i j) = [W s, W (regar_code d), W i, W j]"
| "bytes_args (JoinS r s d) = [W r, W s, W (u8_of_reg_s d)]"
| "bytes_args (SpltS f i s d e) = [W (split_code f), W i, W (u8_of_reg_s s), W d, W e]"
| "bytes_args (InsS f i s d) = [W (insert_code f), W i, W s, W d]"
| "bytes_args (DelS f r i q j b1 b2 s d) =
     [W (delete_code f), W (rega2_code r), W i, W (rega2_code q), W j, W (bit_code b1), W (bit_code b2), W s, W d]"

fun digest_byte :: "DigestOp \<Rightarrow> u8" where
  "digest_byte (Ripemd _ _) = 0x80"
| "digest_byte (Sha256 _ _) = 0x81"
| "digest_byte (Sha512 _ _) = 0x82"
| "digest_byte (Blake3 _ _) = 0x84"

fun digest_args :: "DigestOp \<Rightarrow> WriteCall list" where
  "digest_args (Ripemd s d) = [W s, W d]"
| "digest_args (Sha256 s d) = [W s, W d]"
| "digest_args (Sha512 s d) = [W s, W d]"
| "digest_args (Blake3 s d) = [W s, W d]"

definition instr_byte :: "('x \<Rightarrow> u8) \<Rightarrow> 'x Instr \<Rightarrow> u8" where
  "instr_byte ext i =
     (case i of
        ControlFlow op \<Rightarrow> control_flow_byte op
      | Put op \<Rightarrow> put_byte op
      | Move op \<Rightarrow> move_byte op
      | CmpI op \<Rightarrow> cmp_byte op
      | Arithmetic op \<Rightarrow> arithmetic_byte op
      | Bitwise op \<Rightarrow> bitwise_byte op
      | Bytes op \<Rightarrow> bytes_byte op
      | Digest op \<Rightarrow> digest_byte op
      | Outstack _ \<Rightarrow> 0x90
      | ExtensionCodes x \<Rightarrow> ext x
      | ReservedInstruction (ReservedOp b) \<Rightarrow> b
      | Nop \<Rightarrow> 1)"

definition instr_args :: "('x \<Rightarrow> WriteCall list) \<Rightarrow> 'x Instr \<Rightarrow> WriteCall list" where
  "instr_args ext i =
     (case i of
        ControlFlow op \<Rightarrow> control_flow_args op
      | Put op \<Rightarrow> put_args op
      | Move op \<Rightarrow> move_args op
      | CmpI op \<Rightarrow> cmp_args op
      | Arithmetic op \<Rightarrow> arithmetic_args op
      | Bitwise op \<Rightarrow> bitwise_args op
      | Bytes op \<Rightarrow> bytes_args op
      | Digest op \<Rightarrow> digest_args op
      | Outstack (Outr r) \<Rightarrow> [W r]
      | ExtensionCodes x \<Rightarrow> ext x
      | ReservedInstruction _ \<Rightarrow> []
      | Nop \<Rightarrow> [])"

fun control_flow_call_site :: "ControlFlowOp \<Rightarrow> LibSite option" where
  "control_flow_call_site (Call s) = Some s"
| "control_flow_call_site (Exec s) = Some s"
| "control_flow_call_site _ = None"

definition call_site :: "'x Instr \<Rightarrow> LibSite option" where
  "call_site i = (case i of ControlFlow op \<Rightarrow> control_flow_call_site op | _ \<Rightarrow> None)"

section \<open>Decoding\<close>

definition control_flow_decode :: "ControlFlowOp reader" where
  "control_flow_decode = rd (\<lambda>b :: u8.
     if b = 0x00 then ret Fail
     else if b = 0x01 then ret Test
     else if b = 0x02 then rd (\<lambda>p. ret (Jmp p))
     else if b = 0x03 then rd (\<lambda>p. ret (Jif p))
     else if b = 0x04 then rd (\<lambda>p. ret (Routine p))
     else if b = 0x05 then rd (\<lambda>p. rd_lib (\<lambda>l. ret (Call \<lparr> site_lib = l, site_pos = p \<rparr>)))
     else if b = 0x06 then rd (\<lambda>p. rd_lib (\<lambda>l. ret (Exec \<lparr> site_lib = l, site_pos = p \<rparr>)))
     else if b = 0x07 then ret Ret
     else panic)"

definition put_decode :: "PutOp reader" where
  "put_decode = rd (\<lambda>b :: u8. rd (\<lambda>r :: u3. rd (\<lambda>i :: u5.
     let a = rega_of_code r; f = regf_of_code r; g = regr_of_code r in
     if b = 0x08 then ret (ClrA a i)
     else if b = 0x09 then ret (ClrF f i)
     else if b = 0x0a then ret (ClrR g i)
     else if b = 0x0b then rd_number (rega_bytes a) (rega_layout a) (\<lambda>m. ret (PutA a i m))
     else if b = 0x0c then rd_number (regf_bytes f) (FloatLayout (regf_layout f)) (\<lambda>m. ret (PutF f i m))
     else if b = 0x0d then rd_number (regr_bytes g) (regr_layout g) (\<lambda>m. ret (PutR g i m))
     else if b = 0x0e then rd_number (rega_bytes a) (rega_layout a) (\<lambda>m. ret (PutIfA a i m))
     else if b = 0x0f then rd_number (regr_bytes g) (regr_layout g) (\<lambda>m. ret (PutIfR g i m))
     else panic)))"

definition move_decode :: "MoveOp reader" where
  "move_decode = rd (\<lambda>b :: u8.
     if b = 0x10 then rd (\<lambda>code :: u3. rd (\<lambda>i :: u5. rd (\<lambda>j :: u5. rd (\<lambda>r :: u3.
       ret (if code = 0 then MovA (rega_of_code r) i j
            else if code = 1 then DupA (rega_of_code r) i j
            else if code = 2 then SwpA (rega_of_code r) i j
            else if code = 3 then MovF (regf_of_code r) i j
            else if code = 4 then DupF (regf_of_code r) i j
            else if code = 5 then SwpF (regf_of_code r) i j
            else if code = 6 then MovR (regr_of_code r) i j
            else DupR (regr_of_code r) i j)))))
     else rd (\<lambda>s :: u3. rd (\<lambda>i :: u5. rd (\<lambda>d :: u3. rd (\<lambda>j :: u5.
       if b = 0x11 then ret (CpyA (rega_of_code s) i (rega_of_code d) j)
       else if b = 0x12 then ret (CnvA (rega_of_code s) i (rega_of_code d) j)
       else if b = 0x13 then ret (CnvF (regf_of_code s) i (regf_of_code d) j)
       else if b = 0x14 then ret (CpyR (regr_of_code s) i (regr_of_code d) j)
       else if b = 0x15 then ret (SpyAR (rega_of_code s) i (regr_of_code d) j)
       else if b = 0x16 then ret (CnvAF (rega_of_code s) i (regf_of_code d) j)
       else if b = 0x17 then ret (CnvFA (regf_of_code s) i (rega_of_code d) j)
       else panic)))))"

definition cmp_decode :: "CmpOp reader" where
  "cmp_decode = rd (\<lambda>b :: u8.
     if b = 0x18 \<or> b = 0x19 then
       rd (\<lambda>code :: 2 word. rd (\<lambda>f :: 1 word. rd (\<lambda>i :: u5. rd (\<lambda>j :: u5. rd (\<lambda>r :: u3.
         ret (if b = 0x18 then
                if code = 0 then GtA (sign_of f) (rega_of_code r) i j
                else if code = 1 then LtA (sign_of f) (rega_of_code r) i j
                else if code = 2 then GtF (float_eq_of f) (regf_of_code r) i j
                else LtF (float_eq_of f) (regf_of_code r) i j
              else if code = 0 then
                if f = 0 then GtR (regr_of_code r) i j else LtR (regr_of_code r) i j
              else if code = 1 then EqA (none_eq_of f) (rega_of_code r) i j
              else if code = 2 then EqF (float_eq_of f) (regf_of_code r) i j
              else EqR (none_eq_of f) (regr_of_code r) i j))))))
     else if b = 0x1f then ret StInv
     else if b = 0x1e then
       rd (\<lambda>f :: 2 word. rd (\<lambda>r :: u3. rd (\<lambda>i :: u3. ret (St (merge_of f) (rega_of_code r) i))))
     else rd (\<lambda>r :: u3. rd (\<lambda>i :: u5.
       if b = 0x1a then ret (IfZA (rega_of_code r) i)
       else if b = 0x1c then ret (IfNA (rega_of_code r) i)
       else if b = 0x1b then ret (IfZR (regr_of_code r) i)
       else if b = 0x1d then ret (IfNR (regr_of_code r) i)
       else panic)))"

definition arithmetic_decode :: "ArithmeticOp reader" where
  "arithmetic_decode = rd (\<lambda>b :: u8.
     if 0x20 \<le> b \<and> b \<le> 0x23 then
       rd (\<lambda>code :: 1 word. rd (\<lambda>f :: 2 word. rd (\<lambda>i :: u5. rd (\<lambda>j :: u5. rd (\<lambda>r :: u3.
         let fi = int_flags_of f; ff = rounding_of f; a = rega_of_code r; g = regf_of_code r in
         ret (if code = 0 then
                if b = 0x20 then AddA fi a i j
                else if b = 0x21 then SubA fi a i j
                else if b = 0x22 then MulA fi a i j
                else DivA fi a i j
              else
                if b = 0x20 then AddF ff g i j
                else if b = 0x21 then SubF ff g i j
                else if b = 0x22 then MulF ff g i j
                else DivF ff g i j))))))
     else if b = 0x25 then rd (\<lambda>r :: u4. rd (\<lambda>i :: u4. ret (Neg (regaf_of_code r) i)))
     else if b = 0x24 then rd (\<lambda>r :: u3. rd (\<lambda>i :: u5. rd (\<lambda>s :: u8. ret (Stp (rega_of_code r) i s))))
     else if b = 0x27 then
       rd (\<lambda>r :: u3. rd (\<lambda>i :: u5. rd (\<lambda>q :: u3. rd (\<lambda>j :: u5. ret (Rem (rega_of_code r) i (rega_of_code q) j)))))
     else if b = 0x26 then rd (\<lambda>r :: u4. rd (\<lambda>i :: u4. ret (AbsOp (regaf_of_code r) i)))
     else panic)"

definition bitwise_decode :: "BitwiseOp reader" where
  "bitwise_decode = rd (\<lambda>b :: u8.
     if 0x28 \<le> b \<and> b \<le> 0x2a then
       rd (\<lambda>r :: u4. rd (\<lambda>i :: u4. rd (\<lambda>j :: u4. rd (\<lambda>k :: u4.
         let g = regar_of_code r in
         ret (if b = 0x28 then BitAnd g i j k else if b = 0x29 then BitOr g i j k else BitXor g i j k)))))
     else if b = 0x2d then
       rd (\<lambda>code :: 1 word. rd (\<lambda>a :: 1 word. rd (\<lambda>s :: u5. rd (\<lambda>r :: u4. rd (\<lambda>i :: u5.
         ret ((if code = 0 then Scl else Scr) (rega2_of_code a) s (regar_of_code r) i))))))
     else if b = 0x2c then
       rd (\<lambda>code :: 1 word. rd (\<lambda>a :: 1 word.
         if code = 0 then
           rd (\<lambda>s :: u5. rd (\<lambda>r :: u4. rd (\<lambda>i :: u5. ret (Shl (rega2_of_code a) s (regar_of_code r) i))))
         else
           rd (\<lambda>s :: u4. rd (\<lambda>sg :: 1 word. rd (\<lambda>blk :: 1 word. rd (\<lambda>r :: u3. rd (\<lambda>i :: u5.
             let s2 = word_of_nat (push_bit 4 (unat sg) OR unat s) in
             ret (if blk = 0 then ShrA (sign_of sg) (rega2_of_code a) s (rega_of_code r) i
                  else ShrR (rega2_of_code a) s2 (regr_of_code r) i))))))))
     else if b = 0x2b then rd (\<lambda>r :: u4. rd (\<lambda>i :: u4. ret (BitNot (regar_of_code r) i)))
     else if b = 0x2e then rd (\<lambda>r :: u3. rd (\<lambda>i :: u5. ret (RevA (rega_of_code r) i)))
     else if b = 0x2f then rd (\<lambda>r :: u3. rd (\<lambda>i :: u5. ret (RevR (regr_of_code r) i)))
     else panic)"

definition two_s :: "(RegS \<Rightarrow> RegS \<Rightarrow> 'a) \<Rightarrow> 'a reader" where
  "two_s f = rd (\<lambda>r :: u4. rd (\<lambda>s :: u4. ret (f r s)))"

definition bytes_decode :: "BytesOp reader" where
  "bytes_decode = rd (\<lambda>b :: u8.
     if b = 0x30 then rd (\<lambda>r :: u8. rd_data (\<lambda>bs st. ret (PutS (reg_s_of_u8 r) bs st)))
     else if b = 0x31 then two_s MovS
     else if b = 0x32 then two_s SwpS
     else if b = 0x38 then two_s FindS
     else if b = 0x3f then two_s RevS
     else if b = 0x33 then
       rd (\<lambda>r :: u8. rd (\<lambda>i :: u5. rd (\<lambda>j :: u5. rd (\<lambda>v :: u5. rd (\<lambda>f :: 1 word.
         ret (FillS (reg_s_of_u8 r) i j v (extend_of f)))))))
     else if b = 0x34 then rd (\<lambda>r :: u8. rd (\<lambda>a :: u3. rd (\<lambda>i :: u5. ret (LenS (reg_s_of_u8 r) (rega_of_code a) i))))
     else if b = 0x35 then rd (\<lambda>r :: u8. rd (\<lambda>i :: u4. rd (\<lambda>j :: u4. ret (CntS (reg_s_of_u8 r) i j))))
     else if b = 0x36 then two_s EqS
     else if b = 0x37 then
       rd (\<lambda>r :: u4. rd (\<lambda>s :: u4. rd (\<lambda>n :: u5. rd (\<lambda>i :: u5. rd (\<lambda>j :: u5. rd (\<lambda>_ :: 1 word.
         ret (ConS r s n i j)))))))
     else if b = 0x39 then
       rd (\<lambda>s :: u4. rd (\<lambda>d :: u4. rd (\<lambda>i :: u4. rd (\<lambda>j :: u4. ret (ExtrS s (regar_of_code d) i j)))))
     else if b = 0x3a then
       rd (\<lambda>s :: u4. rd (\<lambda>d :: u4. rd (\<lambda>i :: u4. rd (\<lambda>j :: u4. ret (InjS s (regar_of_code d) i j)))))
     else if b = 0x3b then rd (\<lambda>r :: u4. rd (\<lambda>s :: u4. rd (\<lambda>d :: u8. ret (JoinS r s (reg_s_of_u8 d)))))
     else if b = 0x3c then
       rd (\<lambda>f :: u3. rd (\<lambda>i :: u5. rd (\<lambda>s :: u8. rd (\<lambda>d :: u4. rd (\<lambda>e :: u4.
         ret (SpltS (split_of f) i (reg_s_of_u8 s) d e))))))
     else if b = 0x3d then
       rd (\<lambda>f :: u3. rd (\<lambda>i :: u5. rd (\<lambda>s :: u4. rd (\<lambda>d :: u4. ret (InsS (insert_of f) i s d)))))
     else if b = 0x3e then
       rd (\<lambda>f :: 2 word. rd (\<lambda>r :: 1 word. rd (\<lambda>i :: u5. rd (\<lambda>q :: 1 word. rd (\<lambda>j :: u5.
       rd (\<lambda>b1 :: 1 word. rd (\<lambda>b2 :: 1 word. rd (\<lambda>s :: u4. rd (\<lambda>d :: u4.
         ret (DelS (delete_of f) (rega2_of_code r) i (rega2_of_code q) j (b1 = 1) (b2 = 1) s d))))))))))
     else panic)"

definition digest_decode :: "DigestOp reader" where
  "digest_decode = rd (\<lambda>b :: u8. rd (\<lambda>s :: u4. rd (\<lambda>d :: u4.
     if b = 0x80 then ret (Ripemd s d)
     else if b = 0x81 then ret (Sha256 s d)
     else if b = 0x84 then ret (Blake3 s d)
     else if b = 0x82 then ret (Sha512 s d)
     else panic)))"

definition outstack_decode :: "OutstackOp reader" where
  "outstack_decode = rd (\<lambda>b :: u8.
     if b = 0x90 then rd (\<lambda>r. ret (Outr r))
     else if 0x90 \<le> b \<and> b \<le> 0x9f then (\<lambda>c. Some (None, c))
     else panic)"

definition reserved_decode :: "ReservedOp reader" where
  "reserved_decode = rd (\<lambda>b. ret (ReservedOp b))"

definition rd_map :: "('a \<Rightarrow> 'b) \<Rightarrow> 'a reader \<Rightarrow> 'b reader" where
  "rd_map f r c = map_option (\<lambda>(x, c'). (map_option f x, c')) (r c)"

text \<open>The hook for a prefix of the extension is the default one, which reads nothing.\<close>

definition instr_decode :: "'x reader \<Rightarrow> 'x Instr reader" where
  "instr_decode ext c =
     (case peek_u8 c of
        None \<Rightarrow> Some (None, c)
      | Some b \<Rightarrow>
          if b \<le> 0x07 then rd_map ControlFlow control_flow_decode c
          else if b \<le> 0x0f then rd_map Put put_decode c
          else if b \<le> 0x17 then rd_map Move move_decode c
          else if b \<le> 0x1f then rd_map CmpI cmp_decode c
          else if b \<le> 0x27 then rd_map Arithmetic arithmetic_decode c
          else if b \<le> 0x2f then rd_map Bitwise bitwise_decode c
          else if b \<le> 0x3f then rd_map Bytes bytes_decode c
          else if 0x80 \<le> b \<and> b \<le> 0x82 then rd_map Digest digest_decode c
          else if 0x90 \<le> b \<and> b \<le> 0x9f then rd_map Outstack outstack_decode c
          else if b \<le> 0x7f then rd_map ReservedInstruction reserved_decode c
          else if b = 0xff then Some (Some Nop, c)
          else rd_map ExtensionCodes ext c)"

end
