(* ===== verification/Alu_Vm.thy ===== *)
theory Alu_Vm
  imports Alu_Bytecode Commit
begin

text \<open>
  Code libraries and the virtual machine (\<open>rgb-aluvm/src/library/lib.rs\<close>, \<open>rgb-aluvm/src/vm.rs\<close>).
  Both loops are unbounded in the source: a run that never returns is \<open>None\<close>, a run that panics is
  \<open>Some None\<close>.  The instruction set is what the loop needs of the trait \<open>InstructionSet\<close>.
\<close>

section \<open>Libraries\<close>

record Lib =
  lib_isae :: "string list"
  lib_code :: bytes
  lib_data :: bytes
  lib_libs :: "LibId list"

definition LIB_ID_TAG :: string where
  "LIB_ID_TAG = ''urn:ubideco:aluvm:lib:v01#230304''"

fun isae_segment :: "string list \<Rightarrow> string" where
  "isae_segment [] = []"
| "isae_segment [n] = n"
| "isae_segment (n # ns) = n @ '' '' @ isae_segment ns"

definition u16_le :: "nat \<Rightarrow> bytes" where
  "u16_le n = [word_of_nat (n mod 256), word_of_nat (n div 256 mod 256)]"

definition lib_id_with :: "(bytes \<Rightarrow> bytes32) \<Rightarrow> string \<Rightarrow> bytes \<Rightarrow> bytes \<Rightarrow> LibId list \<Rightarrow> LibId" where
  "lib_id_with sha isae code data libs =
     (let tag = hash_bytes (sha (string_bytes LIB_ID_TAG)) in
      sha (tag @ tag
        @ [word_of_nat (length isae)] @ string_bytes isae
        @ u16_le (length code) @ code
        @ u16_le (length data) @ data
        @ [word_of_nat (length libs)] @ concat (map hash_bytes libs)))"

definition library_id :: "(bytes \<Rightarrow> bytes32) \<Rightarrow> Lib \<Rightarrow> LibId" where
  "library_id sha l = lib_id_with sha (isae_segment (lib_isae l)) (lib_code l) (lib_data l) (lib_libs l)"

section \<open>Assembling\<close>

datatype AssemblerError = AsmBytecode BytecodeError | LibSegOverflow

record 'i InstructionSet =
  is_ids :: "string list"
  is_byte :: "'i \<Rightarrow> u8"
  is_args :: "'i \<Rightarrow> WriteCall list"
  is_call_site :: "'i \<Rightarrow> LibSite option"
  is_decode :: "'i reader"
  is_exec :: "'i \<Rightarrow> CoreRegs \<Rightarrow> LibSite \<Rightarrow> CoreRegs step"
  is_complexity :: "'i \<Rightarrow> u64"

definition encode :: "AluLib \<Rightarrow> 'i InstructionSet \<Rightarrow> 'i \<Rightarrow> Cursor \<Rightarrow> (BytecodeError, Cursor) presult" where
  "encode A I i c = write_calls A (W (is_byte I i) # is_args I i) c"

fun encode_all :: "AluLib \<Rightarrow> 'i InstructionSet \<Rightarrow> 'i list \<Rightarrow> Cursor \<Rightarrow> (BytecodeError, Cursor) presult" where
  "encode_all A I [] c = POk c"
| "encode_all A I (i # is) c = p_then (encode A I i c) (encode_all A I is)"

definition lib_seg :: "LibId list \<Rightarrow> LibId list option" where
  "lib_seg ids = (let s = sort (remdups ids) in if length s > 0xFF then None else Some s)"

text \<open>The code segment is cut at the byte position, whatever the bit position is.\<close>

definition assemble :: "AluLib \<Rightarrow> 'i InstructionSet \<Rightarrow> 'i list \<Rightarrow> (AssemblerError, Lib) presult" where
  "assemble A I code =
     (case lib_seg (map site_lib (List.map_filter (is_call_site I) code)) of
        None \<Rightarrow> PErr LibSegOverflow
      | Some libs \<Rightarrow>
          (case encode_all A I code (cursor_new libs) of
             None \<Rightarrow> None
           | Some (Inl e) \<Rightarrow> PErr (AsmBytecode e)
           | Some (Inr c) \<Rightarrow>
               POk \<lparr> lib_isae = is_ids I, lib_code = adjust_len (cur_code c) (cur_byte c),
                     lib_data = cur_data c, lib_libs = libs \<rparr>))"

text \<open>
  Disassembling reads until the end of the code; a decoder that reads nothing makes it run
  forever.
\<close>

partial_function (option) disassemble_loop ::
  "'i InstructionSet \<Rightarrow> 'i list \<Rightarrow> Cursor \<Rightarrow> 'i list option option option" where
  "disassemble_loop I acc c =
     (if is_eof c then Some (Some (Some acc))
      else case is_decode I c of
        None \<Rightarrow> Some None
      | Some (None, _) \<Rightarrow> Some (Some None)
      | Some (Some i, c') \<Rightarrow> disassemble_loop I (acc @ [i]) c')"

definition disassemble :: "'i InstructionSet \<Rightarrow> Lib \<Rightarrow> 'i list option option option" where
  "disassemble I l =
     (case cursor_with (lib_code l) (lib_data l) (lib_libs l) of
        None \<Rightarrow> Some None
      | Some c \<Rightarrow> disassemble_loop I [] c)"

section \<open>Execution\<close>

partial_function (option) lib_loop ::
  "'i InstructionSet \<Rightarrow> LibId \<Rightarrow> Cursor \<Rightarrow> CoreRegs \<Rightarrow> (LibSite option \<times> CoreRegs) option option" where
  "lib_loop I lid c rs =
     (if is_eof c then Some (Some (None, rs))
      else case is_decode I c of
        None \<Rightarrow> Some None
      | Some (None, _) \<Rightarrow> Some (Some (None, rs))
      | Some (Some i, c') \<Rightarrow>
          (case is_exec I i rs \<lparr> site_lib = lid, site_pos = word_of_nat (cur_byte c) \<rparr> of
             None \<Rightarrow> Some None
           | Some (rs, step) \<Rightarrow>
               let (rs, ok) = acc_complexity rs (is_complexity I i) in
               if \<not> ok then Some (Some (None, rs))
               else case step of
                 Stop \<Rightarrow> Some (Some (None, rs))
               | FailStep \<Rightarrow> Some (Some (None, set_st0 rs False))
               | Next \<Rightarrow> lib_loop I lid c' rs
               | Jump p \<Rightarrow>
                   (case seek p c' of
                      None \<Rightarrow> Some (Some (None, set_st0 rs False))
                    | Some c'' \<Rightarrow> lib_loop I lid c'' rs)
               | CallStep site \<Rightarrow> Some (Some (Some site, rs))))"

definition lib_exec ::
  "(bytes \<Rightarrow> bytes32) \<Rightarrow> 'i InstructionSet \<Rightarrow> Lib \<Rightarrow> u16 \<Rightarrow> CoreRegs \<Rightarrow> (LibSite option \<times> CoreRegs) option option" where
  "lib_exec sha I l entrypoint rs =
     (case cursor_with (lib_code l) (lib_data l) (lib_libs l) of
        None \<Rightarrow> Some None
      | Some c \<Rightarrow>
          (case seek entrypoint c of
             None \<Rightarrow> Some (Some (None, set_st0 rs False))
           | Some c' \<Rightarrow> lib_loop I (library_id sha l) c' rs))"

partial_function (option) vm_loop ::
  "(bytes \<Rightarrow> bytes32) \<Rightarrow> 'i InstructionSet \<Rightarrow> (LibId \<Rightarrow> Lib option) \<Rightarrow> LibSite option \<Rightarrow> CoreRegs \<Rightarrow> CoreRegs option option" where
  "vm_loop sha I libs call rs =
     (case call of
        None \<Rightarrow> Some (Some rs)
      | Some site \<Rightarrow>
          (case libs (site_lib site) of
             Some l \<Rightarrow>
               (case lib_exec sha I l (site_pos site) rs of
                  None \<Rightarrow> None
                | Some None \<Rightarrow> Some None
                | Some (Some (call', rs')) \<Rightarrow> vm_loop sha I libs call' rs')
           | None \<Rightarrow>
               (case u16_checked_inc (site_pos site) of
                  Some p \<Rightarrow> vm_loop sha I libs (Some (site\<lparr> site_pos := p \<rparr>)) rs
                | None \<Rightarrow> vm_loop sha I libs None rs)))"

definition vm_exec ::
  "(bytes \<Rightarrow> bytes32) \<Rightarrow> 'i InstructionSet \<Rightarrow> LibSite \<Rightarrow> (LibId \<Rightarrow> Lib option) \<Rightarrow> CoreRegs \<Rightarrow> CoreRegs option option" where
  "vm_exec sha I entry_point libs rs = vm_loop sha I libs (Some entry_point) rs"

end
