(* ===== verification/Contract_Op.thy ===== *)
theory Contract_Op
  imports Alu_Vm Validation
begin

text \<open>
  The instructions RGB adds to the virtual machine (\<open>rgb-consensus/src/vm/\<close>: \<open>op_contract.rs\<close>,
  \<open>isa.rs\<close>, \<open>opcodes.rs\<close>) and the run of a validation script (\<open>validation/logic.rs\<close>).  The state
  of the contract is reached through the trait \<open>ContractStateAccess\<close>, the parameter \<open>S\<close>; the
  verification of a signature is that of the library record.
\<close>

section \<open>Instructions\<close>

datatype ContractOp =
    CnP AssignmentType Reg32
  | CnS AssignmentType Reg32
  | CnG GlobalStateType Reg32
  | CnC GlobalStateType Reg32
  | LdP AssignmentType Reg16 RegS
  | LdS AssignmentType Reg16 RegS
  | LdF AssignmentType Reg16 Reg16
  | LdR AssignmentType Reg16 Reg16
  | LdG GlobalStateType Reg16 RegS
  | LdC GlobalStateType Reg16 RegS
  | LdM MetaType RegS
  | LdOF AssignmentType Reg16 Reg16 Reg16 Reg16
  | LdOD AssignmentType Reg16 Reg16 Reg16 RegS
  | LdOR AssignmentType Reg16 Reg16 Reg16
  | Svs AssignmentType
  | Sas AssignmentType
  | Sps AssignmentType
  | Vts RegS
  | FailOp u8

datatype RgbIsa = Contract ContractOp | RgbFail u8

fun contract_complexity :: "ContractOp \<Rightarrow> u64" where
  "contract_complexity (CnP _ _) = 2"
| "contract_complexity (CnS _ _) = 2"
| "contract_complexity (CnG _ _) = 2"
| "contract_complexity (CnC _ _) = 2"
| "contract_complexity (LdM _ _) = 6"
| "contract_complexity (Svs _) = 20"
| "contract_complexity (Sas _) = 20"
| "contract_complexity (Sps _) = 20"
| "contract_complexity (Vts _) = 512"
| "contract_complexity (FailOp _) = - 1"
| "contract_complexity _ = 8"

section \<open>Execution\<close>

definition fail_stop :: "CoreRegs \<Rightarrow> CoreRegs step" where
  "fail_stop rs = Some (set_failure rs, Stop)"

fun fungible_states :: "RevealedState list \<Rightarrow> u64 list option" where
  "fungible_states [] = Some []"
| "fungible_states (RFungible v # ss) = map_option ((#) (as_u64 v)) (fungible_states ss)"
| "fungible_states (_ # ss) = None"

definition load_revealed_inputs :: "OpInfo \<Rightarrow> AssignmentType \<Rightarrow> u64 list option" where
  "load_revealed_inputs oi ty =
     (case omap_get (oi_prev_state oi) ty of None \<Rightarrow> Some [] | Some ss \<Rightarrow> fungible_states ss)"

definition load_revealed_outputs :: "OpInfo \<Rightarrow> AssignmentType \<Rightarrow> u64 list option" where
  "load_revealed_outputs oi ty =
     (case aref_get (oi_owned_state oi) ty of
        None \<Rightarrow> Some []
      | Some (FungibleAssigns as) \<Rightarrow> Some (map (as_u64 \<circ> as_revealed_state) as)
      | Some _ \<Rightarrow> None)"

definition u64_checked_add :: "u64 \<Rightarrow> u64 \<Rightarrow> u64 option" where
  "u64_checked_add a b = (if unat a + unat b < 2 ^ 64 then Some (a + b) else None)"

fun checked_sum :: "u64 \<Rightarrow> u64 list \<Rightarrow> u64 option" where
  "checked_sum acc [] = Some acc"
| "checked_sum acc (x # xs) = (case u64_checked_add acc x of None \<Rightarrow> None | Some s \<Rightarrow> checked_sum s xs)"

definition set_num :: "AluLib \<Rightarrow> RegA \<Rightarrow> Reg32 \<Rightarrow> Number \<Rightarrow> CoreRegs \<Rightarrow> CoreRegs step" where
  "set_num A r i n rs = next_step (map_option fst (set_n A rs (AFR_A r) i (Some n)))"

definition set_bytes :: "RegS \<Rightarrow> bytes \<Rightarrow> CoreRegs \<Rightarrow> CoreRegs step" where
  "set_bytes r bs rs = Some (set_s16 rs r (Some bs), Next)"

text \<open>The transaction identifier in a register lists its bytes from the least significant.\<close>

definition txid_of_reg :: "nat \<Rightarrow> Txid" where
  "txid_of_reg v = word_of_nat (foldl (\<lambda>a i. 256 * a + byte_of v i) 0 [0..<32])"

definition reg_outpoint :: "CoreRegs \<Rightarrow> Reg16 \<Rightarrow> Reg16 \<Rightarrow> Outpoint option" where
  "reg_outpoint rs txid_reg vout_reg =
     (case (reg_r rs R256 (reg32_of_16 txid_reg), reg_a rs A32 (reg32_of_16 vout_reg)) of
        (Some t, Some v) \<Rightarrow> Some (outpoint_new (txid_of_reg t) (word_of_nat v))
      | _ \<Rightarrow> None)"

definition sum_outputs :: "OpInfo \<Rightarrow> AssignmentType \<Rightarrow> u64 option" where
  "sum_outputs oi ty =
     (case load_revealed_outputs oi ty of
        None \<Rightarrow> None
      | Some vs \<Rightarrow> if 0 \<in> set vs then None else checked_sum 0 vs)"

definition sum_inputs :: "OpInfo \<Rightarrow> AssignmentType \<Rightarrow> u64 option" where
  "sum_inputs oi ty =
     (case load_revealed_inputs oi ty of None \<Rightarrow> None | Some vs \<Rightarrow> checked_sum 0 vs)"

fun vts_exec :: "AluLib \<Rightarrow> OpInfo \<Rightarrow> RegS \<Rightarrow> CoreRegs \<Rightarrow> CoreRegs step" where
  "vts_exec A oi r rs =
     (case oi_op oi of
        OrdGenesis _ \<Rightarrow> fail_stop rs
      | OrdTransition t _ _ _ \<Rightarrow>
          (case (reg_s rs r, t_signature t) of
             (Some pk, Some sig) \<Rightarrow> if ecdsa_verify A pk sig (oi_id oi) then Some (rs, Next) else fail_stop rs
           | _ \<Rightarrow> fail_stop rs))"

fun contract_exec ::
  "AluLib \<Rightarrow> 's ContractStateAccess \<Rightarrow> 's VmContext \<Rightarrow> ContractOp \<Rightarrow> CoreRegs \<Rightarrow> CoreRegs step" where
  "contract_exec A S ctx (CnP ty r) rs =
     set_num A A16 r (from_uint 2 (case omap_get (oi_prev_state (vc_op_info ctx)) ty of
        None \<Rightarrow> 0 | Some ss \<Rightarrow> length ss mod 65536)) rs"
| "contract_exec A S ctx (CnS ty r) rs =
     set_num A A16 r (from_uint 2 (case aref_get (oi_owned_state (vc_op_info ctx)) ty of
        None \<Rightarrow> 0 | Some ta \<Rightarrow> unat (ta_len_u16 ta))) rs"
| "contract_exec A S ctx (CnG ty r) rs =
     set_num A A8 r (from_uint 2 (case omap_get (oi_global (vc_op_info ctx)) ty of
        None \<Rightarrow> 0 | Some vs \<Rightarrow> length vs mod 65536)) rs"
| "contract_exec A S ctx (CnC ty r) rs =
     set_num A A32 r (from_uint 4 (case csa_global S (vc_contract_state ctx) ty of
        None \<Rightarrow> 0 | Some vs \<Rightarrow> length vs mod 2 ^ 32)) rs"
| "contract_exec A S ctx (LdP ty i r) rs =
     (case reg_a rs A16 (reg32_of_16 i) of
        None \<Rightarrow> fail_stop rs
      | Some n \<Rightarrow>
          (case Option.bind (omap_get (oi_prev_state (vc_op_info ctx)) ty) (\<lambda>ss. vec_get ss n) of
             Some (RStructured d) \<Rightarrow> set_bytes r d rs
           | _ \<Rightarrow> fail_stop rs))"
| "contract_exec A S ctx (LdS ty i r) rs =
     (case reg_a rs A16 (reg32_of_16 i) of
        None \<Rightarrow> fail_stop rs
      | Some n \<Rightarrow>
          (case map_option (\<lambda>ta. into_structured_state_at ta (word_of_nat n)) (aref_get (oi_owned_state (vc_op_info ctx)) ty) of
             Some (Inr d) \<Rightarrow> set_bytes r d rs
           | _ \<Rightarrow> fail_stop rs))"
| "contract_exec A S ctx (LdF ty i d) rs =
     (case reg_a rs A16 (reg32_of_16 i) of
        None \<Rightarrow> fail_stop rs
      | Some n \<Rightarrow>
          (case map_option (\<lambda>ta. into_fungible_state_at ta (word_of_nat n)) (aref_get (oi_owned_state (vc_op_info ctx)) ty) of
             Some (Inr v) \<Rightarrow> set_num A A64 (reg32_of_16 d) (from_uint 8 (unat (as_u64 v))) rs
           | _ \<Rightarrow> fail_stop rs))"
| "contract_exec A S ctx (LdR ty i d) rs =
     set_num A A8 (reg32_of_16 d) (from_uint 1
       (case (reg_a rs A16 (reg32_of_16 i), aref_get (oi_owned_state (vc_op_info ctx)) ty) of
          (Some n, Some ta) \<Rightarrow> if ta_state_type ta = Void \<and> word_of_nat n < ta_len_u16 ta then 1 else 0
        | _ \<Rightarrow> 0)) rs"
| "contract_exec A S ctx (LdG ty i r) rs =
     (case reg_a rs A8 (reg32_of_16 i) of
        None \<Rightarrow> fail_stop rs
      | Some n \<Rightarrow>
          (case Option.bind (omap_get (oi_global (vc_op_info ctx)) ty) (\<lambda>vs. vec_get vs n) of
             Some d \<Rightarrow> set_bytes r d rs
           | None \<Rightarrow> fail_stop rs))"
| "contract_exec A S ctx (LdC ty i r) rs =
     (case (csa_global S (vc_contract_state ctx) ty, reg_a rs A32 (reg32_of_16 i)) of
        (Some es, Some n) \<Rightarrow>
          (if n \<ge> 2 ^ 24 then fail_stop rs
           else case vec_get es n of Some e \<Rightarrow> set_bytes r (gse_data e) rs | None \<Rightarrow> fail_stop rs)
      | _ \<Rightarrow> fail_stop rs)"
| "contract_exec A S ctx (LdM ty r) rs =
     (case omap_get (oi_metadata (vc_op_info ctx)) ty of
        Some m \<Rightarrow> set_bytes r m rs
      | None \<Rightarrow> fail_stop rs)"
| "contract_exec A S ctx (LdOF ty t v i d) rs =
     (case (reg_outpoint rs t v, reg_a rs A16 (reg32_of_16 i)) of
        (Some op, Some n) \<Rightarrow>
          (case vec_get (csa_fungible S (vc_contract_state ctx) op ty) n of
             Some x \<Rightarrow> set_num A A64 (reg32_of_16 d) (from_uint 8 (unat (as_u64 x))) rs
           | None \<Rightarrow> fail_stop rs)
      | _ \<Rightarrow> fail_stop rs)"
| "contract_exec A S ctx (LdOD ty t v i d) rs =
     (case (reg_outpoint rs t v, reg_a rs A16 (reg32_of_16 i)) of
        (Some op, Some n) \<Rightarrow>
          (case vec_get (csa_data S (vc_contract_state ctx) op ty) n of
             Some x \<Rightarrow> set_bytes d x rs
           | None \<Rightarrow> fail_stop rs)
      | _ \<Rightarrow> fail_stop rs)"
| "contract_exec A S ctx (LdOR ty t v d) rs =
     (case reg_outpoint rs t v of
        Some op \<Rightarrow> set_num A A32 (reg32_of_16 d) (from_uint 4 (unat (csa_rights S (vc_contract_state ctx) op ty))) rs
      | None \<Rightarrow> fail_stop rs)"
| "contract_exec A S ctx (Svs ty) rs =
     (case (sum_inputs (vc_op_info ctx) ty, sum_outputs (vc_op_info ctx) ty) of
        (Some a, Some b) \<Rightarrow> if a = b then Some (rs, Next) else fail_stop rs
      | _ \<Rightarrow> fail_stop rs)"
| "contract_exec A S ctx (Sas ty) rs =
     (case (reg_a rs A64 0, sum_outputs (vc_op_info ctx) ty) of
        (Some s, Some b) \<Rightarrow> if word_of_nat s = b then Some (rs, Next) else fail_stop rs
      | _ \<Rightarrow> fail_stop rs)"
| "contract_exec A S ctx (Sps ty) rs =
     (case (reg_a rs A64 0, sum_inputs (vc_op_info ctx) ty) of
        (Some s, Some a) \<Rightarrow> if word_of_nat s = a then Some (rs, Next) else fail_stop rs
      | _ \<Rightarrow> fail_stop rs)"
| "contract_exec A S ctx (Vts r) rs = vts_exec A (vc_op_info ctx) r rs"
| "contract_exec A S ctx (FailOp _) rs = fail_stop rs"

section \<open>Bytecode\<close>

fun contract_byte :: "ContractOp \<Rightarrow> u8" where
  "contract_byte (CnP _ _) = 0xc0"
| "contract_byte (CnS _ _) = 0xc1"
| "contract_byte (CnG _ _) = 0xc2"
| "contract_byte (CnC _ _) = 0xc3"
| "contract_byte (LdP _ _ _) = 0xc4"
| "contract_byte (LdS _ _ _) = 0xc5"
| "contract_byte (LdF _ _ _) = 0xc6"
| "contract_byte (LdR _ _ _) = 0xc7"
| "contract_byte (LdG _ _ _) = 0xc8"
| "contract_byte (LdC _ _ _) = 0xc9"
| "contract_byte (LdM _ _) = 0xca"
| "contract_byte (LdOF _ _ _ _ _) = 0xcb"
| "contract_byte (LdOD _ _ _ _ _) = 0xcc"
| "contract_byte (LdOR _ _ _ _) = 0xcd"
| "contract_byte (Svs _) = 0xd0"
| "contract_byte (Sas _) = 0xd1"
| "contract_byte (Sps _) = 0xd2"
| "contract_byte (Vts _) = 0xd3"
| "contract_byte (FailOp b) = b"

fun contract_args :: "ContractOp \<Rightarrow> WriteCall list" where
  "contract_args (CnP ty r) = [W ty, W r, W (0 :: u3)]"
| "contract_args (CnS ty r) = [W ty, W r, W (0 :: u3)]"
| "contract_args (CnG ty r) = [W ty, W r, W (0 :: u3)]"
| "contract_args (CnC ty r) = [W ty, W r, W (0 :: u3)]"
| "contract_args (LdP ty i r) = [W ty, W i, W r]"
| "contract_args (LdS ty i r) = [W ty, W i, W r]"
| "contract_args (LdF ty i r) = [W ty, W i, W r]"
| "contract_args (LdR ty i r) = [W ty, W i, W r]"
| "contract_args (LdG ty i r) = [W ty, W i, W r]"
| "contract_args (LdC ty i r) = [W ty, W i, W r]"
| "contract_args (LdM ty r) = [W ty, W r, W (0 :: u4)]"
| "contract_args (LdOF ty t v i d) = [W ty, W t, W v, W i, W d]"
| "contract_args (LdOD ty t v i d) = [W ty, W t, W v, W i, W d]"
| "contract_args (LdOR ty t v d) = [W ty, W t, W v, W d, W (0 :: u4)]"
| "contract_args (Svs ty) = [W ty]"
| "contract_args (Sas ty) = [W ty]"
| "contract_args (Sps ty) = [W ty]"
| "contract_args (Vts r) = [W r]"
| "contract_args (FailOp _) = []"

definition count_decode :: "(u16 \<Rightarrow> Reg32 \<Rightarrow> ContractOp) \<Rightarrow> ContractOp reader" where
  "count_decode f = rd (\<lambda>ty :: u16. rd (\<lambda>r :: u5. rd (\<lambda>_ :: u3. ret (f ty r))))"

definition load_decode :: "(u16 \<Rightarrow> Reg16 \<Rightarrow> RegS \<Rightarrow> ContractOp) \<Rightarrow> ContractOp reader" where
  "load_decode f = rd (\<lambda>ty :: u16. rd (\<lambda>i :: u4. rd (\<lambda>r :: u4. ret (f ty i r))))"

definition owned_decode :: "(u16 \<Rightarrow> Reg16 \<Rightarrow> Reg16 \<Rightarrow> Reg16 \<Rightarrow> Reg16 \<Rightarrow> ContractOp) \<Rightarrow> ContractOp reader" where
  "owned_decode f = rd (\<lambda>ty :: u16. rd (\<lambda>t :: u4. rd (\<lambda>v :: u4. rd (\<lambda>i :: u4. rd (\<lambda>d :: u4. ret (f ty t v i d))))))"

definition contract_decode :: "ContractOp reader" where
  "contract_decode = rd (\<lambda>b :: u8.
     if b = 0xc0 then count_decode CnP
     else if b = 0xc1 then count_decode CnS
     else if b = 0xc2 then count_decode CnG
     else if b = 0xc3 then count_decode CnC
     else if b = 0xc4 then load_decode LdP
     else if b = 0xc6 then load_decode LdF
     else if b = 0xc7 then load_decode LdR
     else if b = 0xc8 then load_decode LdG
     else if b = 0xc5 then load_decode LdS
     else if b = 0xc9 then load_decode LdC
     else if b = 0xca then rd (\<lambda>ty :: u16. rd (\<lambda>r :: u4. rd (\<lambda>_ :: u4. ret (LdM ty r))))
     else if b = 0xcb then owned_decode LdOF
     else if b = 0xcc then owned_decode LdOD
     else if b = 0xcd then owned_decode (\<lambda>ty t v d _. LdOR ty t v d)
     else if b = 0xd0 then rd (\<lambda>ty. ret (Svs ty))
     else if b = 0xd1 then rd (\<lambda>ty. ret (Sas ty))
     else if b = 0xd2 then rd (\<lambda>ty. ret (Sps ty))
     else if b = 0xd3 then rd (\<lambda>r. ret (Vts r))
     else ret (FailOp b))"

fun rgb_byte :: "RgbIsa \<Rightarrow> u8" where
  "rgb_byte (Contract op) = contract_byte op"
| "rgb_byte (RgbFail b) = b"

fun rgb_args :: "RgbIsa \<Rightarrow> WriteCall list" where
  "rgb_args (Contract op) = contract_args op"
| "rgb_args (RgbFail _) = []"

fun rgb_complexity :: "RgbIsa \<Rightarrow> u64" where
  "rgb_complexity (Contract op) = contract_complexity op"
| "rgb_complexity (RgbFail _) = - 1"

fun rgb_exec ::
  "AluLib \<Rightarrow> 's ContractStateAccess \<Rightarrow> 's VmContext \<Rightarrow> RgbIsa \<Rightarrow> CoreRegs \<Rightarrow> LibSite \<Rightarrow> CoreRegs step" where
  "rgb_exec A S ctx (Contract op) rs site = contract_exec A S ctx op rs"
| "rgb_exec A S ctx (RgbFail _) rs site = control_flow_exec Fail rs site"

text \<open>An opcode outside the contract range is an extension that fails, and is not consumed.\<close>

definition rgb_decode :: "RgbIsa reader" where
  "rgb_decode c =
     (case peek_u8 c of
        None \<Rightarrow> Some (None, c)
      | Some b \<Rightarrow>
          if 0xc0 \<le> b \<and> b \<le> 0xd4 then rd_map Contract contract_decode c
          else Some (Some (RgbFail (word_of_nat b)), c))"

section \<open>Running a validation script\<close>

definition rgb_set :: "AluLib \<Rightarrow> 's ContractStateAccess \<Rightarrow> 's VmContext \<Rightarrow> RgbIsa Instr InstructionSet" where
  "rgb_set A S ctx =
     \<lparr> is_ids = [''RGB''],
       is_byte = instr_byte rgb_byte,
       is_args = instr_args rgb_args,
       is_call_site = call_site,
       is_decode = instr_decode rgb_decode,
       is_exec = instr_exec (rgb_exec A S ctx) A,
       is_complexity = instr_complexity rgb_complexity \<rparr>"

text \<open>
  A fresh machine with the transition type in the first 16-bit register; the result is the
  final flag and the first 8-bit register, which holds the error code.
\<close>

definition script_regs :: "AluLib \<Rightarrow> u16 option \<Rightarrow> CoreRegs option" where
  "script_regs A ty =
     (case ty of
        None \<Rightarrow> Some regs_new
      | Some t \<Rightarrow> map_option fst (set_n A regs_new (AFR_A A16) 0 (Some (from_uint 2 (unat t)))))"

definition run_script ::
  "AluLib \<Rightarrow> (bytes \<Rightarrow> bytes32) \<Rightarrow> 's ContractStateAccess \<Rightarrow> LibSite \<Rightarrow> (LibId \<Rightarrow> Lib option) \<Rightarrow> u16 option
     \<Rightarrow> 's VmContext \<Rightarrow> (bool \<times> u8 option) option" where
  "run_script A sha S site libs ty ctx =
     (case script_regs A ty of
        None \<Rightarrow> None
      | Some rs \<Rightarrow>
          (case vm_exec sha (rgb_set A S ctx) site libs rs of
             Some (Some rs') \<Rightarrow> Some (st0 rs', map_option word_of_nat (reg_a rs' A8 0))
           | _ \<Rightarrow> None))"

end
