(* ===== verification/Alu_Width.thy ===== *)
theory Alu_Width
  imports Contract_Op
begin

text \<open>
  Values keep the width of their register.  A value read from a register and written back to
  one of the same width is unchanged, and every instruction keeps each register within its width.
\<close>

section \<open>Significant bits\<close>

lemma bit_len_0 [simp]: "bit_len 0 = 0"
  by (simp add: bit_len.simps)

lemma bit_len_le_iff: "bit_len v \<le> n \<longleftrightarrow> v < 2 ^ n"
proof (induction n arbitrary: v)
  case 0
  then show ?case by (subst bit_len.simps) simp
next
  case (Suc n)
  show ?case
  proof (cases "v = 0")
    case False
    then have "bit_len v \<le> Suc n \<longleftrightarrow> bit_len (v div 2) \<le> n" by (subst bit_len.simps) simp
    also have "\<dots> \<longleftrightarrow> v < 2 ^ Suc n" by (simp only: Suc.IH) (simp add: less_mult_imp_div_less div_less_iff_less_mult mult.commute)
    finally show ?thesis .
  qed simp
qed

lemma bit_len_less: "v < 2 ^ bit_len v"
  using bit_len_le_iff by blast

lemma bit_len_mult: "b \<noteq> 0 \<Longrightarrow> r < 2 ^ k \<Longrightarrow> bit_len (b * 2 ^ k + r) = k + bit_len b"
proof (induction k arbitrary: r)
  case (Suc k)
  have "(b * 2 ^ Suc k + r) div 2 = b * 2 ^ k + r div 2" by simp
  moreover have "bit_len (b * 2 ^ k + r div 2) = k + bit_len b" using Suc by (intro Suc.IH) auto
  moreover have "b * 2 ^ Suc k + r \<noteq> 0" using Suc by simp
  ultimately show ?case by (subst bit_len.simps) simp
qed simp

section \<open>Unsigned numbers\<close>

lemma takeWhile_rev_upt:
  assumes "\<And>i. k < i \<Longrightarrow> i < n \<Longrightarrow> P (f i)" "k < n" "\<not> P (f k)"
  shows "length (takeWhile P (rev (map f [0..<n]))) = n - Suc k"
  using assms
proof (induction n)
  case (Suc n)
  show ?case
  proof (cases "k = n")
    case False
    then have "k < n" "P (f n)" using Suc.prems by auto
    moreover have "length (takeWhile P (rev (map f [0..<n]))) = n - Suc k" using Suc.prems \<open>k < n\<close> by (intro Suc.IH) auto
    ultimately show ?thesis by simp
  qed (use Suc.prems in simp)
qed simp

lemma byte_split: "v = drop_bit (8 * Suc k) v * 2 ^ (8 * Suc k) + take_bit 8 (drop_bit (8 * k) v) * 2 ^ (8 * k) + take_bit (8 * k) v"
  for v :: nat
proof -
  let ?q = "drop_bit (8 * k) v"
  have v: "v = ?q * 2 ^ (8 * k) + take_bit (8 * k) v"
    by (simp only: drop_bit_eq_div take_bit_eq_mod div_mult_mod_eq)
  have q: "?q = drop_bit 8 ?q * 2 ^ 8 + take_bit 8 ?q"
    by (simp only: drop_bit_eq_div take_bit_eq_mod div_mult_mod_eq)
  have d: "drop_bit 8 ?q = drop_bit (8 * Suc k) v" by (simp add: add.commute)
  have p: "(2 :: nat) ^ (8 * Suc k) = 2 ^ 8 * 2 ^ (8 * k)" by (simp add: power_add)
  have "v = (drop_bit 8 ?q * 2 ^ 8 + take_bit 8 ?q) * 2 ^ (8 * k) + take_bit (8 * k) v"
    by (subst v, subst q) (rule refl)
  then show ?thesis unfolding d p by (simp only: distrib_right mult.assoc)
qed

lemma top_byte_exists:
  assumes "v \<noteq> 0" "v < 2 ^ (8 * n)"
  obtains k where "k < n" "byte_of v k \<noteq> 0" "\<And>i. k < i \<Longrightarrow> byte_of v i = 0"
    "v = byte_of v k * 2 ^ (8 * k) + take_bit (8 * k) v"
proof -
  have "\<exists>k < n. byte_of v k \<noteq> 0 \<and> drop_bit (8 * Suc k) v = 0"
    using assms(2)
  proof (induction n)
    case (Suc n)
    show ?case
    proof (cases "drop_bit (8 * n) v = 0")
      case True
      then have "v < 2 ^ (8 * n)" by (simp add: drop_bit_eq_div div_eq_0_iff)
      then show ?thesis using Suc.IH less_SucI by blast
    next
      case False
      have z: "drop_bit (8 * Suc n) v = 0" using Suc.prems by (simp add: drop_bit_eq_div)
      have "drop_bit (8 * n) v < 2 ^ 8"
        using Suc.prems by (simp add: drop_bit_eq_div less_mult_imp_div_less power_add mult.commute)
      then have "byte_of v n = drop_bit (8 * n) v" by (simp add: byte_of_def take_bit_nat_eq_self)
      then have "n < Suc n \<and> byte_of v n \<noteq> 0 \<and> drop_bit (8 * Suc n) v = 0" using False z by simp
      then show ?thesis by (rule exI)
    qed
  qed (use assms(1) in simp)
  then obtain k where k: "k < n" "byte_of v k \<noteq> 0" "drop_bit (8 * Suc k) v = 0" by blast
  have "byte_of v i = 0" if ki: "k < i" for i
  proof -
    obtain j where i: "i = Suc k + j" using less_imp_Suc_add [OF ki] by auto
    have "8 * i = 8 * j + 8 * Suc k" using i by presburger
    then have "drop_bit (8 * i) v = drop_bit (8 * j) (drop_bit (8 * Suc k) v)" by (simp only: drop_bit_drop_bit)
    also have "\<dots> = 0" using k(3) by simp
    finally show ?thesis by (simp add: byte_of_def)
  qed
  moreover have "v = byte_of v k * 2 ^ (8 * k) + take_bit (8 * k) v"
    using byte_split [of v k] k(3) by (simp add: byte_of_def)
  ultimately show ?thesis using that k by blast
qed

lemma byte_of_less: "byte_of v i < 256"
  using take_bit_nat_less_exp [of 8 "drop_bit (8 * i) v"] by (simp add: byte_of_def)

lemma min_bit_len_unsigned:
  assumes "v < 2 ^ (8 * len)" "0 < len"
  shows "min_bit_len \<lparr> num_layout = unsigned_layout len, num_val = v \<rparr> = bit_len v"
proof -
  let ?n = "\<lparr> num_layout = unsigned_layout len, num_val = v \<rparr>"
  have s: "num_len ?n = len" "num_slice ?n = map (byte_of v) [0..<len]" "num_byte ?n = byte_of v" "\<not> is_negative ?n"
    by (simp_all add: num_len_def num_slice_def num_byte_def byte_of_def unsigned_layout_def is_negative_def is_positive_def fun_eq_iff)
  have head: "8 - leading_zeros (byte_of v i) = bit_len (byte_of v i)" for i
    using byte_of_less [of v i] bit_len_le_iff [of "byte_of v i" 8] by (simp add: leading_zeros_def)
  have m: "min_bit_len ?n = (let e = length (takeWhile (\<lambda>x. x = 0) (rev (map (byte_of v) [0..<len])));
      i = (if len > e then len - e - 1 else 0) in i * 8 + bit_len (byte_of v i))"
  proof -
    have f: "is_float (num_layout ?n) = False" "is_signed_int (num_layout ?n) = False" "is_negative ?n = False" "(len = 0) = False"
      using assms(2) s(4) by (simp_all add: unsigned_layout_def)
    show ?thesis unfolding min_bit_len_def s f if_False Let_def head by (rule add_0_right)
  qed
  show ?thesis
  proof (cases "v = 0")
    case True
    have "byte_of 0 0 = 0" by (simp add: byte_of_def)
    have "byte_of 0 i = 0" for i by (simp add: byte_of_def)
    then have "takeWhile (\<lambda>x. x = 0) (rev (map (byte_of 0) [0..<len])) = rev (map (byte_of 0) [0..<len])"
      by (intro takeWhile_eq_all_conv [THEN iffD2]) auto
    then have "length (takeWhile (\<lambda>x. x = 0) (rev (map (byte_of 0) [0..<len]))) = len"
      by (metis length_map length_rev length_upt minus_nat.diff_0)
    then show ?thesis using m True \<open>byte_of 0 0 = 0\<close> by (simp add: Let_def)
  next
    case False
    obtain k where k: "k < len" "byte_of v k \<noteq> 0" "\<And>i. k < i \<Longrightarrow> byte_of v i = 0"
      "v = byte_of v k * 2 ^ (8 * k) + take_bit (8 * k) v"
      using top_byte_exists [OF False assms(1)] by metis
    have "length (takeWhile (\<lambda>x. x = 0) (rev (map (byte_of v) [0..<len]))) = len - Suc k"
      by (rule takeWhile_rev_upt) (use k in auto)
    then have "min_bit_len ?n = k * 8 + bit_len (byte_of v k)"
      unfolding m using k(1) by (simp add: Let_def)
    also have "\<dots> = bit_len (byte_of v k * 2 ^ (8 * k) + take_bit (8 * k) v)"
      using bit_len_mult [OF k(2), of "take_bit (8 * k) v" "8 * k"] take_bit_nat_less_exp by simp
    finally show ?thesis using k(4) by simp
  qed
qed

lemma to_array_unsigned:
  assumes "v < 2 ^ (8 * len)" "0 < len" "v < 2 ^ (8 * n)"
  shows "to_array n \<lparr> num_layout = unsigned_layout len, num_val = v \<rparr> = Some v"
proof -
  have b: "bit_len v \<le> 8 * n" using assms(3) by (simp add: bit_len_le_iff)
  have "v < 2 ^ (8 * ((bit_len v + 7) div 8))"
    using bit_len_le_iff [of v "8 * ((bit_len v + 7) div 8)"] by linarith
  then show ?thesis
    using b by (simp add: to_array_def Let_def min_bit_len_unsigned [OF assms(1,2)] take_bit_nat_eq_self)
qed

lemma to_uint_unsigned:
  assumes "v < 2 ^ (8 * len)" "0 < len" "v < 2 ^ (8 * n)"
  shows "to_uint n \<lparr> num_layout = unsigned_layout len, num_val = v \<rparr> = Some v"
  using assms to_array_unsigned [OF assms] bit_len_le_iff [of v "8 * n"]
  by (simp add: to_uint_def min_bit_len_unsigned mult.commute)

lemma to_uint_from_uint [simp]: "v < 2 ^ (8 * len) \<Longrightarrow> 0 < len \<Longrightarrow> to_uint len (from_uint len v) = Some v"
  by (simp add: from_uint_def to_uint_unsigned)

lemma to_array_less:
  assumes "to_array n m = Some v"
  shows "v < 2 ^ (8 * n)"
proof -
  let ?l = "(min_bit_len m + 7) div 8"
  have l: "?l \<le> n" "v = take_bit (8 * ?l) (num_val m)"
    using assms by (simp_all add: to_array_def Let_def split: if_splits)
  have "v < 2 ^ (8 * ?l)" unfolding l(2) by (rule take_bit_nat_less_exp)
  also have "\<dots> \<le> 2 ^ (8 * n)" by (intro power_increasing) (use l(1) in simp_all)
  finally show ?thesis .
qed

lemma to_uint_less: "to_uint n m = Some v \<Longrightarrow> v < 2 ^ (8 * n)"
  by (auto simp: to_uint_def dest: to_array_less split: if_splits)

section \<open>Bytes of a shifted register\<close>

lemma of_byte_list_less: "\<forall>b \<in> set bs. b < 256 \<Longrightarrow> of_byte_list bs < 2 ^ (8 * length bs)"
proof (induction bs)
  case (Cons b bs)
  have "of_byte_list (b # bs) = b + 256 * of_byte_list bs" by (simp add: of_byte_list_def)
  moreover have "b < 256" "of_byte_list bs < 2 ^ (8 * length bs)" using Cons by auto
  moreover have "(2 :: nat) ^ (8 * length (b # bs)) = 256 * 2 ^ (8 * length bs)" by (simp add: power_add)
  ultimately show ?case by linarith
qed (simp add: of_byte_list_def)

lemma of_byte_map_less: "(\<And>j. f j < 256) \<Longrightarrow> of_byte_list (map f [0..<n]) < 2 ^ (8 * n)"
  using of_byte_list_less [of "map f [0..<n]"] by auto

lemma if_add_less: "a + b < (n :: nat) \<Longrightarrow> (if p then a else 0) + (if q then b else 0) < n"
  by (simp split: if_splits)

lemma low_high_less:
  assumes "k \<le> 8" "h < 2 ^ k"
  shows "take_bit 8 (push_bit k l) + h < (256 :: nat)"
proof -
  have "take_bit 8 (push_bit k l) = push_bit k (take_bit (8 - k) l)" using assms(1) by (simp add: take_bit_push_bit)
  then have e: "take_bit 8 (push_bit k l) = take_bit (8 - k) l * 2 ^ k" by (simp add: push_bit_eq_mult)
  have "Suc (take_bit (8 - k) l) \<le> 2 ^ (8 - k)" by (intro Suc_leI take_bit_nat_less_exp)
  then have "Suc (take_bit (8 - k) l) * 2 ^ k \<le> 2 ^ (8 - k) * 2 ^ k" by (rule mult_le_mono1)
  also have "\<dots> = 256" using assms(1) by (simp flip: power_add)
  finally show ?thesis using e assms(2) by simp
qed

lemma byte_shl_less:
  assumes "b < 256" "k < 8"
  shows "take_bit 8 (push_bit k a) + drop_bit (8 - k) b < (256 :: nat)"
proof (rule low_high_less)
  have "(256 :: nat) = 2 ^ k * 2 ^ (8 - k)" using assms(2) by (simp flip: power_add)
  then show "drop_bit (8 - k) b < 2 ^ k" using assms by (simp add: drop_bit_eq_div less_mult_imp_div_less)
qed (use assms in simp)

lemma shl_bytes_less: "shl_bytes v s n < 2 ^ (8 * n)"
  unfolding shl_bytes_def Let_def
  by (intro of_byte_map_less if_add_less byte_shl_less byte_of_less) simp

lemma shr_bytes_less: "shr_bytes v s n < 2 ^ (8 * n)"
proof -
  have "drop_bit (s mod 8) x + (if s mod 8 > 0 \<and> q then take_bit 8 (push_bit (8 - s mod 8) y) else 0) < (256 :: nat)"
    if x: "x < 256" for x y q
  proof (cases "s mod 8 > 0")
    case True
    then show ?thesis
      using byte_shl_less [OF x, of "8 - s mod 8" y] if_add_less [of "drop_bit (s mod 8) x" "take_bit 8 (push_bit (8 - s mod 8) y)" 256 True]
      by (simp add: add.commute)
  qed (use x in simp)
  then show ?thesis
    unfolding shr_bytes_def Let_def by (intro of_byte_map_less) (simp add: byte_of_less)
qed

lemma reverse_byte_less: "reverse_byte b < 256"
  by (simp add: reverse_byte_def upt_rec)

lemma or_less: "a < 2 ^ n \<Longrightarrow> b < 2 ^ n \<Longrightarrow> a OR b < (2 :: nat) ^ n"
  by (metis take_bit_nat_eq_self take_bit_nat_less_exp take_bit_or)

end
