(* ===== verification/Alu_Invariant.thy ===== *)
theory Alu_Invariant
  imports Alu_Width
begin

text \<open>
  What execution keeps of the registers.  Instructions other than control flow change registers
  through a few writers; the locale \<open>regs_inv\<close> states that a predicate survives them and derives
  that it survives every such instruction.  It is interpreted for the widths of the registers and
  for the registers that control the run.
\<close>

named_theorems keeps \<open>writers and instructions keep the predicate\<close>

lemma pred_bindI: "pred_option Q m \<Longrightarrow> (\<And>x. Q x \<Longrightarrow> pred_option P (f x)) \<Longrightarrow> pred_option P (Option.bind m f)"
  by (cases m) simp_all

lemma pred_anyI:
  fixes m :: "'m option"
  shows "(\<And>x. pred_option P (f x)) \<Longrightarrow> pred_option P (Option.bind m f)"
  by (cases m) simp_all

text \<open>What an instruction computes apart from the registers.\<close>

lemmas pred_valueI = pred_anyI [where 'm = nat] pred_anyI [where 'm = bool] pred_anyI [where 'm = Number]
  pred_anyI [where 'm = MaybeNumber] pred_anyI [where 'm = "MaybeNumber \<times> bool"]

locale regs_inv =
  fixes A :: AluLib and P :: "CoreRegs \<Rightarrow> bool"
  assumes inv_set_n: "P rs \<Longrightarrow> set_n A rs r i m = Some (rs', b) \<Longrightarrow> P rs'"
    and inv_st0: "P rs \<Longrightarrow> P (set_st0 rs s)"
    and inv_s16: "P rs \<Longrightarrow> P (set_s16 rs k v)"
    and inv_reg_r: "P rs \<Longrightarrow> x < 2 ^ (8 * regr_bytes g) \<Longrightarrow> P (rs\<lparr> reg_r := (reg_r rs)(g := (reg_r rs g)(j := Some x)) \<rparr>)"
    and inv_outstack: "P rs \<Longrightarrow> P (rs\<lparr> outstack := os \<rparr>)"
begin

abbreviation "after \<equiv> pred_option (P \<circ> fst)"

declare inv_st0 [keeps] inv_s16 [keeps] inv_outstack [keeps]

lemma set_n_after [keeps]: "P rs \<Longrightarrow> after (set_n A rs r i m)"
  by (cases "set_n A rs r i m") (auto intro: inv_set_n)

lemma fst_after [keeps]: "after r \<Longrightarrow> pred_option P (map_option fst r)"
  by (cases r) simp_all

lemma next_after [keeps]: "pred_option P r \<Longrightarrow> after (next_step r)"
  by (cases r) (simp_all add: next_step_def)

lemma some_after [keeps]: "P rs \<Longrightarrow> pred_option P (Some rs)"
  by simp

lemma flag_after [keeps]: "P rs \<Longrightarrow> pred_option P (map_option (\<lambda>x. set_st0 rs (f x)) m)"
  by (cases m) (simp_all add: inv_st0)

lemma step_after [keeps]: "P rs \<Longrightarrow> after (Some (rs, s))"
  by simp

lemma set_or_fail_after [keeps]: "after r \<Longrightarrow> after (set_or_fail r)"
  by (cases r) (auto simp: set_or_fail_def next_step_def intro: keeps)

lemma arith_done_after [keeps]: "after r \<Longrightarrow> after (arith_done r)"
  by (cases r) (auto simp: arith_done_def next_step_def intro: keeps)

lemma set_n_if_after [keeps]: "P rs \<Longrightarrow> after (set_n_if A rs r i m)"
  by (auto simp: set_n_if_def intro: keeps)

lemma put_exec_after: "P rs \<Longrightarrow> after (put_exec A op rs)"
  by (cases op) (auto intro!: keeps simp del: set_n.simps)

lemma set_n_then [keeps]: "P rs \<Longrightarrow> (\<And>rs' b. P rs' \<Longrightarrow> pred_option Q (f (rs', b))) \<Longrightarrow> pred_option Q (Option.bind (set_n A rs r i m) f)"
  by (rule pred_bindI [OF set_n_after]) auto

lemma regs_op_after [keeps]: "P rs \<Longrightarrow> pred_option P (regs_op A rs r1 i1 r2 i2 r3 i3 f)"
  unfolding regs_op_def by (intro keeps pred_valueI)

lemma move_exec_after: "P rs \<Longrightarrow> after (move_exec A op rs)"
  by (cases op)
     (auto simp: move_reg_def dup_reg_def swap_reg_def convert_reg_def Let_def simp del: set_n.simps get_n.simps
       intro!: keeps pred_valueI split: prod.splits)

lemma cmp_exec_after: "P rs \<Longrightarrow> after (cmp_exec A op rs)"
  by (cases op)
     (auto simp: cmp_reg_def eq_reg_def Let_def simp del: set_n.simps get_n.simps
       intro!: keeps pred_valueI split: option.splits)

lemma arithmetic_exec_after: "P rs \<Longrightarrow> after (arithmetic_exec A op rs)"
  by (cases op)
     (auto simp: arith_reg_def unary_reg_def simp del: set_n.simps get_n.simps intro!: keeps pred_valueI split: prod.splits)

lemma shift_r_after [keeps]: "P rs \<Longrightarrow> (\<And>v. f v < 2 ^ (8 * regr_bytes r)) \<Longrightarrow> P (shift_r f flag r i rs)"
  by (auto simp: shift_r_def intro!: keeps inv_reg_r split: option.splits)

lemma rev_after: "P rs \<Longrightarrow> P (rs\<lparr> reg_r := (reg_r rs)(g := (reg_r rs g)(j := Some (of_byte_list (map reverse_byte (rev (map (byte_of v) [0..<regr_bytes g])))))) \<rparr>)"
  using of_byte_list_less [of "map reverse_byte (rev (map (byte_of v) [0..<regr_bytes g]))"]
  by (intro inv_reg_r) (simp_all add: reverse_byte_less)

lemma bitwise_exec_after: "P rs \<Longrightarrow> after (bitwise_exec A op rs)"
  by (cases "(A, op, rs)" rule: bitwise_exec.cases)
     (auto simp: Let_def simp del: set_n.simps get_n.simps
       intro!: keeps pred_valueI rev_after shl_bytes_less shr_bytes_less or_less split: option.splits prod.splits)

lemma bytes_exec_after: "P rs \<Longrightarrow> after (bytes_exec A op rs)"
  by (cases op)
     (auto simp: fill_exec_def len_exec_def cnt_exec_def find_exec_def con_exec_def extr_exec_def inj_exec_def join_exec_def Let_def
       simp del: set_n.simps get_n.simps intro!: keeps pred_valueI split: option.splits prod.splits)

lemma digest_exec_after: "P rs \<Longrightarrow> after (digest_exec A op rs)"
  by (cases op) (auto simp: digest_reg_def simp del: set_n.simps intro!: keeps)

lemma push_outstack_after: "P rs \<Longrightarrow> after (case push_outstack rs v of (rs', ok) \<Rightarrow> Some (rs', if ok then Next else FailStep))"
  using inv_st0 [of rs False] by (auto simp: push_outstack_def set_st0_def intro: keeps)

lemma outstack_exec_after: "P rs \<Longrightarrow> after (outstack_exec A op rs)"
  by (cases op) (simp add: Let_def push_outstack_after pred_anyI del: get_n.simps)

lemma fail_stop_after [keeps]: "P rs \<Longrightarrow> after (fail_stop rs)"
  using inv_st0 [of rs False] by (simp add: fail_stop_def set_failure_def set_st0_def)

lemma set_num_after [keeps]: "P rs \<Longrightarrow> after (set_num A r i n rs)"
  unfolding set_num_def by (intro keeps)

lemma set_bytes_after [keeps]: "P rs \<Longrightarrow> after (set_bytes r bs rs)"
  unfolding set_bytes_def by (intro keeps)

lemma contract_exec_after: "P rs \<Longrightarrow> after (contract_exec A S ctx op rs)"
  by (cases op) (auto intro!: keeps simp del: option.pred_inject split: option.splits OrdOpRef.splits RevealedState.splits sum.splits)

lemma rgb_exec_after: "P rs \<Longrightarrow> after (rgb_exec A S ctx x rs site)"
  by (cases x) (auto intro: contract_exec_after)

lemma instr_exec_after:
  assumes "P rs" "\<nexists>op. i = ControlFlow op"
  shows "after (instr_exec (rgb_exec A S ctx) A i rs site)"
  using assms
  by (cases i)
     (auto simp: instr_exec_def intro: put_exec_after move_exec_after cmp_exec_after arithmetic_exec_after bitwise_exec_after
       bytes_exec_after digest_exec_after outstack_exec_after rgb_exec_after)

end

section \<open>Widths\<close>

text \<open>The conversion to a floating point type of another crate yields a value of its width.\<close>

definition alu_ok :: "AluLib \<Rightarrow> bool" where
  "alu_ok A = (\<forall>l b. fl_canon A l b < 2 ^ (8 * float_layout_bytes l))"

definition bounded :: "('r \<Rightarrow> nat) \<Rightarrow> ('r \<Rightarrow> Reg32 \<Rightarrow> nat option) \<Rightarrow> bool" where
  "bounded w f = (\<forall>r i v. f r i = Some v \<longrightarrow> v < 2 ^ (8 * w r))"

definition regs_ok :: "CoreRegs \<Rightarrow> bool" where
  "regs_ok rs = (bounded rega_bytes (reg_a rs) \<and> bounded regf_bytes (reg_f rs) \<and> bounded regr_bytes (reg_r rs))"

lemma bounded_update: "bounded w f \<Longrightarrow> (\<And>x. v = Some x \<Longrightarrow> x < 2 ^ (8 * w r)) \<Longrightarrow> bounded w (f(r := (f r)(i := v)))"
  by (auto simp: bounded_def)

lemma regs_ok_new: "regs_ok regs_new"
  by (simp add: regs_ok_def bounded_def regs_new_def)

lemma regf_bytes_layout: "regf_bytes r = float_layout_bytes (regf_layout r)"
  by (cases r) simp_all

lemma set_n_regs_ok:
  assumes "alu_ok A" "regs_ok rs" "set_n A rs r i m = Some (rs', b)"
  shows "regs_ok rs'"
proof (cases r)
  case (AFR_F f)
  have v: "x < 2 ^ (8 * regf_bytes f)" if "conv_opt (if f = F512 then to_uint 64 else to_float A (regf_layout f)) m = Some (Some x)" for x
    using that to_uint_less [of 64 _ x] assms(1)
    by (cases m) (auto simp: to_float_def alu_ok_def regf_bytes_layout split: if_splits)
  show ?thesis using assms(2,3) AFR_F by (auto simp: regs_ok_def bind_eq_Some_conv intro!: bounded_update v)
next
  case (AFR_A a)
  have v: "x < 2 ^ (8 * rega_bytes a)" if "conv_opt (to_uint (rega_bytes a)) m = Some (Some x)" for x
    using that by (cases m) (auto dest: to_uint_less)
  show ?thesis using assms(2,3) AFR_A by (auto simp: regs_ok_def bind_eq_Some_conv intro!: bounded_update v)
next
  case (AFR_R g)
  have v: "x < 2 ^ (8 * regr_bytes g)" if "conv_opt (to_array (regr_bytes g)) m = Some (Some x)" for x
    using that by (cases m) (auto dest: to_array_less)
  show ?thesis using assms(2,3) AFR_R by (auto simp: regs_ok_def bind_eq_Some_conv intro!: bounded_update v)
qed

interpretation width: regs_inv A "\<lambda>rs. alu_ok A \<longrightarrow> regs_ok rs" for A
  by unfold_locales (use set_n_regs_ok in blast, auto simp: regs_ok_def set_st0_def set_s16_def intro: bounded_update)

section \<open>Control registers\<close>

definition ctl :: "CoreRegs \<Rightarrow> u16 \<times> u16 \<times> u64 option" where
  "ctl rs = (cy0 rs, cp0 rs, cl0 rs)"

lemma set_n_ctl: "set_n A rs r i m = Some (rs', b) \<Longrightarrow> ctl rs' = ctl rs"
  by (cases r) (auto simp: ctl_def bind_eq_Some_conv)

interpretation control: regs_inv A "\<lambda>rs. ctl rs = k" for A k
  by unfold_locales (use set_n_ctl in blast, auto simp: ctl_def set_st0_def set_s16_def)

text \<open>The calls left to a run: every jump spends one, and a return lowers the call stack.\<close>

definition calls_left :: "CoreRegs \<Rightarrow> nat" where
  "calls_left rs = unat (cp0 rs) + (0xFFFF - unat (cy0 rs))"

lemma u16_inc_less: "u16_checked_inc w = Some w' \<Longrightarrow> unat w < unat w' \<and> unat w' \<le> 0xFFFF"
proof -
  assume "u16_checked_inc w = Some w'"
  then have w: "w \<noteq> - 1" "w' = w + 1" by (auto simp: u16_checked_inc_def split: if_splits)
  moreover have "unat w' < 2 ^ 16" using unsigned_less [of w', where ?'a = nat] by simp
  moreover have "unat w' = Suc (unat w)" using w unatSuc [of w] by (metis add.commute add_eq_0_iff2)
  ultimately show ?thesis by simp
qed

lemma control_flow_calls:
  assumes "control_flow_exec op rs site = Some (rs', step)"
  shows "calls_left rs' \<le> calls_left rs"
    and "(\<exists>p. step = Jump p) \<or> (\<exists>s. step = CallStep s) \<Longrightarrow> calls_left rs' < calls_left rs"
    and "cl0 rs' = cl0 rs"
proof -
  have d: "cp0 rs \<noteq> 0 \<Longrightarrow> unat (cp0 rs - 1) < unat (cp0 rs)"
    by (metis diff_less less_one unat_gt_0 unat_minus_one)
  show "calls_left rs' \<le> calls_left rs" "cl0 rs' = cl0 rs"
    "(\<exists>p. step = Jump p) \<or> (\<exists>s. step = CallStep s) \<Longrightarrow> calls_left rs' < calls_left rs"
    using assms d
    by (cases op; auto simp: regs_jmp_def regs_call_def regs_ret_def calls_left_def Let_def dest!: u16_inc_less
        split: option.splits if_splits)+
qed

end
