(* ===== verification/Alu_Bits.thy ===== *)
theory Alu_Bits
  imports Alu_Invariant
begin

text \<open>
  The cursor as a position in a stream of bits.  The code is the number its bytes encode in
  little endian; \<open>read\<close> takes bits of that number and \<open>write\<close> sets them, whatever the alignment.
\<close>

section \<open>Positions\<close>

definition cur_pos :: "Cursor \<Rightarrow> nat" where
  "cur_pos c = 8 * cur_byte c + unat (cur_bit c)"

definition cur_at :: "Cursor \<Rightarrow> nat \<Rightarrow> Cursor" where
  "cur_at c p = c\<lparr> cur_byte := p div 8, cur_bit := word_of_nat (p mod 8) \<rparr>"

definition cur_val :: "Cursor \<Rightarrow> nat" where
  "cur_val c = le_val (cur_code c)"

lemma unat_mod8 [simp]: "unat (word_of_nat (p mod 8) :: u3) = p mod 8"
  by (simp add: unsigned_of_nat take_bit_nat_eq_self)

lemma cur_at_simps [simp]:
  "cur_pos (cur_at c p) = p" "cur_code (cur_at c p) = cur_code c" "cur_len (cur_at c p) = cur_len c"
  "cur_data (cur_at c p) = cur_data c" "cur_libs (cur_at c p) = cur_libs c" "cur_val (cur_at c p) = cur_val c"
  "cur_at (cur_at c q) p = cur_at c p" "cur_byte (cur_at c p) = p div 8"
  by (simp_all add: cur_at_def cur_pos_def cur_val_def)

lemma cur_at_self [simp]: "cur_at c (cur_pos c) = c"
proof -
  have "cur_pos c div 8 = cur_byte c" "cur_pos c mod 8 = unat (cur_bit c)"
    using unat_u3 [of "cur_bit c"] by (simp_all add: cur_pos_def)
  then show ?thesis by (simp add: cur_at_def)
qed

lemma eof_pos: "is_eof c \<longleftrightarrow> 8 * cur_len c \<le> cur_pos c"
  using unat_u3 [of "cur_bit c"] by (auto simp: is_eof_def cur_pos_def)

lemma inc_bits_at:
  assumes "cur_len c \<le> 0xFFFF" "\<not> is_eof c" "n \<le> 8"
  shows "inc_bits n c = (cur_at c (cur_pos c + n), True)"
proof -
  have "(unat (cur_bit c) + n) div 8 \<le> 1" using unat_u3 [of "cur_bit c"] assms(3) by linarith
  then have "cur_byte c + (unat (cur_bit c) + n) div 8 \<le> 0xFFFF" using assms(1,2) by (simp add: is_eof_def)
  moreover have "(cur_pos c + n) div 8 = cur_byte c + (unat (cur_bit c) + n) div 8"
    "(cur_pos c + n) mod 8 = (unat (cur_bit c) + n) mod 8"
    by (simp_all add: cur_pos_def add.assoc)
  ultimately show ?thesis by (simp add: inc_bits_def cur_at_def Let_def)
qed

section \<open>The value of the code\<close>

lemma drop_bit_byte: "b < 256 \<Longrightarrow> drop_bit (8 * Suc i) (b + 256 * r) = drop_bit (8 * i) (r :: nat)"
proof -
  assume "b < 256"
  then have "(b + 256 * r) div 2 ^ 8 = r" by simp
  then have "drop_bit 8 (b + 256 * r) = r" by (simp only: drop_bit_eq_div)
  moreover have "drop_bit (8 * Suc i) (b + 256 * r) = drop_bit (8 * i) (drop_bit 8 (b + 256 * r))" by (simp add: add.commute)
  ultimately show ?thesis by simp
qed

lemma unat_byte: "unat (b :: u8) < 256"
  using unsigned_less [of b, where ?'a = nat] by simp

lemma byte_at_val: "byte_at code i = byte_of (le_val code) i"
proof (induction code arbitrary: i)
  case (Cons b bs)
  show ?case
  proof (cases i)
    case 0
    have "take_bit 8 (unat b + 256 * le_val bs) = unat b" using unat_byte [of b] by (simp add: take_bit_eq_mod)
    then show ?thesis using 0 by (simp add: byte_at_def byte_of_def)
  next
    case (Suc j)
    have "byte_at (b # bs) i = byte_at bs j" by (simp add: byte_at_def Suc)
    also have "\<dots> = byte_of (le_val bs) j" by (rule Cons.IH)
    also have "\<dots> = byte_of (le_val (b # bs)) i"
      unfolding Suc byte_of_def le_val.simps drop_bit_byte [OF unat_byte] ..
    finally show ?thesis .
  qed
qed (simp add: byte_at_def byte_of_def)

section \<open>Reading\<close>

lemma read_piece:
  assumes "m = min (8 - k) cnt" "k < 8"
  shows "drop_bit k (byte_of v i AND take_bit 8 (push_bit k (if 8 - k < cnt then 0xFF else mask cnt)))
    = take_bit m (drop_bit (8 * i + k) v)"
proof (rule bit_eqI)
  fix j
  have q: "(if 8 - k < cnt then 0xFF else mask cnt) = (mask (if 8 - k < cnt then 8 else cnt) :: nat)"
    by (simp add: mask_eq_exp_minus_1)
  have b: "bit (drop_bit k (byte_of v i AND take_bit 8 (push_bit k (mask q)))) j
      = (bit v (8 * i + k + j) \<and> k + j < 8 \<and> j < q)" for q
    by (auto simp: byte_of_def bit_simps add.assoc)
  show "bit (drop_bit k (byte_of v i AND take_bit 8 (push_bit k (if 8 - k < cnt then 0xFF else mask cnt)))) j
      = bit (take_bit m (drop_bit (8 * i + k) v)) j"
    by (subst q, subst b) (use assms in \<open>auto simp: bit_take_bit_iff bit_drop_bit_eq\<close>)
qed

lemma take_bit_pieces:
  assumes "m \<le> cnt"
  shows "take_bit cnt x = take_bit m x OR push_bit m (take_bit (cnt - m) (drop_bit m (x :: nat)))"
  by (rule bit_eqI) (use assms in \<open>auto simp: bit_simps\<close>)

lemma read_loop_at:
  assumes "cur_len c \<le> 0xFFFF" "cnt \<le> n"
  shows "read_loop n cnt r c =
    (if cnt = 0 \<or> cur_pos c + cnt \<le> 8 * cur_len c
     then (Some (r OR push_bit (n - cnt) (take_bit cnt (drop_bit (cur_pos c) (cur_val c)))), cur_at c (cur_pos c + cnt))
     else (None, cur_at c (max (cur_pos c) (8 * cur_len c))))"
  using assms
proof (induction cnt arbitrary: r c rule: less_induct)
  case (less cnt)
  let ?k = "unat (cur_bit c)" and ?p = "cur_pos c" and ?V = "cur_val c"
  let ?m = "min (8 - ?k) cnt"
  show ?case
  proof (cases "cnt = 0")
    case True
    then show ?thesis by (subst read_loop.simps) simp
  next
    case cnt: False
    show ?thesis
  proof (cases "is_eof c")
    case True
    then have "max ?p (8 * cur_len c) = ?p" "\<not> ?p + cnt \<le> 8 * cur_len c" using cnt by (auto simp: eof_pos)
    then show ?thesis using cnt True by (subst read_loop.simps) simp
  next
    case eof: False
    have k: "?k < 8" by (rule unat_u3)
    have m: "0 < ?m" "?m \<le> cnt" "?m \<le> 8" using k cnt by auto
    have inc: "inc_bits ?m c = (cur_at c (?p + ?m), True)"
      using eof less.prems(1) m by (intro inc_bits_at) auto
    have val: "drop_bit ?k (byte_at (cur_code c) (cur_byte c) AND take_bit 8 (push_bit ?k (if 8 - ?k < cnt then 0xFF else mask cnt)))
        = take_bit ?m (drop_bit ?p ?V)"
      unfolding byte_at_val cur_pos_def cur_val_def by (rule read_piece) (use k in auto)
    let ?r' = "r OR push_bit (n - cnt) (take_bit ?m (drop_bit ?p ?V))"
    have "read_loop n cnt r c = read_loop n (cnt - (8 - ?k)) ?r' (cur_at c (?p + ?m))"
      using eof cnt by (subst read_loop.simps) (simp only: Let_def val inc prod.case if_True if_False not_False_eq_True)
    also have "cnt - (8 - ?k) = cnt - ?m" by simp
    also have "read_loop n (cnt - ?m) ?r' (cur_at c (?p + ?m)) =
      (if cnt - ?m = 0 \<or> ?p + ?m + (cnt - ?m) \<le> 8 * cur_len c
       then (Some (?r' OR push_bit (n - (cnt - ?m)) (take_bit (cnt - ?m) (drop_bit (?p + ?m) ?V))), cur_at c (?p + ?m + (cnt - ?m)))
       else (None, cur_at c (max (?p + ?m) (8 * cur_len c))))"
      using less.IH [of "cnt - ?m" "cur_at c (?p + ?m)" ?r'] less.prems m by simp
    finally have r: "read_loop n cnt r c = \<dots>" .
    have e: "?r' OR push_bit (n - (cnt - ?m)) (take_bit (cnt - ?m) (drop_bit (?p + ?m) ?V))
        = r OR push_bit (n - cnt) (take_bit cnt (drop_bit ?p ?V))"
    proof -
      have "n - (cnt - ?m) = (n - cnt) + ?m" using m less.prems(2) by auto
      moreover have "take_bit cnt (drop_bit ?p ?V)
          = take_bit ?m (drop_bit ?p ?V) OR push_bit ?m (take_bit (cnt - ?m) (drop_bit (?p + ?m) ?V))"
        using take_bit_pieces [OF m(2), of "drop_bit ?p ?V"] by (simp add: add.commute)
      ultimately show ?thesis by (simp add: push_bit_or or.assoc)
    qed
    show ?thesis
    proof (cases "cnt - ?m = 0")
      case True
      then have "cnt = ?m" using m(2) by simp
      then have "?p + cnt \<le> 8 * Suc (cur_byte c)" using k by (simp add: cur_pos_def min_def split: if_splits)
      then have "?p + cnt \<le> 8 * cur_len c" using eof by (simp add: is_eof_def)
      then show ?thesis unfolding r using True e \<open>cnt = ?m\<close> by simp
    next
      case False
      then have "?m = 8 - ?k" "?p + ?m = 8 * Suc (cur_byte c)" using k by (auto simp: cur_pos_def min_def split: if_splits)
      moreover have "8 * Suc (cur_byte c) \<le> 8 * cur_len c" using eof by (simp add: is_eof_def)
      ultimately have mx: "max (?p + ?m) (8 * cur_len c) = max ?p (8 * cur_len c)" by simp
      have ps: "?p + ?m + (cnt - ?m) = ?p + cnt" using m(2) by simp
      show ?thesis unfolding r e mx ps using False cnt by (simp only: simp_thms)
    qed
  qed
  qed
qed

lemma read_at:
  assumes "cur_len c \<le> 0xFFFF" "0 < n"
  shows "read n c =
    (if cur_pos c + n \<le> 8 * cur_len c
     then (Some (take_bit n (drop_bit (cur_pos c) (cur_val c))), cur_at c (cur_pos c + n))
     else (None, cur_at c (max (cur_pos c) (8 * cur_len c))))"
  using read_loop_at [OF assms(1) order_refl, of n 0] assms(2) by (simp add: read_def)

section \<open>Writing\<close>

lemma or_disjoint_add: "a < 2 ^ n \<Longrightarrow> a OR push_bit n b = a + 2 ^ n * (b :: nat)"
proof -
  assume a: "a < 2 ^ n"
  have "a AND push_bit n b = 0"
  proof (rule bit_eqI)
    fix j show "bit (a AND push_bit n b) j = bit 0 j"
      using a by (auto simp: bit_simps) (metis bit_take_bit_iff linorder_not_le take_bit_nat_eq_self)
  qed
  then show ?thesis by (simp add: disjunctive_add_eq_or push_bit_eq_mult mult.commute flip: disjunctive_add_eq_or)
qed

lemma le_val_append: "le_val (xs @ ys) = le_val xs + 2 ^ (8 * length xs) * le_val ys"
  by (induction xs) (simp_all add: power_add algebra_simps)

lemma le_val_less: "le_val xs < 2 ^ (8 * length xs)"
proof (induction xs)
  case (Cons b bs)
  have "(2 :: nat) ^ (8 * length (b # bs)) = 256 * 2 ^ (8 * length bs)" by (simp add: power_add)
  then show ?case using Cons unat_byte [of b] by simp
qed simp

lemma le_val_zeros [simp]: "le_val (replicate n 0) = 0"
  by (induction n) simp_all

lemma le_val_update:
  assumes "i < length code"
  shows "le_val (code[i := word_of_nat (unat (code ! i) OR b)]) = le_val code OR push_bit (8 * i) (take_bit 8 b)"
  using assms
proof (induction code arbitrary: i)
  case (Cons x xs)
  have split: "unat y + 256 * r = unat y OR push_bit 8 r" for y :: u8 and r
    using or_disjoint_add [of "unat y" 8 r] unat_byte [of y] by simp
  have o: "unat (word_of_nat (unat x OR b) :: u8) = unat x OR take_bit 8 b"
    using take_bit_nat_eq_self [of "unat x" 8] unat_byte [of x] by (simp add: unsigned_of_nat take_bit_or)
  show ?case
  proof (cases i)
    case 0
    show ?thesis
      unfolding 0 list_update.simps nat.case nth_Cons_0 le_val.simps split
      unfolding o mult_0_right push_bit_0_id id_apply
      by (simp only: or.assoc or.commute or.left_commute)
  next
    case (Suc j)
    then have "le_val (xs[j := word_of_nat (unat (xs ! j) OR b)]) = le_val xs OR push_bit (8 * j) (take_bit 8 b)"
      using Cons by simp
    then show ?thesis using Suc by (simp add: split push_bit_or or.assoc add.commute del: of_nat_or_eq)
  qed
qed simp

lemma le_val_or_byte:
  assumes "b < 256"
  shows "le_val (or_byte code i b) = le_val code OR push_bit (8 * i) b"
proof (cases "i < length code")
  case True
  then show ?thesis using assms le_val_update [OF True, of b] take_bit_nat_eq_self [of b 8] by (simp add: or_byte_def)
next
  case False
  have u: "unat (word_of_nat b :: u8) = b" using assms by (simp add: unsigned_of_nat take_bit_nat_eq_self)
  have "le_val (or_byte code i b) = le_val code + 2 ^ (8 * length code) * (2 ^ (8 * (i - length code)) * b)"
    using False u by (simp add: or_byte_def le_val_append)
  also have "\<dots> = le_val code OR push_bit (8 * length code) (2 ^ (8 * (i - length code)) * b)"
    using or_disjoint_add [OF le_val_less] by simp
  also have "push_bit (8 * length code) (2 ^ (8 * (i - length code)) * b) = push_bit (8 * i) b"
    using False by (simp add: push_bit_eq_mult power_add [symmetric] mult.assoc flip: distrib_left)
  finally show ?thesis .
qed

definition same_frame :: "Cursor \<Rightarrow> Cursor \<Rightarrow> bool" where
  "same_frame c c' = (cur_len c' = cur_len c \<and> cur_data c' = cur_data c \<and> cur_libs c' = cur_libs c)"

lemma of_byte_list_Cons: "b < 256 \<Longrightarrow> of_byte_list (b # bs) = b OR push_bit 8 (of_byte_list bs)"
  using or_disjoint_add [of b 8 "of_byte_list bs"] by (simp add: of_byte_list_def)

lemma write_loop_at:
  assumes "write_loop bs cnt c = Some c'" "cur_len c \<le> 0xFFFF" "\<forall>b \<in> set bs. b < 256"
    and "length bs = (if cnt = 0 then 0 else (cnt + unat (cur_bit c) + 7) div 8)"
  shows "same_frame c c' \<and> cur_val c' = cur_val c OR push_bit (8 * cur_byte c) (of_byte_list bs)
    \<and> cur_pos c' = cur_pos c + cnt \<and> (cnt = 0 \<or> cur_pos c' \<le> 8 * cur_len c)"
  using assms
proof (induction bs arbitrary: cnt c)
  case Nil
  then have "cnt = 0" by (cases "cnt = 0") (simp_all split: if_splits)
  then show ?case using Nil by (simp add: same_frame_def of_byte_list_def)
next
  case (Cons b bs)
  let ?k = "unat (cur_bit c)"
  let ?m = "min cnt (8 - ?k)" and ?d = "c\<lparr> cur_code := or_byte (cur_code c) (cur_byte c) b \<rparr>"
  have k: "?k < 8" by (rule unat_u3)
  have cnt: "0 < cnt" using Cons.prems(4) by (cases "cnt = 0") simp_all
  have eof: "\<not> is_eof c" using Cons.prems(1) by (auto split: if_splits)
  have b: "b < 256" using Cons.prems(3) by simp
  have d: "cur_pos ?d = cur_pos c" "cur_len ?d = cur_len c" "\<not> is_eof ?d"
    using eof by (simp_all add: cur_pos_def is_eof_def)
  let ?e = "cur_at ?d (cur_pos c + ?m)"
  have "inc_bits ?m ?d = (?e, True)"
    using inc_bits_at [of ?d ?m] Cons.prems(2) d by simp
  then have w: "write_loop bs (cnt - ?m) ?e = Some c'" using Cons.prems(1) eof by (simp add: Let_def)
  have len: "length bs = (if cnt - ?m = 0 then 0 else (cnt - ?m + unat (cur_bit ?e) + 7) div 8)"
  proof (cases "cnt \<le> 8 - ?k")
    case True
    then have "(cnt + ?k + 7) div 8 = 1" using cnt k by simp
    then show ?thesis using Cons.prems(4) cnt True by simp
  next
    case False
    then have m: "?m = 8 - ?k" by simp
    have "cur_pos c + ?m = 8 * Suc (cur_byte c)" using k m by (simp add: cur_pos_def)
    then have z: "unat (cur_bit ?e) = 0" by (simp add: cur_at_def)
    have "Suc (length bs) = (cnt + ?k + 7) div 8" using Cons.prems(4) cnt by simp
    also have "cnt + ?k + 7 = 8 + (cnt - ?m + 7)" using False m k by linarith
    finally have "length bs = (cnt - ?m + 7) div 8" by simp
    moreover have "cnt - ?m \<noteq> 0" using False m by linarith
    ultimately show ?thesis using z by (simp only: if_False add_0_right)
  qed
  have "same_frame ?e c' \<and> cur_val c' = cur_val ?e OR push_bit (8 * cur_byte ?e) (of_byte_list bs)
    \<and> cur_pos c' = cur_pos ?e + (cnt - ?m) \<and> (cnt - ?m = 0 \<or> cur_pos c' \<le> 8 * cur_len ?e)"
    by (rule Cons.IH [OF w _ _ len]) (use Cons.prems in simp_all)
  then have IH: "same_frame c c'" "cur_val c' = cur_val ?d OR push_bit (8 * cur_byte ?e) (of_byte_list bs)"
    "cur_pos c' = cur_pos c + cnt" "cnt - ?m = 0 \<or> cur_pos c' \<le> 8 * cur_len c"
    using d by (auto simp: same_frame_def)
  have v: "cur_val ?d = cur_val c OR push_bit (8 * cur_byte c) b" using le_val_or_byte [OF b] by (simp add: cur_val_def)
  have "push_bit (8 * cur_byte ?e) (of_byte_list bs) = push_bit (8 * Suc (cur_byte c)) (of_byte_list bs)"
  proof (cases "cnt \<le> 8 - ?k")
    case True
    then have "bs = []" using len by simp
    then show ?thesis by (simp add: of_byte_list_def)
  next
    case False
    then have "cur_pos c + ?m = 8 * Suc (cur_byte c)" using k by (simp add: cur_pos_def)
    then show ?thesis by simp
  qed
  moreover have "push_bit (8 * cur_byte c) (of_byte_list (b # bs))
      = push_bit (8 * cur_byte c) b OR push_bit (8 * Suc (cur_byte c)) (of_byte_list bs)"
    unfolding of_byte_list_Cons [OF b] by (simp add: push_bit_or add.commute)
  ultimately have "cur_val c' = cur_val c OR push_bit (8 * cur_byte c) (of_byte_list (b # bs))"
    unfolding IH(2) v by (simp add: or.assoc)
  moreover have "cur_pos c' \<le> 8 * cur_len c"
  proof (cases "cnt - ?m = 0")
    case True
    then have "cur_pos c' \<le> 8 * Suc (cur_byte c)" using k IH(3) by (simp add: cur_pos_def)
    then show ?thesis using eof by (simp add: is_eof_def)
  qed (use IH(4) in simp)
  ultimately show ?case using IH by blast
qed

lemma of_byte_list_bytes: "of_byte_list (map (byte_of v) [0..<n]) = take_bit (8 * n) v"
proof (induction n arbitrary: v)
  case (Suc n)
  have "map (byte_of v) [0..<Suc n] = byte_of v 0 # map (byte_of (drop_bit 8 v)) [0..<n]"
    by (simp only: map_upt_Suc) (simp add: byte_of_def add.commute)
  then have "of_byte_list (map (byte_of v) [0..<Suc n]) = byte_of v 0 OR push_bit 8 (take_bit (8 * n) (drop_bit 8 v))"
    using of_byte_list_Cons [OF byte_of_less] Suc by simp
  also have "\<dots> = take_bit (8 * Suc n) v"
    using take_bit_pieces [of 8 "8 * Suc n" v] by (simp add: byte_of_def)
  finally show ?case .
qed (simp add: of_byte_list_def)

lemma write_bits_at:
  assumes "write_bits n v c = Some c'" "cur_len c \<le> 0xFFFF" "v < 2 ^ n" "0 < n" "n \<le> 56"
  shows "same_frame c c' \<and> cur_val c' = cur_val c OR push_bit (cur_pos c) v \<and> cur_pos c' = cur_pos c + n
    \<and> cur_pos c' \<le> 8 * cur_len c"
proof -
  let ?k = "unat (cur_bit c)"
  let ?S = "take_bit 64 (push_bit ?k v)" and ?N = "(n + ?k + 7) div 8"
  have k: "?k < 8" by (rule unat_u3)
  have "push_bit ?k v < 2 ^ (n + ?k)" using assms(3) by (simp add: push_bit_eq_mult power_add)
  moreover have "n + ?k \<le> 64" "n + ?k \<le> 8 * ?N" using assms(5) k by simp_all
  ultimately have "push_bit ?k v < 2 ^ 64" "push_bit ?k v < 2 ^ (8 * ?N)"
    by (meson less_le_trans one_le_numeral power_increasing)+
  then have s: "of_byte_list (map (byte_of ?S) [0..<?N]) = push_bit ?k v"
    unfolding of_byte_list_bytes by (simp add: take_bit_nat_eq_self)
  have w: "write_loop (map (byte_of ?S) [0..<?N]) n c = Some c'"
    using assms(1) by (simp add: write_bits_def Let_def)
  have "push_bit (8 * cur_byte c) (push_bit ?k v) = push_bit (cur_pos c) v" by (simp add: cur_pos_def)
  then show ?thesis
    using write_loop_at [OF w assms(2)] byte_of_less assms(4) s by auto
qed

end
