(* ===== verification/Alu_Run.thy ===== *)
theory Alu_Run
  imports Alu_Bits
begin

text \<open>
  Runs of the virtual machine.  A decoder moves the cursor forward, by at least the opcode; the
  two exceptions read nothing, an unknown extension, which fails, and the byte of \<open>nop\<close>.  A run
  of libraries without that byte ends, because every jump spends a call and every other
  instruction moves forward; a run that meets it never returns.  What returns keeps the widths of
  the registers.
\<close>

section \<open>Decoders move forward\<close>

named_theorems forwards \<open>readers that move forward\<close>

definition forward :: "nat \<Rightarrow> 'a reader \<Rightarrow> bool" where
  "forward n r = (\<forall>c x c'. cur_len c \<le> 0xFFFF \<longrightarrow> r c = Some (x, c') \<longrightarrow>
     c' = cur_at c (cur_pos c') \<and> cur_pos c \<le> cur_pos c' \<and> (x \<noteq> None \<longrightarrow> cur_pos c + n \<le> cur_pos c'))"

lemma forward_ret [forwards]: "forward 0 (ret x)"
  by (simp add: forward_def ret_def)

lemma forward_panic [forwards]: "forward n panic"
  by (simp add: forward_def panic_def)

lemma forward_0: "forward n r \<Longrightarrow> forward 0 r"
  by (simp add: forward_def)

lemma forward_if [forwards]: "forward n r \<Longrightarrow> forward n s \<Longrightarrow> forward n (if b then r else s)"
  by simp

lemma forward_at: "(\<And>d. forward n (k d)) \<Longrightarrow> forward n (\<lambda>c. k (f c) c)"
  by (simp add: forward_def)

lemma forward_none [forwards]: "forward n (\<lambda>c. Some (None, c))"
  by (simp add: forward_def)

lemma forward_seq:
  assumes "forward m (k x)" "cur_len c \<le> 0xFFFF" "k x (cur_at c p) = Some (y, c')" "cur_pos c \<le> p"
  shows "c' = cur_at c (cur_pos c') \<and> cur_pos c \<le> cur_pos c' \<and> p \<le> cur_pos c' \<and> (y \<noteq> None \<longrightarrow> p + m \<le> cur_pos c')"
proof -
  have "c' = cur_at (cur_at c p) (cur_pos c') \<and> cur_pos (cur_at c p) \<le> cur_pos c'
      \<and> (y \<noteq> None \<longrightarrow> cur_pos (cur_at c p) + m \<le> cur_pos c')"
    using assms(1-3) unfolding forward_def by (metis cur_at_simps(3))
  then show ?thesis using assms(4) by simp
qed

lemma forward_rd:
  fixes k :: "'a::len word \<Rightarrow> 'b reader"
  assumes "\<And>w. forward 0 (k w)"
  shows "forward LENGTH('a) (rd k)"
  unfolding forward_def
proof (intro allI impI)
  fix c x c' assume c: "cur_len c \<le> 0xFFFF" and r: "rd k c = Some (x, c')"
  show "c' = cur_at c (cur_pos c') \<and> cur_pos c \<le> cur_pos c' \<and> (x \<noteq> None \<longrightarrow> cur_pos c + LENGTH('a) \<le> cur_pos c')"
  proof (cases "cur_pos c + LENGTH('a) \<le> 8 * cur_len c")
    case True
    let ?w = "word_of_nat (take_bit LENGTH('a) (drop_bit (cur_pos c) (cur_val c)))"
    have "k ?w (cur_at c (cur_pos c + LENGTH('a))) = Some (x, c')" using r c True by (simp add: rd_def read_at)
    then show ?thesis using forward_seq [of 0 k ?w c "cur_pos c + LENGTH('a)" x c'] assms c by simp
  qed (use r c in \<open>auto simp: rd_def read_at\<close>)
qed

lemma forward_rd_0 [forwards]: "(\<And>w. forward 0 (k w)) \<Longrightarrow> forward 0 (rd k)"
  by (rule forward_0 [OF forward_rd])

lemma forward_opcode [forwards]: "(\<And>w :: u8. forward 0 (k w)) \<Longrightarrow> forward 8 (rd k)"
  using forward_rd [of k] by simp

lemma forward_rd_lib [forwards]: "(\<And>x. forward 0 (k x)) \<Longrightarrow> forward 0 (rd_lib k)"
  unfolding rd_lib_def by (rule forward_rd_0, rule forward_at)

lemma forward_check: "(\<And>x y. forward n (k x y)) \<Longrightarrow> forward n (\<lambda>c. if q c then None else k (f c) (g c) c)"
  unfolding forward_def by (metis option.distinct(1))

lemma forward_rd_data [forwards]: "(\<And>x y. forward 0 (k x y)) \<Longrightarrow> forward 0 (rd_data k)"
  unfolding rd_data_def Let_def by (rule forward_rd_0, rule forward_rd_0, rule forward_check)

lemma forward_rd_number [forwards]:
  assumes "\<And>m. forward 0 (k m)"
  shows "forward 0 (rd_number n l k)"
  unfolding forward_def
proof (intro allI impI)
  fix c x c' assume c: "cur_len c \<le> 0xFFFF" and r: "rd_number n l k c = Some (x, c')"
  obtain v p where p: "read 16 c = (v, cur_at c p)" "cur_pos c \<le> p"
  proof (cases "cur_pos c + 16 \<le> 8 * cur_len c")
    case True
    then show ?thesis using that [of _ "cur_pos c + 16"] c by (simp add: read_at)
  next
    case False
    then show ?thesis using that [of None "max (cur_pos c) (8 * cur_len c)"] c by (simp add: read_at)
  qed
  then obtain m where "k m (cur_at c p) = Some (x, c')"
    using r by (auto simp: rd_number_def split: option.splits if_splits)
  then show "c' = cur_at c (cur_pos c') \<and> cur_pos c \<le> cur_pos c' \<and> (x \<noteq> None \<longrightarrow> cur_pos c + 0 \<le> cur_pos c')"
    using forward_seq [of 0 k m c p x c'] assms c p(2) by simp
qed

lemma forward_rd_map [forwards]: "forward n r \<Longrightarrow> forward n (rd_map f r)"
  unfolding forward_def rd_map_def by fastforce

lemma forward_two_s [forwards]: "forward 0 (two_s f)"
  unfolding two_s_def by (intro forwards)

lemma forward_decoders:
  "forward 8 control_flow_decode" "forward 8 put_decode" "forward 8 move_decode" "forward 8 cmp_decode"
  "forward 8 arithmetic_decode" "forward 8 bitwise_decode" "forward 8 bytes_decode" "forward 8 digest_decode"
  "forward 8 outstack_decode" "forward 8 reserved_decode" "forward 8 contract_decode"
  unfolding control_flow_decode_def put_decode_def move_decode_def cmp_decode_def arithmetic_decode_def bitwise_decode_def
    bytes_decode_def digest_decode_def outstack_decode_def reserved_decode_def contract_decode_def count_decode_def
    load_decode_def owned_decode_def Let_def
  by (intro forwards)+

definition moved :: "Cursor \<Rightarrow> Cursor \<Rightarrow> bool" where
  "moved c c' = (c' = cur_at c (cur_pos c') \<and> cur_pos c + 8 \<le> cur_pos c')"

lemma rd_map_moved:
  assumes "rd_map f r c = Some (Some x, c')" "cur_len c \<le> 0xFFFF" "forward 8 r"
  shows "moved c c'"
  using assms forward_rd_map [OF assms(3), of f] unfolding forward_def moved_def by blast

lemmas decoders_moved = forward_decoders [THEN rd_map_moved [rotated 2]]

lemma rgb_decode_progress:
  assumes "rgb_decode c = Some (Some x, c')" "cur_len c \<le> 0xFFFF"
  shows "moved c c' \<or> (\<exists>b. x = RgbFail b)"
  using assms by (auto simp: rgb_decode_def dest: decoders_moved split: option.splits if_splits)

lemma rd_map_Some: "rd_map f r c = Some (Some y, c') \<Longrightarrow> \<exists>x. r c = Some (Some x, c') \<and> y = f x"
  by (auto simp: rd_map_def)

lemma instr_decode_progress:
  assumes "instr_decode rgb_decode c = Some (Some i, c')" "cur_len c \<le> 0xFFFF"
  shows "moved c c' \<or> i = Nop \<and> peek_u8 c = Some 0xFF \<or> (\<exists>b. i = ExtensionCodes (RgbFail b))"
  using assms
  by (auto simp: instr_decode_def dest: decoders_moved dest!: rd_map_Some [of _ rgb_decode] rgb_decode_progress
      split: option.splits if_splits)

section \<open>A run without the byte of \<open>nop\<close> ends\<close>

lemma next_step_Some: "next_step r = Some (rs, s) \<longleftrightarrow> r = Some rs \<and> s = Next"
  by (cases r) (auto simp: next_step_def)

definition local_step :: "ExecStep \<Rightarrow> bool" where
  "local_step s = (s \<in> {Next, Stop, FailStep})"

lemma local_exec:
  "put_exec A op1 rs = Some (rs', s) \<Longrightarrow> local_step s"
  "move_exec A op2 rs = Some (rs', s) \<Longrightarrow> local_step s"
  "cmp_exec A op3 rs = Some (rs', s) \<Longrightarrow> local_step s"
  "arithmetic_exec A op4 rs = Some (rs', s) \<Longrightarrow> local_step s"
  "bitwise_exec A op5 rs = Some (rs', s) \<Longrightarrow> local_step s"
  "bytes_exec A op6 rs = Some (rs', s) \<Longrightarrow> local_step s"
  "digest_exec A op7 rs = Some (rs', s) \<Longrightarrow> local_step s"
  "outstack_exec A op8 rs = Some (rs', s) \<Longrightarrow> local_step s"
  unfolding local_step_def
  subgoal by (cases op1) (simp_all add: set_or_fail_def next_step_Some del: set_n.simps)
  subgoal by (cases op2) (simp_all add: next_step_Some del: set_n.simps get_n.simps)
  subgoal by (cases op3) (simp_all add: next_step_Some del: set_n.simps get_n.simps)
  subgoal by (cases op4) (simp_all add: arith_done_def next_step_Some del: set_n.simps get_n.simps)
  subgoal by (cases "(A, op5, rs)" rule: bitwise_exec.cases) (simp_all add: next_step_Some Let_def del: set_n.simps get_n.simps)
  subgoal by (cases op6) (simp_all add: next_step_Some)
  subgoal by (cases op7) (simp_all add: digest_reg_def next_step_Some del: set_n.simps)
  subgoal by (cases op8) (auto simp: bind_eq_Some_conv Let_def push_outstack_def simp del: get_n.simps split: if_splits)
  done

lemma local_contract: "contract_exec A S ctx op rs = Some (rs', s) \<Longrightarrow> local_step s"
  unfolding local_step_def
  by (cases op)
     (auto simp: fail_stop_def set_num_def set_bytes_def next_step_Some
       split: option.splits OrdOpRef.splits RevealedState.splits sum.splits if_splits)

lemma local_instr:
  assumes "instr_exec (rgb_exec A S ctx) A i rs site = Some (rs', s)" "\<nexists>op. i = ControlFlow op"
  shows "local_step s"
proof -
  have "rgb_exec A S ctx x rs site = Some (rs', s) \<Longrightarrow> local_step s" for x
    by (cases x) (auto dest: local_contract simp: local_step_def)
  then show ?thesis
    using assms by (cases i) (auto simp: instr_exec_def local_step_def [of Next] local_step_def [of FailStep] dest: local_exec)
qed

lemma rgb_step_calls:
  assumes "instr_exec (rgb_exec A S ctx) A i rs site = Some (rs', step)"
  shows "calls_left rs' \<le> calls_left rs" "cl0 rs' = cl0 rs" "\<not> local_step step \<Longrightarrow> calls_left rs' < calls_left rs"
proof -
  have "calls_left rs' \<le> calls_left rs \<and> cl0 rs' = cl0 rs \<and> (\<not> local_step step \<longrightarrow> calls_left rs' < calls_left rs)"
  proof (cases "\<exists>op. i = ControlFlow op")
    case True
    then obtain op where "control_flow_exec op rs site = Some (rs', step)" using assms by (auto simp: instr_exec_def)
    then show ?thesis using control_flow_calls [of op rs site rs' step] by (cases step) (simp_all add: local_step_def)
  next
    case False
    then have "ctl rs' = ctl rs" using control.instr_exec_after [of rs "ctl rs" i A S ctx site] assms by auto
    then show ?thesis using local_instr [OF assms False] by (simp add: ctl_def calls_left_def)
  qed
  then show "calls_left rs' \<le> calls_left rs" "cl0 rs' = cl0 rs" "\<not> local_step step \<Longrightarrow> calls_left rs' < calls_left rs"
    by blast+
qed

lemma acc_complexity_ctl:
  "acc_complexity rs n = (rs', b) \<Longrightarrow> ctl rs' = ctl rs \<and> (cl0 rs = None \<longrightarrow> b) \<and> (regs_ok rs \<longrightarrow> regs_ok rs')"
  by (auto simp: acc_complexity_def ctl_def regs_ok_def Let_def split: option.splits if_splits)

lemma peek_in_code:
  assumes "peek_u8 c = Some 0xFF" "cur_len c = length (cur_code c)"
  shows "0xFF \<in> set (cur_code c)"
proof -
  have "cur_byte c < length (cur_code c)" "unat (cur_code c ! cur_byte c) = 0xFF"
    using assms by (auto simp: peek_u8_def is_eof_def byte_at_def split: if_splits)
  then have "cur_code c ! cur_byte c = 0xFF" by (simp add: word_unat_eq_iff)
  then show ?thesis using \<open>cur_byte c < length (cur_code c)\<close> by (metis nth_mem)
qed

text \<open>One turn of the loop of \<open>Lib::exec\<close>.\<close>

datatype Progress = Halt "(LibSite option \<times> CoreRegs) option" | Again Cursor CoreRegs

definition after_step :: "Cursor \<Rightarrow> CoreRegs \<Rightarrow> ExecStep \<Rightarrow> Progress" where
  "after_step c rs step =
     (case step of
        Stop \<Rightarrow> Halt (Some (None, rs))
      | FailStep \<Rightarrow> Halt (Some (None, set_st0 rs False))
      | Next \<Rightarrow> Again c rs
      | Jump p \<Rightarrow> (case seek p c of None \<Rightarrow> Halt (Some (None, set_st0 rs False)) | Some c' \<Rightarrow> Again c' rs)
      | CallStep site \<Rightarrow> Halt (Some (Some site, rs)))"

definition lib_step :: "'i InstructionSet \<Rightarrow> LibId \<Rightarrow> Cursor \<Rightarrow> CoreRegs \<Rightarrow> Progress" where
  "lib_step I lid c rs =
     (if is_eof c then Halt (Some (None, rs))
      else case is_decode I c of
        None \<Rightarrow> Halt None
      | Some (None, _) \<Rightarrow> Halt (Some (None, rs))
      | Some (Some i, c') \<Rightarrow>
          (case is_exec I i rs \<lparr> site_lib = lid, site_pos = word_of_nat (cur_byte c) \<rparr> of
             None \<Rightarrow> Halt None
           | Some (rs, step) \<Rightarrow>
               let (rs, ok) = acc_complexity rs (is_complexity I i) in
               if ok then after_step c' rs step else Halt (Some (None, rs))))"

lemma lib_loop_step:
  "lib_loop I lid c rs = (case lib_step I lid c rs of Halt r \<Rightarrow> Some r | Again c' rs' \<Rightarrow> lib_loop I lid c' rs')"
  by (subst lib_loop.simps)
     (auto simp: lib_step_def after_step_def Let_def split: option.splits prod.splits ExecStep.splits)

lemma lib_loop_induct [consumes 1, case_names Halt Again]:
  assumes "lib_loop I lid c rs = Some r"
    and "\<And>c rs r. lib_step I lid c rs = Halt r \<Longrightarrow> Q c rs r"
    and "\<And>c rs c' rs' r. lib_step I lid c rs = Again c' rs' \<Longrightarrow> Q c' rs' r \<Longrightarrow> Q c rs r"
  shows "Q c rs r"
proof -
  have "(\<forall>c rs r. lib_step I lid c rs = Halt r \<longrightarrow> Q c rs r)
      \<Longrightarrow> (\<forall>c rs c' rs' r. lib_step I lid c rs = Again c' rs' \<longrightarrow> Q c' rs' r \<longrightarrow> Q c rs r) \<Longrightarrow> Q c rs r"
    if "lib_loop I lid c rs = Some r" for I lid c rs r
  proof (induction rule: lib_loop.raw_induct [OF _ that])
    case (1 loop I lid c rs r)
    have "(case lib_step I lid c rs of Halt r \<Rightarrow> Some r | Again c' rs' \<Rightarrow> loop I lid c' rs') = Some r"
      using 1(2) by (auto simp: lib_step_def after_step_def Let_def split: option.splits prod.splits ExecStep.splits if_splits)
    then show ?case using 1(1,3,4) by (auto split: Progress.splits)
  qed
  then show ?thesis using assms by blast
qed

text \<open>Either the turn ends the loop without running an instruction, or an instruction ran.\<close>

lemma lib_step_cases:
  assumes "lib_step (rgb_set A S ctx) lid c rs = out"
  obtains (halt) "out = Halt None \<or> out = Halt (Some (None, rs))"
  | (run) i c' rs1 step rs2 ok where "\<not> is_eof c" "instr_decode rgb_decode c = Some (Some i, c')"
      "instr_exec (rgb_exec A S ctx) A i rs \<lparr> site_lib = lid, site_pos = word_of_nat (cur_byte c) \<rparr> = Some (rs1, step)"
      "acc_complexity rs1 (instr_complexity rgb_complexity i) = (rs2, ok)"
      "out = (if ok then after_step c' rs2 step else Halt (Some (None, rs2)))"
  using assms unfolding lib_step_def Let_def rgb_set_def
  by (auto split: if_splits option.splits prod.splits)

lemma after_step_Again: "after_step c rs step = Again c' rs' \<Longrightarrow>
    rs' = rs \<and> cur_code c' = cur_code c \<and> cur_len c' = cur_len c \<and> (step = Next \<and> c' = c \<or> (\<exists>p. step = Jump p))"
  by (auto simp: after_step_def seek_def split: ExecStep.splits option.splits if_splits)

lemma after_step_call: "after_step c rs step = Halt (Some (Some site, rs')) \<Longrightarrow> rs' = rs \<and> step = CallStep site"
  by (auto simp: after_step_def split: ExecStep.splits option.splits)

lemma unknown_extension_fails: "instr_exec (rgb_exec A S ctx) A (ExtensionCodes (RgbFail b)) rs site = Some (rs, FailStep)"
  by (simp add: instr_exec_def)

lemma lib_step_again:
  assumes "lib_step (rgb_set A S ctx) lid c rs = Again c' rs'"
    and "0xFF \<notin> set (cur_code c)" "cur_len c = length (cur_code c)" "cur_len c \<le> 0xFFFF"
  shows "cur_code c' = cur_code c \<and> cur_len c' = cur_len c
    \<and> (calls_left rs' < calls_left rs \<or> calls_left rs' \<le> calls_left rs \<and> cur_pos c < cur_pos c' \<and> cur_pos c < 8 * cur_len c)"
  using assms(1)
proof (cases rule: lib_step_cases)
  case (run i c1 rs1 step rs2 ok)
  have a: "after_step c1 rs2 step = Again c' rs'" using run(5) by (simp split: if_splits)
  note calls = rgb_step_calls [OF run(3)] and ctl = acc_complexity_ctl [OF run(4)]
  have "step \<noteq> FailStep" using a by (auto simp: after_step_def)
  then have "moved c c1"
    using instr_decode_progress [OF run(2) assms(4)] run(3) peek_in_code [of c] assms(2,3) by (auto simp: unknown_extension_fails)
  then have c1: "cur_code c1 = cur_code c" "cur_len c1 = cur_len c" "cur_pos c < cur_pos c1"
    unfolding moved_def by (metis cur_at_simps(2,3), metis cur_at_simps(2,3), linarith)
  have left: "calls_left rs2 = calls_left rs1" using ctl by (simp add: ctl_def calls_left_def)
  have "cur_pos c < 8 * cur_len c" using run(1) by (simp add: eof_pos)
  moreover have "calls_left rs2 < calls_left rs" if "\<exists>p. step = Jump p"
    using that calls(3) left by (auto simp: local_step_def)
  ultimately show ?thesis using after_step_Again [OF a] c1 calls(1) left by auto
qed (use assms(1) in auto)

lemma lib_step_call:
  assumes "lib_step (rgb_set A S ctx) lid c rs = Halt (Some (Some site, rs'))"
  shows "calls_left rs' < calls_left rs"
  using assms
proof (cases rule: lib_step_cases)
  case (run i c1 rs1 step rs2 ok)
  have "after_step c1 rs2 step = Halt (Some (Some site, rs'))" using run(5) by (simp split: if_splits)
  then have "rs' = rs2" "step = CallStep site" using after_step_call by blast+
  then show ?thesis
    using rgb_step_calls(3) [OF run(3)] acc_complexity_ctl [OF run(4)] by (simp add: ctl_def calls_left_def local_step_def)
qed (use assms in auto)

lemma lib_loop_ends:
  assumes "0xFF \<notin> set (cur_code c)" "cur_len c = length (cur_code c)" "cur_len c \<le> 0xFFFF"
  shows "\<exists>r. lib_loop (rgb_set A S ctx) lid c rs = Some r \<and> (\<forall>site rs'. r = Some (Some site, rs') \<longrightarrow> calls_left rs' < calls_left rs)"
  using assms
proof (induction "(rs, c)" arbitrary: rs c
    rule: wf_induct_rule [OF wf_measures [of "[\<lambda>(rs, c). calls_left rs, \<lambda>(rs, c). 8 * cur_len c - cur_pos c]"], case_names turn])
  case turn
  show ?case
  proof (cases "lib_step (rgb_set A S ctx) lid c rs")
    case (Halt r)
    then show ?thesis using lib_step_call [of A S ctx lid c rs] by (subst lib_loop_step) auto
  next
    case (Again c' rs')
    note s = lib_step_again [OF Again turn(2-4)]
    have "\<exists>r. lib_loop (rgb_set A S ctx) lid c' rs' = Some r \<and> (\<forall>site rs''. r = Some (Some site, rs'') \<longrightarrow> calls_left rs'' < calls_left rs')"
      by (rule turn(1)) (use s turn(2-4) in auto)
    then show ?thesis using s by (subst lib_loop_step) (auto simp: Again)
  qed
qed

lemma lib_exec_ends:
  assumes "0xFF \<notin> set (lib_code l)"
  shows "\<exists>r. lib_exec sha (rgb_set A S ctx) l p rs = Some r \<and> (\<forall>site rs'. r = Some (Some site, rs') \<longrightarrow> calls_left rs' < calls_left rs)"
proof -
  have "\<exists>r. lib_loop (rgb_set A S ctx) lid c' rs = Some r \<and> (\<forall>site rs'. r = Some (Some site, rs') \<longrightarrow> calls_left rs' < calls_left rs)"
    if "cursor_with (lib_code l) (lib_data l) (lib_libs l) = Some c" "seek p c = Some c'" for c c' lid
    by (rule lib_loop_ends) (use that assms in \<open>auto simp: cursor_with_def seek_def split: if_splits\<close>)
  then show ?thesis by (auto simp: lib_exec_def split: option.splits)
qed

lemma vm_loop_ends:
  assumes "\<And>lid l. libs lid = Some l \<Longrightarrow> 0xFF \<notin> set (lib_code l)"
  shows "\<exists>r. vm_loop sha (rgb_set A S ctx) libs call rs = Some r"
proof (induction "(rs, call)" arbitrary: rs call
    rule: wf_induct_rule [OF wf_measures [of "[\<lambda>(rs, _). calls_left rs,
      \<lambda>(_, call). case call of None \<Rightarrow> 0 | Some site \<Rightarrow> 0x10000 - unat (site_pos site)]"], case_names turn])
  case turn
  show ?case
  proof (cases call)
    case None
    then show ?thesis by (subst vm_loop.simps) simp
  next
    case (Some site)
    show ?thesis
    proof (cases "libs (site_lib site)")
      case None
      have n: "vm_loop sha (rgb_set A S ctx) libs None rs = Some (Some rs)" by (subst vm_loop.simps) simp
      have "\<exists>r. vm_loop sha (rgb_set A S ctx) libs (Some (site\<lparr> site_pos := p \<rparr>)) rs = Some r"
        if "u16_checked_inc (site_pos site) = Some p" for p
        by (rule turn) (use u16_inc_less [OF that] Some in auto)
      then show ?thesis using None Some n by (subst vm_loop.simps) (auto split: option.splits)
    next
      case l: (Some l)
      obtain r where r: "lib_exec sha (rgb_set A S ctx) l (site_pos site) rs = Some r"
        "\<forall>site' rs'. r = Some (Some site', rs') \<longrightarrow> calls_left rs' < calls_left rs"
        using lib_exec_ends [OF assms [OF l]] by blast
      have n: "vm_loop sha (rgb_set A S ctx) libs None rs' = Some (Some rs')" for rs' by (subst vm_loop.simps) simp
      have "\<exists>q. vm_loop sha (rgb_set A S ctx) libs call' rs' = Some q" if "r = Some (call', rs')" for call' rs'
      proof (cases call')
        case None
        then show ?thesis using n by simp
      next
        case (Some site')
        show ?thesis by (rule turn) (use r(2) that Some in auto)
      qed
      then show ?thesis using Some l r(1) by (subst vm_loop.simps) (auto split: option.splits)
    qed
  qed
qed

section \<open>What a run keeps\<close>

text \<open>
  A property of the registers that the writes of the instructions keep (\<open>regs_inv\<close>) and that
  control flow and the accounting of complexity keep holds of the registers a run ends with.
\<close>

locale run_inv = regs_inv A P for A P +
  assumes inv_control: "P rs \<Longrightarrow> control_flow_exec op rs site = Some (rs', step) \<Longrightarrow> P rs'"
    and inv_complexity: "P rs \<Longrightarrow> acc_complexity rs n = (rs', b) \<Longrightarrow> P rs'"
begin

lemma instr_inv:
  assumes "P rs" "instr_exec (rgb_exec A S ctx) A i rs site = Some (rs', step)"
  shows "P rs'"
proof (cases "\<exists>op. i = ControlFlow op")
  case True
  then show ?thesis using assms inv_control by (auto simp: instr_exec_def)
next
  case False
  then show ?thesis using instr_exec_after [OF assms(1), of i S ctx site] assms(2) by simp
qed

lemma lib_step_inv:
  assumes "P rs" "lib_step (rgb_set A S ctx) lid c rs = out"
  shows "case out of Halt r \<Rightarrow> \<forall>call rs'. r = Some (call, rs') \<longrightarrow> P rs' | Again c' rs' \<Rightarrow> P rs'"
  using assms(2)
proof (cases rule: lib_step_cases)
  case (run i c1 rs1 step rs2 ok)
  have "P rs2" using instr_inv [OF assms(1) run(3)] inv_complexity [OF _ run(4)] by blast
  then show ?thesis using run(5) inv_st0 [of rs2 False]
    by (auto simp: after_step_def split: Progress.splits ExecStep.splits option.splits if_splits)
qed (use assms(1) in auto)

lemma lib_loop_inv:
  assumes "lib_loop (rgb_set A S ctx) lid c rs = Some r"
  shows "P rs \<longrightarrow> (\<forall>call rs'. r = Some (call, rs') \<longrightarrow> P rs')"
  using assms
proof (induction rule: lib_loop_induct)
  case (Halt c rs r)
  then show ?case using lib_step_inv [of rs S ctx lid c] by auto
next
  case (Again c rs c' rs' r)
  then show ?case using lib_step_inv [of rs S ctx lid c] by auto
qed

lemma lib_exec_inv:
  assumes "lib_exec sha (rgb_set A S ctx) l p rs = Some (Some (call, rs'))" "P rs"
  shows "P rs'"
  using assms lib_loop_inv inv_st0 by (fastforce simp: lib_exec_def split: option.splits)

lemma vm_loop_inv:
  assumes "vm_loop sha (rgb_set A S ctx) libs call rs = Some (Some rs')" "P rs"
  shows "P rs'"
proof -
  have "I = rgb_set A S ctx \<longrightarrow> P rs \<longrightarrow> (\<forall>rs'. r = Some rs' \<longrightarrow> P rs')"
    if "vm_loop sha I libs call rs = Some r" for I libs call rs r
  proof (induction rule: vm_loop.raw_induct [OF _ that])
    case (1 loop sha I libs call rs r)
    then show ?case
      by (auto split: option.splits dest: lib_exec_inv)
  qed
  then show ?thesis using assms by blast
qed

end

interpretation width_run: run_inv A "\<lambda>rs. alu_ok A \<longrightarrow> regs_ok rs" for A
proof unfold_locales
  fix op rs site rs' step
  assume "alu_ok A \<longrightarrow> regs_ok rs" "control_flow_exec op rs site = Some (rs', step)"
  then show "alu_ok A \<longrightarrow> regs_ok rs'"
    by (cases op) (auto simp: regs_jmp_def regs_call_def regs_ret_def regs_ok_def Let_def split: option.splits if_splits)
qed (auto dest: acc_complexity_ctl)

text \<open>No call moves the stack pointer, so it stays at the bottom of the call stack and the cost limit stays unset.\<close>

definition no_frame :: "CoreRegs \<Rightarrow> bool" where
  "no_frame rs = (cp0 rs = 0 \<and> cl0 rs = None)"

interpretation no_frame_run: run_inv A no_frame for A
proof unfold_locales
  fix rs r i m rs' b
  assume "no_frame rs" "set_n A rs r i m = Some (rs', b)"
  then show "no_frame rs'" using set_n_ctl [of A rs r i m] by (simp add: no_frame_def ctl_def)
next
  fix op rs site rs' step
  assume "no_frame rs" "control_flow_exec op rs site = Some (rs', step)"
  then show "no_frame rs'"
    by (cases op) (auto simp: regs_jmp_def regs_call_def regs_ret_def no_frame_def Let_def split: option.splits if_splits)
next
  fix rs n rs' b
  assume "no_frame rs" "acc_complexity rs n = (rs', b)"
  then show "no_frame rs'" using acc_complexity_ctl [of rs n rs' b] by (simp add: no_frame_def ctl_def)
qed (auto simp: no_frame_def set_st0_def set_s16_def)

section \<open>The byte of \<open>nop\<close>\<close>

lemma nop_step:
  assumes "peek_u8 c = Some 0xFF" "cl0 rs = None"
  shows "\<exists>rs'. lib_step (rgb_set A S ctx) lid c rs = Again c rs' \<and> cl0 rs' = None"
proof -
  have "instr_decode rgb_decode c = Some (Some Nop, c)" using assms(1) by (simp add: instr_decode_def)
  moreover have "\<not> is_eof c" using assms(1) by (auto simp: peek_u8_def)
  ultimately show ?thesis
    using assms(2)
    by (auto simp: lib_step_def rgb_set_def instr_exec_def after_step_def acc_complexity_def Let_def split: option.splits)
qed

lemma nop_loop:
  assumes "peek_u8 c = Some 0xFF" "cl0 rs = None"
  shows "lib_loop (rgb_set A S ctx) lid c rs = None"
proof -
  have "\<not> (peek_u8 c = Some 0xFF \<and> cl0 rs = None)" if "lib_loop (rgb_set A S ctx) lid c rs = Some r" for r
    using that
  proof (induction rule: lib_loop_induct)
    case (Halt c rs r)
    then show ?case using nop_step [of c rs A S ctx lid] by auto
  next
    case (Again c rs c' rs' r)
    then show ?case using nop_step [of c rs A S ctx lid] by (metis Progress.inject(2))
  qed
  then show ?thesis using assms by (cases "lib_loop (rgb_set A S ctx) lid c rs") auto
qed

end
