(* ===== verification/Alu_Eval.thy ===== *)
theory Alu_Eval
  imports Alu_Run
begin

text \<open>
  Rules for running concrete code: how a run enters a library, and a set of equations under which
  the simplifier performs one turn of the loop.
\<close>

lemma number_with_uint [simp]:
  "length bs = n \<Longrightarrow> n \<le> 1024 \<Longrightarrow> number_with bs (unsigned_layout n) = Some (Some (from_uint n (le_val bs)))"
  by (simp add: number_with_def from_slice_def from_uint_def unsigned_layout_def)

lemma vm_loop_None [simp]: "vm_loop sha I libs None rs = Some (Some rs)"
  by (subst vm_loop.simps) simp

definition lib_cursor :: "Lib \<Rightarrow> nat \<Rightarrow> Cursor" where
  "lib_cursor l p =
     \<lparr> cur_code = lib_code l, cur_len = length (lib_code l), cur_byte = p, cur_bit = 0, cur_data = lib_data l,
       cur_libs = lib_libs l \<rparr>"

lemma vm_exec_enters:
  assumes "libs (site_lib site) = Some l" "unat (site_pos site) < length (lib_code l)"
    and "length (lib_code l) \<le> 0xFFFF" "length (lib_data l) \<le> 0xFFFF"
  shows "vm_exec sha I site libs rs =
    (case lib_loop I (library_id sha l) (lib_cursor l (unat (site_pos site))) rs of
       None \<Rightarrow> None
     | Some None \<Rightarrow> Some None
     | Some (Some (call, rs')) \<Rightarrow> vm_loop sha I libs call rs')"
  unfolding vm_exec_def using assms
  by (subst vm_loop.simps) (simp add: lib_exec_def cursor_with_def seek_def DATA_SEGMENT_MAX_LEN_def lib_cursor_def)

lemmas turn_simps = lib_step_def rgb_set_def instr_decode_def rd_map_def peek_u8_def is_eof_def byte_at_def rd_def ret_def
  read_at cur_pos_def cur_val_def cur_at_def take_bit_eq_mod drop_bit_eq_div instr_exec_def acc_complexity_def after_step_def
  next_step_def Let_def

lemmas put_simps = put_decode_def rega_of_code_def regs_a_def rega_layout_def rd_number_def set_or_fail_def

end
