(* ===== verification/Alu_Roundtrip.thy ===== *)
theory Alu_Roundtrip
  imports Alu_Run
begin

text \<open>
  What the assembler writes is what the decoder reads.  A cursor extends another when it shows the
  same bits up to the other's position and at least its data; a call on the writer leaves a value
  that every extension reads back, and the decoders put the instruction together again.
\<close>

section \<open>Calls on the writer\<close>

definition number_ok :: "nat \<Rightarrow> Layout \<Rightarrow> Number \<Rightarrow> bool" where
  "number_ok n l v = (num_layout v = l \<and> layout_bytes l = n \<and> n \<le> 1024 \<and> num_val v < 2 ^ (8 * n))"

fun call_bits :: "WriteCall \<Rightarrow> nat" where
  "call_bits (WBits n v) = n"
| "call_bits (WLib l) = 8"
| "call_bits (WData bs) = 32"
| "call_bits (WNumber n l v) = 16"
| "call_bits WNoNumber = 16"

fun call_ok :: "WriteCall \<Rightarrow> bool" where
  "call_ok (WBits n v) = (v < 2 ^ n \<and> 0 < n \<and> n \<le> 16)"
| "call_ok (WNumber n l v) = number_ok n l v"
| "call_ok _ = True"

definition writer_ok :: "Cursor \<Rightarrow> bool" where
  "writer_ok c = (cur_len c \<le> 0xFFFF \<and> cur_val c < 2 ^ cur_pos c \<and> length (cur_data c) \<le> 0xFFFF \<and> length (cur_libs c) \<le> 0xFF)"

definition extends :: "Cursor \<Rightarrow> Cursor \<Rightarrow> bool" where
  "extends m c = (cur_len m \<le> 0xFFFF \<and> cur_pos c \<le> 8 * cur_len m \<and> take_bit (cur_pos c) (cur_val m) = cur_val c
     \<and> (\<exists>ds. cur_data m = cur_data c @ ds) \<and> cur_libs m = cur_libs c)"

definition grows :: "Cursor \<Rightarrow> nat \<Rightarrow> Cursor \<Rightarrow> bool" where
  "grows c n c' = (writer_ok c' \<and> cur_len c' = cur_len c \<and> cur_libs c' = cur_libs c \<and> cur_pos c' = cur_pos c + n
     \<and> cur_pos c' \<le> 8 * cur_len c' \<and> take_bit (cur_pos c) (cur_val c') = cur_val c \<and> (\<exists>ds. cur_data c' = cur_data c @ ds))"

fun held :: "Cursor \<Rightarrow> nat \<Rightarrow> WriteCall \<Rightarrow> bool" where
  "held m p (WBits n v) = (read n (cur_at m p) = (Some v, cur_at m (n + p)))"
| "held m p (WLib l) =
     (\<exists>i. i < 256 \<and> i < length (cur_libs m) \<and> cur_libs m ! i = l \<and> read 8 (cur_at m p) = (Some i, cur_at m (8 + p)))"
| "held m p (WData bs) =
     (\<exists>off. off + length bs \<le> length (cur_data m) \<and> off + length bs \<le> 0xFFFF \<and> take (length bs) (drop off (cur_data m)) = bs
        \<and> read 16 (cur_at m p) = (Some off, cur_at m (16 + p))
        \<and> read 16 (cur_at m (16 + p)) = (Some (length bs), cur_at m (32 + p)))"
| "held m p (WNumber n l v) =
     (\<exists>off. off + n \<le> length (cur_data m) \<and> number_with (take n (drop off (cur_data m))) l = Some (Some v)
        \<and> read 16 (cur_at m p) = (Some off, cur_at m (16 + p)))"
| "held m p WNoNumber = False"

fun holds :: "Cursor \<Rightarrow> nat \<Rightarrow> WriteCall list \<Rightarrow> bool" where
  "holds m p [] = True"
| "holds m p (w # ws) = (held m p w \<and> holds m (call_bits w + p) ws)"

lemma extends_back: "extends m c' \<Longrightarrow> grows c n c' \<Longrightarrow> extends m c"
  unfolding extends_def grows_def
  by (auto simp: min_def) (metis le_add1 min_def take_bit_take_bit)

lemma grows_trans: "grows a n b \<Longrightarrow> grows b k c \<Longrightarrow> grows a (n + k) c"
  unfolding grows_def by (auto simp: min_def) (metis le_add1 min_def take_bit_take_bit)

lemma write_at_grows:
  assumes "write_at n v c = POk c'" "writer_ok c" "call_ok (WBits n v)"
  shows "grows c n c'" "cur_data c' = cur_data c" "extends m c' \<Longrightarrow> held m (cur_pos c) (WBits n v)"
proof -
  have w: "write_bits n v c = Some c'" using assms(1) by (auto simp: write_at_def split: option.splits)
  have ok: "cur_len c \<le> 0xFFFF" "cur_val c < 2 ^ cur_pos c" "v < 2 ^ n" "0 < n" "n \<le> 16" using assms(2,3) by (auto simp: writer_ok_def)
  note s = write_bits_at [OF w ok(1,3,4)]
  have n56: "n \<le> 56" using ok(5) by simp
  have f: "same_frame c c'" and p: "cur_pos c' = cur_pos c + n" "cur_pos c' \<le> 8 * cur_len c"
    and v: "cur_val c' = cur_val c + 2 ^ cur_pos c * v"
    using s [OF n56] or_disjoint_add [OF ok(2)] by auto
  have "cur_val c' < 2 ^ cur_pos c * (v + 1)" using ok(2) v by simp
  also have "\<dots> \<le> 2 ^ cur_pos c * 2 ^ n" using ok(3) by (intro mult_le_mono) auto
  finally have less: "cur_val c' < 2 ^ cur_pos c'" by (simp add: p power_add)
  have low: "take_bit (cur_pos c) (cur_val c') = cur_val c" and high: "drop_bit (cur_pos c) (cur_val c') = v"
    using ok(2) by (simp_all add: v take_bit_eq_mod drop_bit_eq_div)
  show "grows c n c'" "cur_data c' = cur_data c"
    using f p less low assms(2) by (auto simp: grows_def writer_ok_def same_frame_def)
  assume e: "extends m c'"
  have "take_bit n (drop_bit (cur_pos c) (cur_val m)) = drop_bit (cur_pos c) (take_bit (cur_pos c + n) (cur_val m))"
    by (simp add: take_bit_drop_bit add.commute)
  also have "\<dots> = v" using e high by (simp add: extends_def p)
  finally show "held m (cur_pos c) (WBits n v)"
    using e ok(4) by (simp add: read_at extends_def p add.commute)
qed

lemma find_window_Some: "find_window w bs = Some p \<Longrightarrow> p + length w \<le> length bs \<and> take (length w) (drop p bs) = w"
  by (induction bs arbitrary: p) (auto split: if_splits)

lemma write_unique_at:
  assumes "write_unique bs c = Ok (off, c')" "writer_ok c"
  shows "\<exists>ds. c' = c\<lparr> cur_data := cur_data c @ ds \<rparr> \<and> off + length bs \<le> length (cur_data c @ ds) \<and> length (cur_data c @ ds) \<le> 0xFFFF
    \<and> take (length bs) (drop off (cur_data c @ ds)) = bs"
proof (cases "bs = [] \<or> find_window bs (cur_data c) \<noteq> None")
  case True
  then have "c' = c" "off + length bs \<le> length (cur_data c)" "take (length bs) (drop off (cur_data c)) = bs"
    using assms(1) find_window_Some [of bs "cur_data c"] by (auto simp: write_unique_def Let_def split: if_splits)
  then show ?thesis using assms(2) by (intro exI [of _ "[]"]) (simp add: writer_ok_def)
next
  case False
  then show ?thesis
    using assms by (auto simp: write_unique_def Let_def writer_ok_def DATA_SEGMENT_MAX_LEN_def split: if_splits)
qed

lemma writer_data:
  assumes "writer_ok c" "length (cur_data c @ ds) \<le> 0xFFFF"
  shows "writer_ok (c\<lparr> cur_data := cur_data c @ ds \<rparr>)" "cur_pos (c\<lparr> cur_data := d \<rparr>) = cur_pos c"
    "grows (c\<lparr> cur_data := cur_data c @ ds \<rparr>) n c' \<Longrightarrow> grows c n c'"
  using assms by (auto simp: writer_ok_def grows_def cur_pos_def cur_val_def)

lemma num_slice_val:
  assumes "number_ok n l v"
  shows "length (num_slice v) = n" "number_with (map word_of_nat (num_slice v)) l = Some (Some v)"
proof -
  have len: "num_len v = n" using assms by (simp add: number_ok_def num_len_def)
  have bytes: "le_val (map word_of_nat bs) = of_byte_list bs" if "\<forall>b \<in> set bs. b < 256" for bs
    using that by (induction bs) (auto simp: of_byte_list_def unsigned_of_nat take_bit_nat_eq_self)
  have s: "num_slice v = map (byte_of (num_val v)) [0..<n]" by (simp add: num_slice_def len num_byte_def byte_of_def fun_eq_iff)
  have "le_val (map word_of_nat (num_slice v)) = take_bit (8 * n) (num_val v)"
    unfolding s by (subst bytes) (use byte_of_less of_byte_list_bytes in auto)
  then have "le_val (map word_of_nat (num_slice v)) = num_val v"
    using assms by (simp add: number_ok_def take_bit_nat_eq_self)
  then show "length (num_slice v) = n" "number_with (map word_of_nat (num_slice v)) l = Some (Some v)"
    using assms len by (simp_all add: num_slice_def number_with_def from_slice_def number_ok_def)
qed

lemma write_call_grows:
  assumes "write_call A w c = POk c'" "writer_ok c" "call_ok w"
  shows "grows c (call_bits w) c' \<and> (extends m c' \<longrightarrow> held m (cur_pos c) w)"
proof (cases w)
  case (WBits n v)
  then show ?thesis using write_at_grows assms by simp
next
  case (WLib l)
  then obtain i where i: "position (\<lambda>x. x = l) (cur_libs c) = Some i" "write_at 8 (i mod 256) c = POk c'"
    using assms(1) by (auto split: option.splits)
  have "i < length (cur_libs c)" "cur_libs c ! i = l" using position_Some [OF i(1)] by auto
  moreover have "i < 256" using calculation assms(2) by (simp add: writer_ok_def)
  ultimately show ?thesis
    using write_at_grows [OF i(2) assms(2)] WLib by (auto simp: extends_def grows_def)
next
  case (WData bs)
  then obtain off c1 c2 where u: "write_unique bs c = Ok (off, c1)" "length bs < 0xFFFF"
    and w: "write_at 16 (off mod 65536) c1 = POk c2" "write_at 16 (length bs) c2 = POk c'"
    using assms(1) by (auto simp: res_simps split: if_splits sum.splits)
  obtain ds where ds: "c1 = c\<lparr> cur_data := cur_data c @ ds \<rparr>" "off + length bs \<le> length (cur_data c @ ds)"
    "length (cur_data c @ ds) \<le> 0xFFFF" "take (length bs) (drop off (cur_data c @ ds)) = bs"
    using write_unique_at [OF u(1) assms(2)] by blast
  note c1 = writer_data [OF assms(2) ds(3), folded ds(1)]
  have off: "off mod 65536 = off" using ds(2,3) by simp
  note w1 = write_at_grows [OF w(1) c1(1), unfolded off]
  have g1: "grows c1 16 c2" using w1(1) ds(2,3) by simp
  then have ok2: "writer_ok c2" by (simp add: grows_def)
  note w2 = write_at_grows [OF w(2) ok2]
  have g2: "grows c2 16 c'" using w2(1) u(2) by simp
  have "grows c 32 c'" using c1(3) [OF grows_trans [OF g1 g2]] by simp
  moreover have "held m (cur_pos c) (WData bs)" if e: "extends m c'"
  proof -
    have h: "held m (cur_pos c) (WBits 16 off)" "held m (16 + cur_pos c) (WBits 16 (length bs))"
      using w1(3) [OF _ extends_back [OF e g2]] w2(3) [OF _ e] u(2) ds(1-3) g1 c1(2) by (simp_all add: grows_def add.commute)
    obtain ds' where "cur_data m = (cur_data c @ ds) @ ds'"
      using e w2(2) w1(2) u(2) ds(1-3) by (auto simp: extends_def)
    then show ?thesis using h ds(2-4) by (auto intro!: exI [of _ off])
  qed
  ultimately show ?thesis using WData by simp
next
  case (WNumber n l v)
  then have ok: "number_ok n l v" using assms(3) by simp
  have "reshape A v (using_sign l l) = Some (v, True)"
    using ok by (cases l) (simp_all add: number_ok_def int_reshape_def il_using_sign_def)
  then obtain off c1 where u: "write_unique (map word_of_nat (num_slice v)) c = Ok (off, c1)" and w: "write_at 16 (off mod 65536) c1 = POk c'"
    using assms(1) WNumber ok by (auto simp: number_ok_def split: if_splits sum.splits)
  obtain ds where ds: "c1 = c\<lparr> cur_data := cur_data c @ ds \<rparr>" "off + n \<le> length (cur_data c @ ds)"
    "length (cur_data c @ ds) \<le> 0xFFFF" "take n (drop off (cur_data c @ ds)) = map word_of_nat (num_slice v)"
    using write_unique_at [OF u assms(2)] num_slice_val(1) [OF ok] by auto
  note c1 = writer_data [OF assms(2) ds(3), folded ds(1)]
  have off: "off mod 65536 = off" using ds(2,3) by simp
  note w1 = write_at_grows [OF w c1(1), unfolded off]
  have g: "grows c1 16 c'" using w1(1) ds(2,3) by simp
  moreover have "held m (cur_pos c) (WNumber n l v)" if e: "extends m c'"
  proof -
    have h: "held m (cur_pos c) (WBits 16 off)" using w1(3) [OF _ e] ds(1-3) c1(2) by simp
    obtain ds' where "cur_data m = (cur_data c @ ds) @ ds'" using e w1(2) ds(1-3) by (auto simp: extends_def)
    then have "take n (drop off (cur_data m)) = map word_of_nat (num_slice v)" "off + n \<le> length (cur_data m)"
      using ds(2,4) by auto
    then show ?thesis using h num_slice_val(2) [OF ok] by auto
  qed
  ultimately show ?thesis using WNumber c1(3) by simp
next
  case WNoNumber
  then show ?thesis using assms(1) by simp
qed

lemma write_calls_grows:
  assumes "write_calls A ws c = POk c'" "writer_ok c" "\<forall>w \<in> set ws. call_ok w"
  shows "grows c (sum_list (map call_bits ws)) c' \<and> (extends m c' \<longrightarrow> holds m (cur_pos c) ws) \<or> ws = [] \<and> c' = c"
  using assms
proof (induction ws arbitrary: c)
  case (Cons w ws)
  obtain c1 where w: "write_call A w c = POk c1" "write_calls A ws c1 = POk c'"
    using Cons.prems(1) by (auto simp: res_simps)
  have g: "grows c (call_bits w) c1" and h: "extends m c1 \<longrightarrow> held m (cur_pos c) w"
    using write_call_grows [OF w(1) Cons.prems(2), of m] Cons.prems(3) by simp_all
  have c1: "writer_ok c1" "cur_pos c1 = cur_pos c + call_bits w" using g by (simp_all add: grows_def)
  show ?case
  proof (cases "ws = []")
    case True
    then show ?thesis using g h w(2) by simp
  next
    case False
    then have g': "grows c1 (sum_list (map call_bits ws)) c'" and h': "extends m c' \<longrightarrow> holds m (cur_pos c1) ws"
      using Cons.IH [OF w(2) c1(1)] Cons.prems(3) by simp_all
    then show ?thesis using grows_trans [OF g g'] extends_back [OF _ g'] h c1(2) by (simp add: add.commute)
  qed
qed simp

section \<open>Codes of registers and flags\<close>

lemma reg_codes [simp]:
  "rega_of_code (rega_code a) = a" "regf_of_code (regf_code f) = f" "regr_of_code (regr_code r) = r"
  "rega2_of_code (rega2_code a2) = a2" "reg_s_of_u8 (u8_of_reg_s s) = s"
proof -
  show "rega_of_code (rega_code a) = a" by (cases a) (simp_all add: rega_of_code_def regs_a_def)
  show "regf_of_code (regf_code f) = f" by (cases f) (simp_all add: regf_of_code_def regs_f_def)
  show "regr_of_code (regr_code r) = r" by (cases r) (simp_all add: regr_of_code_def regs_r_def)
  show "rega2_of_code (rega2_code a2) = a2" by (cases a2) (simp_all add: rega2_of_code_def)
  have "unat s < 16" using unsigned_less [of s, where ?'a = nat] by simp
  then show "reg_s_of_u8 (u8_of_reg_s s) = s" by (simp add: reg_s_of_u8_def u8_of_reg_s_def unsigned_ucast_eq take_bit_nat_eq_self)
qed

lemma mixed_codes [simp]: "regaf_of_code (regaf_code af) = af" "regar_of_code (regar_code ar) = ar"
proof -
  show "regaf_of_code (regaf_code af) = af"
  proof (cases af)
    case (AF_A a)
    then show ?thesis by (cases a) (simp_all add: regaf_of_code_def rega_of_code_def regs_a_def)
  next
    case (AF_F f)
    then show ?thesis by (cases f) (simp_all add: regaf_of_code_def regf_of_code_def regs_f_def)
  qed
  show "regar_of_code (regar_code ar) = ar"
  proof (cases ar)
    case (AR_A a)
    then show ?thesis by (cases a) (simp_all add: regar_of_code_def rega_of_code_def regs_a_def)
  next
    case (AR_R r)
    then show ?thesis by (cases r) (simp_all add: regar_of_code_def regr_of_code_def regs_r_def)
  qed
qed

lemma flag_codes [simp]:
  "sign_of (sign_code sg) = sg" "none_eq_of (none_eq_code ne) = ne" "float_eq_of (float_eq_code fe) = fe"
  "extend_of (extend_code ex) = ex" "rounding_of (rounding_code rf) = rf" "merge_of (merge_code mf) = mf"
  "delete_of (delete_code df) = df" "split_of (split_code sf) = sf" "insert_of (insert_code nf) = nf"
  "bit_code b = 1 \<longleftrightarrow> b"
  subgoal by (cases sg) (simp_all add: sign_of_def)
  subgoal by (cases ne) (simp_all add: none_eq_of_def)
  subgoal by (cases fe) (simp_all add: float_eq_of_def)
  subgoal by (cases ex) (simp_all add: extend_of_def)
  subgoal by (cases rf) (simp_all add: rounding_of_def)
  subgoal by (cases mf) (simp_all add: merge_of_def)
  subgoal by (cases df) (simp_all add: delete_of_def)
  subgoal by (cases sf) (simp_all add: split_of_def split_flags_def)
  subgoal by (cases nf) (simp_all add: insert_of_def insert_flags_def)
  subgoal by (simp add: bit_code_def)
  done

lemma int_flags_codes [simp]: "if_wrap f = if_signed f \<Longrightarrow> int_flags_of (int_flags_code f) = f"
  by (cases f; cases "if_signed f") (simp_all add: int_flags_of_def int_flags_code_def)

section \<open>Decoding what was written\<close>

text \<open>The instructions whose encoding the decoder understands.\<close>

fun put_ok :: "PutOp \<Rightarrow> bool" where
  "put_ok (PutA r i m) = (\<exists>v. m = Some v \<and> number_ok (rega_bytes r) (rega_layout r) v)"
| "put_ok (PutF r i m) = (\<exists>v. m = Some v \<and> number_ok (regf_bytes r) (FloatLayout (regf_layout r)) v)"
| "put_ok (PutR r i m) = (\<exists>v. m = Some v \<and> number_ok (regr_bytes r) (regr_layout r) v)"
| "put_ok (PutIfA r i m) = (\<exists>v. m = Some v \<and> number_ok (rega_bytes r) (rega_layout r) v)"
| "put_ok (PutIfR r i m) = (\<exists>v. m = Some v \<and> number_ok (regr_bytes r) (regr_layout r) v)"
| "put_ok _ = True"

fun arithmetic_ok :: "ArithmeticOp \<Rightarrow> bool" where
  "arithmetic_ok (AddA f r i j) = (if_wrap f = if_signed f)"
| "arithmetic_ok (SubA f r i j) = (if_wrap f = if_signed f)"
| "arithmetic_ok (MulA f r i j) = (if_wrap f = if_signed f)"
| "arithmetic_ok (DivA f r i j) = (if_wrap f = if_signed f)"
| "arithmetic_ok (Stp r i s) = (0 \<le> sint s)"
| "arithmetic_ok _ = True"

fun contract_ok :: "ContractOp \<Rightarrow> bool" where
  "contract_ok (Vts r) = False"
| "contract_ok (FailOp b) = (b \<in> {0xce, 0xcf, 0xd4})"
| "contract_ok _ = True"

fun instr_ok :: "RgbIsa Instr \<Rightarrow> bool" where
  "instr_ok (Put op) = put_ok op"
| "instr_ok (Arithmetic op) = arithmetic_ok op"
| "instr_ok (Bytes (PutS r bs st)) = (\<not> st)"
| "instr_ok (Digest (Blake3 s d)) = False"
| "instr_ok (ExtensionCodes (Contract op)) = contract_ok op"
| "instr_ok (ExtensionCodes (RgbFail b)) = False"
| "instr_ok (ReservedInstruction (ReservedOp b)) = (0x40 \<le> b \<and> b \<le> 0x7f)"
| "instr_ok Nop = False"
| "instr_ok _ = True"

definition reads_back :: "'a reader \<Rightarrow> WriteCall list \<Rightarrow> 'a \<Rightarrow> bool" where
  "reads_back d ws x = (\<forall>m p. cur_len m \<le> 0xFFFF \<longrightarrow> holds m p ws
     \<longrightarrow> d (cur_at m p) = Some (Some x, cur_at m (sum_list (map call_bits ws) + p)))"

lemma control_flow_back: "reads_back control_flow_decode (W (control_flow_byte op) # control_flow_args op) op"
  unfolding reads_back_def
  by (cases op) (auto simp: control_flow_decode_def rd_def rd_lib_def ret_def unsigned_of_nat take_bit_nat_eq_self)

lemma put_back: "put_ok op \<Longrightarrow> reads_back put_decode (W (put_byte op) # put_args op) op"
  unfolding reads_back_def by (cases op) (auto simp: put_decode_def rd_def rd_number_def number_call_def ret_def Let_def)

lemma move_back: "reads_back move_decode (W (move_byte op) # move_args op) op"
  unfolding reads_back_def by (cases op) (simp_all add: move_decode_def rd_def ret_def)

lemma cmp_back: "reads_back cmp_decode (W (cmp_byte op) # cmp_args op) op"
  unfolding reads_back_def by (cases op) (simp_all add: cmp_decode_def rd_def ret_def)

lemma step_byte: "0 \<le> sint (s :: u8) \<Longrightarrow> unat (scast s :: u32) = unat s"
proof -
  assume pos: "0 \<le> sint s"
  have lt: "sint s < 128" using sint_lt [of s] by simp
  have s8: "uint s = sint s"
    by (rule trans [OF uint_sint take_bit_int_eq_self]) (use pos lt in simp_all)
  have "uint (scast s :: u32) = take_bit LENGTH(32) (sint s)" by (simp only: scast_eq uint_word_of_int_eq)
  also have "\<dots> = sint s" by (rule take_bit_int_eq_self) (use pos lt in simp_all)
  also have "\<dots> = uint s" by (rule s8 [symmetric])
  finally have "nat (uint (scast s :: u32)) = nat (uint s)" by (rule arg_cong)
  then show ?thesis by (simp only: nat_uint_eq)
qed

lemma arithmetic_back: "arithmetic_ok op \<Longrightarrow> reads_back arithmetic_decode (W (arithmetic_byte op) # arithmetic_args op) op"
  unfolding reads_back_def
  by (cases op) (simp_all add: arithmetic_decode_def int_op_args_def float_op_args_def step_byte rd_def ret_def Let_def)

lemma read_split:
  assumes "cur_len m \<le> 0xFFFF" "read 5 (cur_at m q) = (Some v, c')"
  shows "read 4 (cur_at m q) = (Some (take_bit 4 v), cur_at m (4 + q))"
    "read (Suc 0) (cur_at m (4 + q)) = (Some (drop_bit 4 v), cur_at m (5 + q))"
proof -
  have v: "q + 5 \<le> 8 * cur_len m" "v = take_bit 5 (drop_bit q (cur_val m))"
    using assms by (auto simp: read_at split: if_splits)
  have "take_bit (Suc 0) (drop_bit (4 + q) (cur_val m)) = drop_bit 4 v"
    unfolding v(2) by (simp add: drop_bit_take_bit add.commute)
  then show "read 4 (cur_at m q) = (Some (take_bit 4 v), cur_at m (4 + q))"
    "read (Suc 0) (cur_at m (4 + q)) = (Some (drop_bit 4 v), cur_at m (5 + q))"
    using assms(1) v by (simp_all add: read_at ac_simps)
qed

lemma join_index:
  "word_of_nat (push_bit 4 (unat (word_of_nat (drop_bit 4 (unat x)) :: 1 word)) OR unat (word_of_nat (take_bit 4 (unat x)) :: u4)) = (x :: u5)"
proof -
  have "unat x < 2 ^ 5" using unsigned_less [of x, where ?'a = nat] by simp
  then have "take_bit (Suc 0) (drop_bit 4 (unat x)) = drop_bit 4 (unat x)"
    by (intro take_bit_nat_eq_self) (simp add: drop_bit_eq_div)
  moreover have "push_bit 4 (drop_bit 4 (unat x)) OR take_bit 4 (unat x) = unat x" by (rule bit_eqI) (auto simp: bit_simps)
  ultimately show ?thesis by (simp add: unsigned_of_nat)
qed

lemma bitwise_back: "reads_back bitwise_decode (W (bitwise_byte op) # bitwise_args op) op"
proof (cases "\<exists>a s r i. op = ShrR a s r i")
  case True
  then obtain a s r i where op: "op = ShrR a s r i" by blast
  have "bitwise_decode (cur_at m p) = Some (Some op, cur_at m (24 + p))"
    if "cur_len m \<le> 0xFFFF" "holds m p (W (bitwise_byte op) # bitwise_args op)" for m p
    using that read_split [of m "10 + p" "unat s" "cur_at m (15 + p)"]
    by (simp add: op bitwise_decode_def rd_def ret_def Let_def join_index)
  then show ?thesis by (simp add: reads_back_def op)
next
  case False
  then show ?thesis unfolding reads_back_def by (cases op) (simp_all add: bitwise_decode_def rd_def ret_def Let_def)
qed

lemma bytes_back: "(\<And>r bs st. op = PutS r bs st \<Longrightarrow> \<not> st) \<Longrightarrow> reads_back bytes_decode (W (bytes_byte op) # bytes_args op) op"
  unfolding reads_back_def
  by (cases op) (auto simp: bytes_decode_def two_s_def rd_def rd_data_def ret_def Let_def DATA_SEGMENT_MAX_LEN_def unsigned_of_nat take_bit_nat_eq_self)

lemma digest_back: "reads_back digest_decode (W (digest_byte op) # digest_args op) op"
  unfolding reads_back_def by (cases op) (simp_all add: digest_decode_def rd_def ret_def)

lemma contract_back: "contract_ok op \<Longrightarrow> reads_back contract_decode (W (contract_byte op) # contract_args op) op"
  unfolding reads_back_def
  by (cases op) (auto simp: contract_decode_def count_decode_def load_decode_def owned_decode_def rd_def ret_def)

definition calls_of :: "RgbIsa Instr \<Rightarrow> WriteCall list" where
  "calls_of i = W (instr_byte rgb_byte i) # instr_args rgb_args i"

lemma unat_bounds [simp]:
  "unat (w1 :: 1 word) < 2" "unat (w2 :: 2 word) < 4" "unat (w3 :: u3) < 8" "unat (w4 :: u4) < 16" "unat (w5 :: u5) < 32"
  "unat (w8 :: u8) < 256" "unat (w16 :: u16) < 65536"
  using unsigned_less [of w1, where ?'a = nat] unsigned_less [of w2, where ?'a = nat] unsigned_less [of w3, where ?'a = nat]
    unsigned_less [of w4, where ?'a = nat] unsigned_less [of w5, where ?'a = nat] unsigned_less [of w8, where ?'a = nat]
    unsigned_less [of w16, where ?'a = nat]
  by simp_all

lemma class_calls_ok:
  "\<forall>w \<in> set (control_flow_args op1). call_ok w"
  "put_ok op2 \<Longrightarrow> \<forall>w \<in> set (put_args op2). call_ok w"
  "\<forall>w \<in> set (move_args op3). call_ok w"
  "\<forall>w \<in> set (cmp_args op4). call_ok w"
  "arithmetic_ok op5 \<Longrightarrow> \<forall>w \<in> set (arithmetic_args op5). call_ok w"
  "\<forall>w \<in> set (bitwise_args op6). call_ok w"
  "\<forall>w \<in> set (bytes_args op7). call_ok w"
  "\<forall>w \<in> set (digest_args op8). call_ok w"
  "\<forall>w \<in> set (contract_args op9). call_ok w"
  subgoal by (cases op1) simp_all
  subgoal by (cases op2) (auto simp: number_call_def)
  subgoal by (cases op3) simp_all
  subgoal by (cases op4) simp_all
  subgoal by (cases op5) (simp_all add: int_op_args_def float_op_args_def step_byte)
  subgoal by (cases op6) simp_all
  subgoal by (cases op7) simp_all
  subgoal by (cases op8) simp_all
  subgoal by (cases op9) simp_all
  done

lemma calls_ok: "instr_ok i \<Longrightarrow> \<forall>w \<in> set (calls_of i). call_ok w"
  by (cases i rule: instr_ok.cases) (auto simp: calls_of_def instr_args_def class_calls_ok split: OutstackOp.splits)

definition aligned_args :: "WriteCall list \<Rightarrow> bool" where
  "aligned_args ws = (8 dvd sum_list (map call_bits ws))"

lemma class_aligned:
  "aligned_args (control_flow_args op1)" "aligned_args (put_args op2)" "aligned_args (move_args op3)" "aligned_args (cmp_args op4)"
  "aligned_args (arithmetic_args op5)" "aligned_args (bitwise_args op6)" "aligned_args (bytes_args op7)" "aligned_args (digest_args op8)"
  "contract_ok op9 \<Longrightarrow> aligned_args (contract_args op9)"
  unfolding aligned_args_def
  subgoal by (cases op1) simp_all
  subgoal by (cases op2) (simp_all add: number_call_def split: option.splits)
  subgoal by (cases op3) simp_all
  subgoal by (cases op4) simp_all
  subgoal by (cases op5) (simp_all add: int_op_args_def float_op_args_def)
  subgoal by (cases op6) simp_all
  subgoal by (cases op7) simp_all
  subgoal by (cases op8) simp_all
  subgoal by (cases op9) simp_all
  done

lemma calls_aligned: "instr_ok i \<Longrightarrow> 8 dvd sum_list (map call_bits (calls_of i))"
proof -
  assume "instr_ok i"
  then have "aligned_args (instr_args rgb_args i)"
  proof (cases i)
    case (ExtensionCodes x)
    then show ?thesis using \<open>instr_ok i\<close> by (cases x) (simp_all add: instr_args_def class_aligned)
  qed (auto simp: instr_args_def class_aligned aligned_args_def [of "[]"] aligned_args_def [of "[WBits 8 x]" for x] split: OutstackOp.splits)
  then show ?thesis by (simp add: calls_of_def aligned_args_def)
qed

lemma peek_byte:
  assumes "read 8 (cur_at m p) = (Some v, c')" "cur_len m \<le> 0xFFFF" "8 dvd p"
  shows "peek_u8 (cur_at m p) = Some v"
proof -
  have "p + 8 \<le> 8 * cur_len m" "v = take_bit 8 (drop_bit p (cur_val m))"
    using assms(1,2) by (auto simp: read_at split: if_splits)
  moreover have "8 * (p div 8) = p" using assms(3) by simp
  ultimately show ?thesis by (simp add: peek_u8_def eof_pos byte_at_val byte_of_def cur_val_def)
qed

lemma control_flow_range: "unat (control_flow_byte op) \<le> 7"
  by (cases op) simp_all

lemma put_range: "8 \<le> unat (put_byte op) \<and> unat (put_byte op) \<le> 15"
  by (cases op) simp_all

lemma move_range: "16 \<le> unat (move_byte op) \<and> unat (move_byte op) \<le> 23"
  by (cases op) simp_all

lemma cmp_range: "24 \<le> unat (cmp_byte op) \<and> unat (cmp_byte op) \<le> 31"
  by (cases op) simp_all

lemma arithmetic_range: "32 \<le> unat (arithmetic_byte op) \<and> unat (arithmetic_byte op) \<le> 39"
  by (cases op) simp_all

lemma bitwise_range: "40 \<le> unat (bitwise_byte op) \<and> unat (bitwise_byte op) \<le> 47"
  by (cases op) simp_all

lemma bytes_range: "48 \<le> unat (bytes_byte op) \<and> unat (bytes_byte op) \<le> 63"
  by (cases op) simp_all

lemma contract_range: "contract_ok op \<Longrightarrow> 0xc0 \<le> unat (contract_byte op) \<and> unat (contract_byte op) \<le> 0xd4"
  by (cases op) auto

lemma outstack_back: "reads_back outstack_decode [W (0x90 :: u8), W r] (Outr r)"
  by (simp add: reads_back_def outstack_decode_def rd_def ret_def)

lemma reserved_back: "reads_back reserved_decode [W b] (ReservedOp b)"
  by (simp add: reads_back_def reserved_decode_def rd_def ret_def)

lemma digest_range: "\<nexists>s d. op = Blake3 s d \<Longrightarrow> 0x80 \<le> unat (digest_byte op) \<and> unat (digest_byte op) \<le> 0x82"
  by (cases op) simp_all

lemma dispatch:
  assumes "peek_u8 c = Some b"
  shows "b \<le> 7 \<Longrightarrow> instr_decode ext c = rd_map ControlFlow control_flow_decode c"
    and "8 \<le> b \<and> b \<le> 15 \<Longrightarrow> instr_decode ext c = rd_map Put put_decode c"
    and "16 \<le> b \<and> b \<le> 23 \<Longrightarrow> instr_decode ext c = rd_map Move move_decode c"
    and "24 \<le> b \<and> b \<le> 31 \<Longrightarrow> instr_decode ext c = rd_map CmpI cmp_decode c"
    and "32 \<le> b \<and> b \<le> 39 \<Longrightarrow> instr_decode ext c = rd_map Arithmetic arithmetic_decode c"
    and "40 \<le> b \<and> b \<le> 47 \<Longrightarrow> instr_decode ext c = rd_map Bitwise bitwise_decode c"
    and "48 \<le> b \<and> b \<le> 63 \<Longrightarrow> instr_decode ext c = rd_map Bytes bytes_decode c"
    and "0x80 \<le> b \<and> b \<le> 0x82 \<Longrightarrow> instr_decode ext c = rd_map Digest digest_decode c"
    and "b = 0x90 \<Longrightarrow> instr_decode ext c = rd_map Outstack outstack_decode c"
    and "64 \<le> b \<and> b \<le> 0x7f \<Longrightarrow> instr_decode ext c = rd_map ReservedInstruction reserved_decode c"
    and "0xc0 \<le> b \<and> b \<le> 0xd4 \<Longrightarrow> instr_decode ext c = rd_map ExtensionCodes ext c"
  using assms by (simp_all add: instr_decode_def)

lemma reads_back_holds:
  "reads_back d ws x \<Longrightarrow> holds m p ws \<Longrightarrow> cur_len m \<le> 0xFFFF \<Longrightarrow> instr_decode rgb_decode (cur_at m p) = rd_map f d (cur_at m p)
    \<Longrightarrow> instr_decode rgb_decode (cur_at m p) = Some (Some (f x), cur_at m (sum_list (map call_bits ws) + p))"
  by (simp add: reads_back_def rd_map_def)

lemma instr_back:
  assumes "instr_ok i" "holds m p (calls_of i)" "cur_len m \<le> 0xFFFF" "8 dvd p"
  shows "instr_decode rgb_decode (cur_at m p) = Some (Some i, cur_at m (sum_list (map call_bits (calls_of i)) + p))"
proof -
  have peek: "peek_u8 (cur_at m p) = Some (unat (instr_byte rgb_byte i))"
    using assms(2-4) by (auto simp: calls_of_def intro: peek_byte)
  note simps = calls_of_def instr_byte_def instr_args_def
  show ?thesis
  proof (cases i)
    case (ControlFlow op)
    have "reads_back control_flow_decode (calls_of i) op" using control_flow_back [of op] by (simp add: simps ControlFlow)
    then show ?thesis
      using reads_back_holds [OF _ assms(2,3) dispatch(1) [OF peek]] control_flow_range [of op] by (simp add: ControlFlow instr_byte_def)
  next
    case (Put op)
    have "reads_back put_decode (calls_of i) op" using assms(1) put_back [of op] by (simp add: simps Put)
    then show ?thesis
      using reads_back_holds [OF _ assms(2,3) dispatch(2) [OF peek]] put_range [of op] by (simp add: Put instr_byte_def)
  next
    case (Move op)
    have "reads_back move_decode (calls_of i) op" using move_back [of op] by (simp add: simps Move)
    then show ?thesis
      using reads_back_holds [OF _ assms(2,3) dispatch(3) [OF peek]] move_range [of op] by (simp add: Move instr_byte_def)
  next
    case (CmpI op)
    have "reads_back cmp_decode (calls_of i) op" using cmp_back [of op] by (simp add: simps CmpI)
    then show ?thesis
      using reads_back_holds [OF _ assms(2,3) dispatch(4) [OF peek]] cmp_range [of op] by (simp add: CmpI instr_byte_def)
  next
    case (Arithmetic op)
    have "reads_back arithmetic_decode (calls_of i) op" using assms(1) arithmetic_back [of op] by (simp add: simps Arithmetic)
    then show ?thesis
      using reads_back_holds [OF _ assms(2,3) dispatch(5) [OF peek]] arithmetic_range [of op] by (simp add: Arithmetic instr_byte_def)
  next
    case (Bitwise op)
    have "reads_back bitwise_decode (calls_of i) op" using bitwise_back [of op] by (simp add: simps Bitwise)
    then show ?thesis
      using reads_back_holds [OF _ assms(2,3) dispatch(6) [OF peek]] bitwise_range [of op] by (simp add: Bitwise instr_byte_def)
  next
    case (Bytes op)
    have "\<And>r bs st. op = PutS r bs st \<Longrightarrow> \<not> st" using assms(1) Bytes by auto
    then have "reads_back bytes_decode (W (bytes_byte op) # bytes_args op) op" by (rule bytes_back)
    then have "reads_back bytes_decode (calls_of i) op" by (simp add: simps Bytes)
    then show ?thesis
      using reads_back_holds [OF _ assms(2,3) dispatch(7) [OF peek]] bytes_range [of op] by (simp add: Bytes instr_byte_def)
  next
    case (Digest op)
    have "\<nexists>s d. op = Blake3 s d" using assms(1) Digest by auto
    then have "reads_back digest_decode (calls_of i) op" "0x80 \<le> unat (digest_byte op) \<and> unat (digest_byte op) \<le> 0x82"
      using digest_back [of op] digest_range [of op] by (simp_all add: simps Digest)
    then show ?thesis
      using reads_back_holds [OF _ assms(2,3) dispatch(8) [OF peek]] by (simp add: Digest instr_byte_def)
  next
    case (Outstack op)
    have "reads_back outstack_decode (calls_of i) op" using outstack_back by (cases op) (simp add: simps Outstack)
    then show ?thesis
      using reads_back_holds [OF _ assms(2,3) dispatch(9) [OF peek]] by (simp add: Outstack instr_byte_def)
  next
    case (ExtensionCodes x)
    then obtain op where x: "i = ExtensionCodes (Contract op)" "contract_ok op" using assms(1) by (cases x) auto
    have "reads_back contract_decode (calls_of i) op" using contract_back [OF x(2)] by (simp add: simps x(1))
    moreover have "rgb_decode (cur_at m p) = rd_map Contract contract_decode (cur_at m p)"
      using contract_range [OF x(2)] by (simp add: rgb_decode_def peek x(1) instr_byte_def)
    ultimately have "rgb_decode (cur_at m p) = Some (Some (Contract op), cur_at m (sum_list (map call_bits (calls_of i)) + p))"
      using assms(2,3) by (simp add: reads_back_def rd_map_def)
    then show ?thesis
      using dispatch(11) [OF peek, of rgb_decode] contract_range [OF x(2)] by (simp add: rd_map_def x(1) instr_byte_def)
  next
    case (ReservedInstruction op)
    have "reads_back reserved_decode (calls_of i) op" using reserved_back by (cases op) (simp add: simps ReservedInstruction)
    moreover have "64 \<le> unat (instr_byte rgb_byte i) \<and> unat (instr_byte rgb_byte i) \<le> 0x7f"
      using assms(1) by (cases op) (simp add: ReservedInstruction instr_byte_def word_le_nat_alt)
    ultimately show ?thesis
      using reads_back_holds [OF _ assms(2,3) dispatch(10) [OF peek]] by (simp add: ReservedInstruction)
  next
    case Nop
    then show ?thesis using assms(1) by simp
  qed
qed

section \<open>Assembling and disassembling\<close>

text \<open>Decoding one instruction after the other.\<close>

fun decodes :: "Cursor \<Rightarrow> RgbIsa Instr list \<Rightarrow> Cursor \<Rightarrow> bool" where
  "decodes c [] c' = (c' = c)"
| "decodes c (i # is) c' = (\<not> is_eof c \<and> (\<exists>c1. instr_decode rgb_decode c = Some (Some i, c1) \<and> decodes c1 is c'))"

lemma encode_all_decodes:
  assumes "encode_all A (rgb_set A S ctx) code c = POk c'" "writer_ok c" "8 dvd cur_pos c" "\<forall>i \<in> set code. instr_ok i"
  shows "(code = [] \<and> c' = c \<or> grows c (sum_list (map (sum_list \<circ> map call_bits \<circ> calls_of) code)) c')
    \<and> 8 dvd cur_pos c' \<and> (extends m c' \<longrightarrow> decodes (cur_at m (cur_pos c)) code (cur_at m (cur_pos c')))"
  using assms
proof (induction code arbitrary: c)
  case (Cons i code)
  obtain c1 where e: "write_calls A (calls_of i) c = POk c1" "encode_all A (rgb_set A S ctx) code c1 = POk c'"
    using Cons.prems(1) by (auto simp: res_simps encode_def rgb_set_def calls_of_def simp del: write_calls.simps)
  let ?n = "sum_list (map call_bits (calls_of i))"
  have g: "grows c ?n c1" and h: "extends m c1 \<longrightarrow> holds m (cur_pos c) (calls_of i)"
    using write_calls_grows [OF e(1) Cons.prems(2), of m] calls_ok [of i] Cons.prems(4) by (auto simp: calls_of_def)
  have c1: "writer_ok c1" "cur_pos c1 = ?n + cur_pos c" using g by (simp_all add: grows_def)
  have al: "8 dvd cur_pos c1" using c1(2) calls_aligned [of i] Cons.prems(3,4) by simp
  note ih = Cons.IH [OF e(2) c1(1) al]
  have g': "code = [] \<and> c' = c1 \<or> grows c1 (sum_list (map (sum_list \<circ> map call_bits \<circ> calls_of) code)) c'"
    and ih': "8 dvd cur_pos c'" "extends m c' \<longrightarrow> decodes (cur_at m (cur_pos c1)) code (cur_at m (cur_pos c'))"
    using ih Cons.prems(4) by (simp_all add: comp_def)
  have "decodes (cur_at m (cur_pos c)) (i # code) (cur_at m (cur_pos c'))" if e': "extends m c'"
  proof -
    have e1: "extends m c1" using g' e' extends_back by blast
    then have len: "cur_len m \<le> 0xFFFF" "cur_pos c1 \<le> 8 * cur_len m" by (simp_all add: extends_def)
    moreover have "0 < ?n" by (simp add: calls_of_def)
    ultimately have "\<not> is_eof (cur_at m (cur_pos c))" using c1(2) by (simp add: eof_pos)
    then show ?thesis
      using instr_back [of i m "cur_pos c"] h e1 len(1) Cons.prems(3,4) ih'(2) e' c1(2) by auto
  qed
  then show ?case using g g' ih'(1) grows_trans [OF g] by (auto simp: comp_def)
qed simp

lemma adjust_len_val: "le_val code < 2 ^ (8 * n) \<Longrightarrow> le_val (adjust_len code n) = le_val code"
proof (cases "n \<le> length code")
  case True
  assume less: "le_val code < 2 ^ (8 * n)"
  have "le_val code = le_val (take n code) + 2 ^ (8 * n) * le_val (drop n code)"
    using le_val_append [of "take n code" "drop n code"] True by simp
  then show ?thesis using less True by (cases "le_val (drop n code)") (auto simp: adjust_len_def)
qed (simp add: adjust_len_def le_val_append)

lemma decodes_disassemble:
  "decodes c code c' \<Longrightarrow> is_eof c' \<Longrightarrow> disassemble_loop (rgb_set A S ctx) acc c = Some (Some (Some (acc @ code)))"
proof (induction code arbitrary: c acc)
  case (Cons i code)
  then show ?case by (subst disassemble_loop.simps) (auto simp: rgb_set_def)
qed (subst disassemble_loop.simps, simp)

lemma cursor_new_ok: "length libs \<le> 0xFF \<Longrightarrow> writer_ok (cursor_new libs) \<and> cur_pos (cursor_new libs) = 0 \<and> cur_val (cursor_new libs) = 0"
  by (simp add: writer_ok_def cursor_new_def cur_pos_def cur_val_def)

lemma assemble_decodes:
  assumes "assemble A (rgb_set A S ctx) code = POk l" "\<forall>i \<in> set code. instr_ok i"
  obtains c c' where "cursor_with (lib_code l) (lib_data l) (lib_libs l) = Some c" "decodes c code c'" "is_eof c'"
proof -
  obtain libs w where libs: "length libs \<le> 0xFF" and w: "encode_all A (rgb_set A S ctx) code (cursor_new libs) = POk w"
    and l: "l = \<lparr> lib_isae = [''RGB''], lib_code = adjust_len (cur_code w) (cur_byte w), lib_data = cur_data w, lib_libs = libs \<rparr>"
    using assms(1) by (auto simp: assemble_def lib_seg_def rgb_set_def Let_def split: if_splits option.splits sum.splits)
  let ?c = "cursor_new libs"
  let ?m = "\<lparr> cur_code = lib_code l, cur_len = length (lib_code l), cur_byte = 0, cur_bit = 0, cur_data = lib_data l, cur_libs = lib_libs l \<rparr>"
  note new = cursor_new_ok [OF libs]
  have e: "code = [] \<and> w = ?c \<or> (\<exists>n. grows ?c n w)" "8 dvd cur_pos w"
    and d: "extends ?m w \<longrightarrow> decodes (cur_at ?m 0) code (cur_at ?m (cur_pos w))"
    using encode_all_decodes [OF w _ _ assms(2), of ?m] new by auto
  have ok: "writer_ok w" "cur_libs w = libs" "cur_pos w \<le> 8 * 0xFFFF" using e(1) new by (auto simp: grows_def cursor_new_def)
  have pos: "cur_pos w = 8 * cur_byte w" using e(2) unat_u3 [of "cur_bit w"] unfolding cur_pos_def by presburger
  have len: "length (lib_code l) = cur_byte w" by (simp add: l adjust_len_def)
  have val: "cur_val ?m = cur_val w" using ok(1) pos by (simp add: cur_val_def l adjust_len_val writer_ok_def)
  have "extends ?m w" using ok pos len val by (simp add: extends_def writer_ok_def l take_bit_nat_eq_self)
  then have "decodes (cur_at ?m 0) code (cur_at ?m (cur_pos w))" using d by blast
  moreover have "cur_at ?m 0 = ?m" by (simp add: cur_at_def)
  moreover have "is_eof (cur_at ?m (cur_pos w))" using pos len by (simp add: eof_pos)
  moreover have "cursor_with (lib_code l) (lib_data l) (lib_libs l) = Some ?m"
    using ok pos len by (simp add: cursor_with_def writer_ok_def DATA_SEGMENT_MAX_LEN_def l)
  ultimately show ?thesis using that by metis
qed

lemma assemble_disassemble:
  assumes "assemble A (rgb_set A S ctx) code = POk l" "\<forall>i \<in> set code. instr_ok i"
  shows "disassemble (rgb_set A S ctx) l = Some (Some (Some code))"
  using assemble_decodes [OF assms] decodes_disassemble [where acc = "[]"] by (metis append_Nil disassemble_def option.simps(5))

end
