(* ===== verification/Spec2Isabelle.thy ===== *)
theory Spec2Isabelle
  imports Operation_Properties Mpc_Properties Dbc_Properties Validator_Properties Alu_Properties
begin

text \<open>
  A verification of the consensus layer of \<open>rgb-service\<close>: client-side validated smart contracts
  whose state is assigned to bitcoin transaction outputs.

  \<^bold>\<open>The program.\<close>  A contract starts with a genesis and goes on with transitions.  An operation
  assigns state to single-use seals, each naming a bitcoin output; a transition spends earlier
  assignments, and the bitcoin transaction that spends the outputs of their seals commits to the
  bundle of transitions it carries.  The commitment is put into an \<open>OP_RETURN\<close> or a taproot output
  through a multi-protocol tree.  A recipient gets a consignment with the whole history and
  validates it: every operation against the contract's schema and its validation script, every
  witness transaction against the seals it closes.  Scripts are bytecode of a register machine
  with instructions that read the operation and the contract state.

  \<^bold>\<open>Contract data\<close> (\<open>crates/rgb-consensus/src\<close>: \<open>schema/\<close>, \<open>seals/\<close>, \<open>operation/\<close>,
  \<open>commit_verify/\<close>).  \<open>Schema\<close>, \<open>Seals\<close>, \<open>Assignments\<close>, \<open>Operations\<close> have the records and
  datatypes of the source with their operations; \<open>Text\<close> has the string functions of the standard
  library their textual forms use.  \<open>Merkle\<close> and \<open>Commit\<close> model merklization, the commitment
  engine and the identifiers, \<open>Bundle\<close> the transition bundles.  \<open>Operation_Properties\<close>:
  identifiers bind operations up to listed hash collisions and exist within the size bounds,
  revealing and concealing keep identifiers, bundle and state updates keep their invariants,
  strings are read back.

  \<^bold>\<open>Multi-protocol commitments\<close> (\<open>commit_verify/mpc/\<close>).  \<open>Mpc_Tree\<close> builds trees, \<open>Mpc_Block\<close>
  conceals and proves, \<open>Mpc_Inclusion\<close> relates both to complete binary trees.  \<open>Mpc_Properties\<close>:
  proofs are complete, sound and binding, concealing keeps the commitment, and building a tree
  succeeds or reports the error that applies.

  \<^bold>\<open>Commitments in transactions\<close> (\<open>dbc/\<close>).  \<open>Dbc\<close> has the opret and tapret schemes on keys,
  scripts, outputs and transactions, \<open>Dbc_Schemes\<close> their contracts as locales with
  interpretations, \<open>Dbc_Binding\<close> what proofs pin down.  \<open>Dbc_Properties\<close>: a commitment verifies
  for its message and no other; a transaction and a method admit one message.

  \<^bold>\<open>Validation\<close> (\<open>vm/contract.rs\<close>, \<open>validation/\<close>).  \<open>Contract_State\<close> and \<open>Contract_Order\<close> have
  the consensus order of operations and global state; \<open>Validation\<close> checks operations against
  schemata and \<open>Validator\<close> consignments.  \<open>Validator_Spec\<close> says declaratively when an operation
  conforms, \<open>Ledger\<close> is the abstract specification of a history, \<open>Validator_History\<close>,
  \<open>Validator_Ledger\<close> and \<open>Validator_Report\<close> carry invariants along a run, \<open>Validator_Demo\<close> holds
  a consignment to instantiate statements with.  \<open>Validator_Properties\<close>: an accepted history
  spends nothing twice, is anchored in transactions that close its seals, refines the ledger and
  conforms to the schema; validation returns; the report and the order of global state are as
  documented, with the exceptions that are proved.

  \<^bold>\<open>Virtual machine\<close> (\<open>crates/rgb-aluvm/src\<close>, \<open>rgb-consensus/src/vm\<close>).  \<open>Alu_Number\<close>: numbers
  and arithmetic (\<open>data/\<close>).  \<open>Alu_Regs\<close>: registers (\<open>reg/\<close>).  \<open>Alu_Isa\<close>: instructions and their
  execution (\<open>isa/instr.rs\<close>, \<open>isa/exec.rs\<close>).  \<open>Alu_Cursor\<close> and \<open>Alu_Bytecode\<close>: reading and writing
  bits, encoders and decoders (\<open>library/cursor.rs\<close>, \<open>isa/bytecode.rs\<close>, \<open>isa/flags.rs\<close>).
  \<open>Alu_Vm\<close>: libraries, assembler and the two loops (\<open>library/lib.rs\<close>, \<open>vm.rs\<close>).  \<open>Contract_Op\<close>:
  the contract instructions and the run of a script (\<open>vm/op_contract.rs\<close>, \<open>vm/isa.rs\<close>,
  \<open>validation/logic.rs\<close>).  \<open>Alu_Width\<close> and \<open>Alu_Invariant\<close> show what instructions keep, \<open>Alu_Bits\<close>
  that the cursor reads the bits it wrote, \<open>Alu_Run\<close> when runs end and what they keep; \<open>Alu_Eval\<close>
  has the equations for running concrete code.  \<open>Alu_Properties\<close>: scripts without the byte of
  \<open>nop\<close> end, registers keep their widths, calls leave the stack pointer alone.

  \<^bold>\<open>Conventions.\<close>  Results are sums with the error on the left; a panic is \<open>None\<close>.  Machine integers
  are words where they can wrap, natural numbers where a lemma bounds them.  The loops of the
  machine are \<open>partial_function\<close>s whose value \<open>None\<close> is a run that never returns, next to \<open>Some None\<close>
  for a panic; every other loop is a total function.  There is no fuel.  SHA-256, strict
  encodings, bitcoin scripts and keys, float formats, signature checks, the type system and the
  resolver of transactions are parameters; statements name the laws they use of them.  No
  statement assumes that a hash is injective: it offers a collision among listed values instead.

  \<^bold>\<open>Not modelled.\<close>  Serialization to files, serde, text of identifiers in bech32 and baid64, and
  logging; the elliptic curve instructions of the machine, which optional features enable; the
  sets of registers an instruction reports for debugging; the macros that write scripts.  The
  crates around the consensus layer (wallet, coloring, service, daemon, console, lightning) are
  input, output and storage around the validator.
\<close>

end
